(* ===== verification/Go_Prelude.thy ===== *)
theory Go_Prelude
  imports Main "HOL-Library.Word"
begin

text \<open>
  Shared vocabulary of the development: the Go standard-library notions the library's
  code is written in (times, durations, machine integers, string helpers), the named
  collections of simplification rules the component proofs use, and generic lemmas.
\<close>

named_theorems time_simps \<open>unfolding rules for Go times and durations\<close>
named_theorems wake_simps \<open>effect of the refresh-wake broadcast on the client fields\<close>
named_theorems sched_simps \<open>effect of the scheduler operations on the client fields\<close>
named_theorems state_ops \<open>definitions of the token-state transitions\<close>

section \<open>Machine integers\<close>

type_synonym uint64 = "64 word"

lemma word_plus_one_neq [simp]:
  "(x :: uint64) + 1 \<noteq> x" "x \<noteq> x + 1"
  by simp_all

lemma unat_plus_one:
  assumes "(a :: uint64) < b"
  shows "unat (a + 1) = unat a + 1"
proof -
  have "unat a < unat b" using assms by (simp add: word_less_nat_alt)
  moreover have "unat b < 2 ^ 64" using unsigned_less [of b] by simp
  ultimately have "unat a + 1 < 2 ^ 64" by linarith
  then show ?thesis by (simp add: unat_word_ariths)
qed

text \<open>A sequence number that skips zero on wrap-around, as both claim counters do.\<close>

definition nextNonZero :: "uint64 \<Rightarrow> uint64" where
  "nextNonZero n = (let n1 = n + 1 in if n1 = 0 then n1 + 1 else n1)"

lemma nextNonZero_nonzero [simp]: "nextNonZero n \<noteq> 0"
  by (simp add: nextNonZero_def Let_def)

lemma nextNonZero_neq [simp]: "nextNonZero n \<noteq> n"
proof (cases "n + 1 = 0")
  case True
  then have "n = - 1" by (simp add: eq_neg_iff_add_eq_0)
  then show ?thesis by (simp add: nextNonZero_def)
qed (simp add: nextNonZero_def)

section \<open>Durations and times\<close>

text \<open>
  \<open>time.Duration\<close> is a signed 64-bit count of nanoseconds. Durations are integers here and
  the operations that can leave the 64-bit range say what Go does: \<open>+\<close> wraps around
  (\<open>dur_add\<close>) and \<open>Time.Sub\<close> saturates (\<open>time_sub\<close>).
\<close>

type_synonym duration = int

definition maxDuration :: duration where "maxDuration = 2 ^ 63 - 1"
definition minDuration :: duration where "minDuration = - (2 ^ 63)"

definition second :: duration where "second = 1000000000"
definition minute :: duration where "minute = 60 * second"
definition hour :: duration where "hour = 60 * minute"

definition dur_add :: "duration \<Rightarrow> duration \<Rightarrow> duration" where
  "dur_add a b = signed_take_bit 63 (a + b)"

lemma dur_add_exact:
  assumes "minDuration \<le> a + b" and "a + b \<le> maxDuration"
  shows "dur_add a b = a + b"
  using assms
  by (simp add: dur_add_def minDuration_def maxDuration_def signed_take_bit_int_eq_self)

text \<open>
  A \<open>time.Time\<close> is an instant together with an in-memory representation (the monotonic
  reading and the location pointer). The ordering methods, \<open>Add\<close>, \<open>Sub\<close> and \<open>IsZero\<close>
  look at the instant only; Go's \<open>==\<close> on structs also compares the representation. The
  instant counts nanoseconds from the zero time, 1 January of year 1 UTC.
\<close>

record gotime =
  t_ns :: int
  t_rep :: nat

definition zeroTime :: gotime where "zeroTime = \<lparr>t_ns = 0, t_rep = 0\<rparr>"

definition time_isZero :: "gotime \<Rightarrow> bool" where "time_isZero t \<longleftrightarrow> t_ns t = 0"
definition time_before :: "gotime \<Rightarrow> gotime \<Rightarrow> bool" where "time_before t u \<longleftrightarrow> t_ns t < t_ns u"
definition time_after :: "gotime \<Rightarrow> gotime \<Rightarrow> bool" where "time_after t u \<longleftrightarrow> t_ns u < t_ns t"
definition time_add :: "gotime \<Rightarrow> duration \<Rightarrow> gotime" where
  "time_add t d = t\<lparr>t_ns := t_ns t + d\<rparr>"
definition time_sub :: "gotime \<Rightarrow> gotime \<Rightarrow> duration" where
  "time_sub t u = max minDuration (min maxDuration (t_ns t - t_ns u))"

lemmas time_defs [time_simps] =
  time_isZero_def time_before_def time_after_def time_add_def zeroTime_def

lemma t_ns_zeroTime [simp]: "t_ns zeroTime = 0"
  by (simp add: zeroTime_def)

lemma t_ns_time_add [simp]: "t_ns (time_add t d) = t_ns t + d"
  by (simp add: time_add_def)

lemma time_isZero_zeroTime [simp]: "time_isZero zeroTime"
  by (simp add: time_isZero_def)

lemma time_sub_positive_iff: "0 < time_sub t u \<longleftrightarrow> t_ns u < t_ns t"
  by (auto simp: time_sub_def minDuration_def maxDuration_def min_def max_def)

lemma time_sub_le: "0 < time_sub t u \<Longrightarrow> time_sub t u \<le> t_ns t - t_ns u"
  by (auto simp: time_sub_def minDuration_def min_def max_def split: if_splits)

lemma time_sub_le_maxDuration: "time_sub t u \<le> maxDuration"
  by (auto simp: time_sub_def minDuration_def maxDuration_def)

section \<open>Strings\<close>

text \<open>
  Go strings are byte strings, hence \<^typ>\<open>string\<close>. The case and space helpers follow the
  ASCII part of Go's \<open>strings\<close> package; bytes outside ASCII are left alone.
\<close>

definition isSpace :: "char \<Rightarrow> bool" where
  "isSpace ch \<longleftrightarrow> ch \<in> {CHR '' '', CHR 0x09, CHR 0x0A, CHR 0x0B, CHR 0x0C, CHR 0x0D}"

definition trimSpace :: "string \<Rightarrow> string" where
  "trimSpace s = rev (dropWhile isSpace (rev (dropWhile isSpace s)))"

definition lowerChar :: "char \<Rightarrow> char" where
  "lowerChar ch =
     (let n = of_char ch :: nat
      in if 65 \<le> n \<and> n \<le> 90 then char_of (n + 32) else ch)"

definition toLower :: "string \<Rightarrow> string" where
  "toLower s = map lowerChar s"

definition equalFold :: "string \<Rightarrow> string \<Rightarrow> bool" where
  "equalFold s t \<longleftrightarrow> toLower s = toLower t"

definition hasPrefix :: "string \<Rightarrow> string \<Rightarrow> bool" where
  "hasPrefix s p \<longleftrightarrow> take (length p) s = p"

definition hasSuffix :: "string \<Rightarrow> string \<Rightarrow> bool" where
  "hasSuffix s p \<longleftrightarrow> length p \<le> length s \<and> drop (length s - length p) s = p"

text \<open>\<open>strings.Split\<close> on a one-byte separator, and \<open>strings.Cut\<close>.\<close>

fun splitOn :: "char \<Rightarrow> string \<Rightarrow> string list" where
  "splitOn sep [] = [[]]"
| "splitOn sep (ch # s) =
     (if ch = sep then [] # splitOn sep s
      else case splitOn sep s of [] \<Rightarrow> [[ch]] | w # ws \<Rightarrow> (ch # w) # ws)"

definition cutAt :: "char \<Rightarrow> string \<Rightarrow> string \<times> string" where
  "cutAt sep s =
     (takeWhile (\<lambda>ch. ch \<noteq> sep) s, drop 1 (dropWhile (\<lambda>ch. ch \<noteq> sep) s))"

text \<open>Decimal digits.\<close>

fun digitsOf :: "nat \<Rightarrow> string" where
  "digitsOf n = (if n < 10 then [char_of (48 + n)] else digitsOf (n div 10) @ [char_of (48 + n mod 10)])"

declare digitsOf.simps [simp del]

text \<open>\<open>strings.Fields\<close> for ASCII white space.\<close>

definition splitFields :: "string \<Rightarrow> string list" where
  "splitFields str =
     filter (\<lambda>f. f \<noteq> '''')
       (splitOn (CHR '' '') (map (\<lambda>ch. if isSpace ch then CHR '' '' else ch) str))"

lemma splitOn_not_Nil [simp]: "splitOn sep s \<noteq> []"
  by (induction s) (auto split: list.splits)

lemma splitOn_no_sep: "sep \<notin> set s \<Longrightarrow> splitOn sep s = [s]"
  by (induction s) auto

lemma splitOn_append_sep:
  "sep \<notin> set s \<Longrightarrow> splitOn sep (s @ sep # t) = s # splitOn sep t"
  by (induction s) auto

lemma equalFold_refl [simp]: "equalFold s s"
  by (simp add: equalFold_def)

end
