(* ===== verification/Go_Errors.thy ===== *)
theory Go_Errors
  imports Go_Prelude
begin

text \<open>
  Errors of the library (\<open>errors.go\<close>): the sentinel errors, \<open>AuthError\<close>,
  \<open>restoreSessionError\<close> and the error values of the libraries it calls, with Go's
  \<open>fmt.Errorf\<close> wrapping, \<open>errors.Is\<close> and \<open>errors.As\<close>, and the classification the
  refresh path rests on.
\<close>

section \<open>Error values\<close>

text \<open>
  \<open>CtxErr\<close> is what \<open>context.Context.Err\<close> returns, \<open>RetrieveError\<close> the token-endpoint
  error of \<open>golang.org/x/oauth2\<close> (code, description, HTTP status if a response is attached,
  and the text its own \<open>Error\<close> method gives, which can hold the raw response body),
  \<open>OtherError\<close> any other error of foreign code with its text, and \<open>Errorf\<close> the
  result of \<open>fmt.Errorf\<close>: literal text and wrapped errors in the order of the format.
\<close>

datatype ctx_err = Canceled | DeadlineExceeded

datatype goerror =
    ErrNotInitialized
  | ErrStateMismatch
  | ErrNonceMismatch
  | ErrFlowCancelled
  | ErrNotAuthenticated
  | errSessionIntegrity
  | errRefreshPermanentlyBlocked
  | errScheduledRefreshExpired
  | errAzpMismatch
  | CtxErr ctx_err
  | AuthError string string
  | RetrieveError string string "string option" string
  | OtherError string
  | RestoreSessionError goerror
  | Errorf "epart list"
and epart = Txt string | Wrapped goerror

type_synonym 'a result = "goerror + 'a"

text \<open>\<open>errors.Is\<close>: the error itself or any error in the tree it wraps.\<close>

fun errors_is :: "goerror \<Rightarrow> goerror \<Rightarrow> bool" and part_is :: "epart \<Rightarrow> goerror \<Rightarrow> bool" where
  "errors_is (RestoreSessionError e) t \<longleftrightarrow> RestoreSessionError e = t \<or> errors_is e t"
| "errors_is (Errorf ps) t \<longleftrightarrow> Errorf ps = t \<or> list_ex (\<lambda>p. part_is p t) ps"
| "errors_is e t \<longleftrightarrow> e = t"
| "part_is (Txt s) t \<longleftrightarrow> False"
| "part_is (Wrapped e) t \<longleftrightarrow> errors_is e t"

text \<open>
  \<open>errors.As\<close> with a \<open>*AuthError\<close> or a \<open>*oauth2.RetrieveError\<close> target: the first match in
  the depth-first traversal of the tree.
\<close>

fun firstSome :: "('a \<Rightarrow> 'b option) \<Rightarrow> 'a list \<Rightarrow> 'b option" where
  "firstSome f [] = None"
| "firstSome f (x # xs) = (case f x of None \<Rightarrow> firstSome f xs | Some y \<Rightarrow> Some y)"

lemma firstSome_cong [fundef_cong]:
  "xs = ys \<Longrightarrow> (\<And>x. x \<in> set ys \<Longrightarrow> f x = g x) \<Longrightarrow> firstSome f xs = firstSome g ys"
proof (induction ys arbitrary: xs)
  case (Cons y ys)
  then show ?case by (simp split: option.split)
qed simp

fun as_AuthError :: "goerror \<Rightarrow> (string \<times> string) option"
  and part_as_AuthError :: "epart \<Rightarrow> (string \<times> string) option" where
  "as_AuthError (AuthError code msg) = Some (code, msg)"
| "as_AuthError (RestoreSessionError e) = as_AuthError e"
| "as_AuthError (Errorf ps) = firstSome part_as_AuthError ps"
| "as_AuthError _ = None"
| "part_as_AuthError (Txt s) = None"
| "part_as_AuthError (Wrapped e) = as_AuthError e"

fun as_RetrieveError :: "goerror \<Rightarrow> (string \<times> string \<times> string option \<times> string) option"
  and part_as_RetrieveError :: "epart \<Rightarrow> (string \<times> string \<times> string option \<times> string) option" where
  "as_RetrieveError (RetrieveError code desc status rendered) = Some (code, desc, status, rendered)"
| "as_RetrieveError (RestoreSessionError e) = as_RetrieveError e"
| "as_RetrieveError (Errorf ps) = firstSome part_as_RetrieveError ps"
| "as_RetrieveError _ = None"
| "part_as_RetrieveError (Txt s) = None"
| "part_as_RetrieveError (Wrapped e) = as_RetrieveError e"

text \<open>The text an error formats to (\<open>Error()\<close>).\<close>

definition AuthError_text :: "string \<Rightarrow> string \<Rightarrow> string" where
  "AuthError_text code msg =
     (if msg \<noteq> '''' then ''pkceflow: auth error: '' @ code @ '': '' @ msg
      else ''pkceflow: auth error: '' @ code)"

fun ctxText :: "ctx_err \<Rightarrow> string" where
  "ctxText Canceled = ''context canceled''"
| "ctxText DeadlineExceeded = ''context deadline exceeded''"

fun errorText :: "goerror \<Rightarrow> string" and partText :: "epart \<Rightarrow> string" where
  "errorText ErrNotInitialized = ''pkceflow: client not initialized (call Init first)''"
| "errorText ErrStateMismatch = ''pkceflow: state parameter mismatch''"
| "errorText ErrNonceMismatch = ''pkceflow: nonce mismatch''"
| "errorText ErrFlowCancelled = ''pkceflow: auth flow cancelled''"
| "errorText ErrNotAuthenticated = ''pkceflow: not authenticated (no ID token available)''"
| "errorText errSessionIntegrity = ''pkceflow: session integrity check failed''"
| "errorText errRefreshPermanentlyBlocked = ''pkceflow: token generation is permanently blocked''"
| "errorText errScheduledRefreshExpired =
     ''pkceflow: scheduled refresh reached access-token expiry''"
| "errorText errAzpMismatch = ''pkceflow: ID token azp claim does not authorize this client''"
| "errorText (CtxErr c) = ctxText c"
| "errorText (AuthError code msg) = AuthError_text code msg"
| "errorText (RetrieveError code desc status rendered) = rendered"
| "errorText (OtherError s) = s"
| "errorText (RestoreSessionError e) = ''pkceflow: failed to restore persisted session''"
| "errorText (Errorf ps) = concat (map partText ps)"
| "partText (Txt s) = s"
| "partText (Wrapped e) = errorText e"

section \<open>Classification\<close>

definition permanentErrorCodes :: "string list" where
  "permanentErrorCodes = [''invalid_grant'', ''invalid_client'', ''unauthorized_client'']"

definition credentialRefusedCode :: string where
  "credentialRefusedCode = ''invalid_grant''"

definition newSessionIntegrityError :: "string \<Rightarrow> goerror option \<Rightarrow> goerror" where
  "newSessionIntegrityError message cause =
     (case cause of
        Some e \<Rightarrow> Errorf [Wrapped errSessionIntegrity, Txt '': '', Txt message, Txt '': '', Wrapped e]
      | None \<Rightarrow> Errorf [Wrapped errSessionIntegrity, Txt '': '', Txt message])"

definition isSessionIntegrityError :: "goerror \<Rightarrow> bool" where
  "isSessionIntegrityError err \<longleftrightarrow> errors_is err errSessionIntegrity"

definition isCredentialRefusedError :: "goerror \<Rightarrow> bool" where
  "isCredentialRefusedError err \<longleftrightarrow>
     (if isSessionIntegrityError err then False
      else case as_AuthError err of
             Some (code, _) \<Rightarrow> code = credentialRefusedCode
           | None \<Rightarrow> False)"

definition IsPermanentError :: "goerror \<Rightarrow> bool" where
  "IsPermanentError err \<longleftrightarrow>
     (if errors_is err errSessionIntegrity \<or> errors_is err errRefreshPermanentlyBlocked then True
      else case as_AuthError err of
             Some (code, _) \<Rightarrow> code \<in> set permanentErrorCodes
           | None \<Rightarrow> False)"

definition asAuthError :: "goerror \<Rightarrow> goerror" where
  "asAuthError err =
     (case as_RetrieveError err of
        None \<Rightarrow> err
      | Some (code, desc, status, rendered) \<Rightarrow>
          (let code = (if code = '''' then ''token_endpoint_error'' else code);
               message = (if desc = '''' then
                            (case status of
                               Some st \<Rightarrow> ''token endpoint returned '' @ st
                             | None \<Rightarrow> desc)
                          else desc)
           in AuthError code message))"

section \<open>Lemmas\<close>

lemma newSessionIntegrityError_isSessionIntegrityError [simp]:
  "isSessionIntegrityError (newSessionIntegrityError msg cause)"
  by (simp add: isSessionIntegrityError_def newSessionIntegrityError_def split: option.split)

lemma integrity_not_refused [simp]:
  "isSessionIntegrityError e \<Longrightarrow> \<not> isCredentialRefusedError e"
  by (simp add: isCredentialRefusedError_def)

lemma integrity_permanent [simp]: "isSessionIntegrityError e \<Longrightarrow> IsPermanentError e"
  by (simp add: IsPermanentError_def isSessionIntegrityError_def)

lemma refused_permanent: "isCredentialRefusedError e \<Longrightarrow> IsPermanentError e"
  by (auto simp: isCredentialRefusedError_def IsPermanentError_def credentialRefusedCode_def
      permanentErrorCodes_def isSessionIntegrityError_def split: if_splits option.splits)

lemma refused_is_AuthError:
  "isCredentialRefusedError e \<Longrightarrow> \<exists>msg. as_AuthError e = Some (''invalid_grant'', msg)"
  by (auto simp: isCredentialRefusedError_def credentialRefusedCode_def
      split: if_splits option.splits)

lemma wrap_keeps_integrity [simp]:
  "isSessionIntegrityError (Errorf [Txt s, Wrapped e]) = isSessionIntegrityError e"
  by (simp add: isSessionIntegrityError_def)

lemma wrap_keeps_refused [simp]:
  "isCredentialRefusedError (Errorf [Txt s, Wrapped e]) = isCredentialRefusedError e"
  by (simp add: isCredentialRefusedError_def split: option.split)

lemma wrap_keeps_permanent [simp]:
  "IsPermanentError (Errorf [Txt s, Wrapped e]) = IsPermanentError e"
  by (simp add: IsPermanentError_def split: option.split)

lemma AuthError_refused_iff [simp]:
  "isCredentialRefusedError (AuthError code msg) \<longleftrightarrow> code = ''invalid_grant''"
  by (simp add: isCredentialRefusedError_def isSessionIntegrityError_def credentialRefusedCode_def)

lemma AuthError_permanent_iff [simp]:
  "IsPermanentError (AuthError code msg) \<longleftrightarrow>
     code \<in> {''invalid_grant'', ''invalid_client'', ''unauthorized_client''}"
  by (simp add: IsPermanentError_def permanentErrorCodes_def)

lemma blocked_not_integrity [simp]:
  "\<not> isSessionIntegrityError errRefreshPermanentlyBlocked"
  "IsPermanentError errRefreshPermanentlyBlocked"
  "\<not> isCredentialRefusedError errRefreshPermanentlyBlocked"
  by (simp_all add: isSessionIntegrityError_def IsPermanentError_def isCredentialRefusedError_def)

end
