(* ===== verification/Token_State.thy ===== *)
theory Token_State
  imports Go_Errors
begin

text \<open>
  The data every part of the client shares: \<open>TokenState\<close> and \<open>AuthStatusResult\<close>
  (\<open>state.go\<close>), the library configuration record (\<open>config.go\<close>), and the
  \<open>TokenPersistence\<close> interface (\<open>interfaces.go\<close>) as a record of operations with its
  documented contract as a locale, implemented here by the default in-memory store
  (\<open>client.go\<close>).
\<close>

section \<open>Token state\<close>

record token_state =
  AccessToken :: string
  RefreshToken :: string
  IDToken :: string
  ExpiresAt :: gotime
  LastAuthAt :: gotime

definition zeroTokenState :: token_state where
  "zeroTokenState =
     \<lparr>AccessToken = '''', RefreshToken = '''', IDToken = '''',
      ExpiresAt = zeroTime, LastAuthAt = zeroTime\<rparr>"

definition TokenState_IsZero :: "token_state \<Rightarrow> bool" where
  "TokenState_IsZero ts \<longleftrightarrow> AccessToken ts = '''' \<and> RefreshToken ts = '''' \<and> IDToken ts = ''''"

lemma zeroTokenState_simps [simp]:
  "AccessToken zeroTokenState = ''''"
  "RefreshToken zeroTokenState = ''''"
  "IDToken zeroTokenState = ''''"
  "ExpiresAt zeroTokenState = zeroTime"
  "LastAuthAt zeroTokenState = zeroTime"
  "TokenState_IsZero zeroTokenState"
  by (simp_all add: zeroTokenState_def TokenState_IsZero_def)

record auth_status_result =
  Valid :: bool
  GraceMode :: bool
  GraceDaysLeft :: int
  CanUseApp :: bool

definition zeroAuthStatus :: auth_status_result where
  "zeroAuthStatus = \<lparr>Valid = False, GraceMode = False, GraceDaysLeft = 0, CanUseApp = False\<rparr>"

text \<open>
  Two states with the same tokens and instants. A store that serializes keeps this much of
  a state: the in-memory representation of its times is not part of the stored form.
\<close>

definition sameTokenState :: "token_state \<Rightarrow> token_state \<Rightarrow> bool" where
  "sameTokenState a b \<longleftrightarrow>
     AccessToken a = AccessToken b \<and> RefreshToken a = RefreshToken b \<and> IDToken a = IDToken b \<and>
     t_ns (ExpiresAt a) = t_ns (ExpiresAt b) \<and> t_ns (LastAuthAt a) = t_ns (LastAuthAt b)"

lemma sameTokenState_refl [simp]: "sameTokenState a a"
  by (simp add: sameTokenState_def)

lemma sameTokenState_IsZero: "sameTokenState a b \<Longrightarrow> TokenState_IsZero a = TokenState_IsZero b"
  by (simp add: sameTokenState_def TokenState_IsZero_def)

section \<open>Configuration record\<close>

record config =
  IssuerURL :: string
  ClientID :: string
  Scopes :: "string list"
  GracePeriod :: duration
  LoginTimeout :: duration
  LogoutTimeout :: duration
  ExtraAuthParams :: "(string \<times> string) list"
  ExtraTokenParams :: "(string \<times> string) list"

section \<open>The TokenPersistence interface\<close>

text \<open>
  The three operations over a backend state \<^typ>\<open>'s\<close>. \<open>Save\<close> and \<open>Delete\<close> return an
  optional error and the next backend state, \<open>Load\<close> an error or a token state.
\<close>

record 's token_persistence =
  Save :: "token_state \<Rightarrow> 's \<Rightarrow> goerror option \<times> 's"
  Load :: "'s \<Rightarrow> goerror + token_state"
  Delete :: "'s \<Rightarrow> goerror option \<times> 's"

text \<open>
  The documented contract, over the backend states the implementation considers well
  formed and the token states its stored form can represent: after a \<open>Save\<close> that returned nil, a \<open>Load\<close> that succeeds returns that state; after
  a \<open>Delete\<close> that returned nil, a \<open>Load\<close> that succeeds returns the zero state; every
  operation keeps the backend well formed. A \<open>Save\<close> that returned an error promises
  nothing about the stored state.
\<close>

locale persistence_contract =
  fixes ops :: "'s token_persistence"
    and wfs :: "'s \<Rightarrow> bool"
    and storable :: "token_state \<Rightarrow> bool"
  assumes save_load:
      "\<lbrakk>wfs s; storable ts; Save ops ts s = (None, s'); Load ops s' = Inr ts'\<rbrakk> \<Longrightarrow> sameTokenState ts ts'"
    and delete_load:
      "\<lbrakk>wfs s; Delete ops s = (None, s'); Load ops s' = Inr ts'\<rbrakk> \<Longrightarrow> TokenState_IsZero ts'"
    and save_wf: "wfs s \<Longrightarrow> wfs (snd (Save ops ts s))"
    and delete_wf: "wfs s \<Longrightarrow> wfs (snd (Delete ops s))"

section \<open>The default in-memory store\<close>

definition memoryStore_Save :: "token_state \<Rightarrow> token_state \<Rightarrow> goerror option \<times> token_state" where
  "memoryStore_Save st s = (None, st)"

definition memoryStore_Load :: "token_state \<Rightarrow> goerror + token_state" where
  "memoryStore_Load s = Inr s"

definition memoryStore_Delete :: "token_state \<Rightarrow> goerror option \<times> token_state" where
  "memoryStore_Delete s = (None, zeroTokenState)"

definition memoryStore :: "token_state token_persistence" where
  "memoryStore = \<lparr>Save = memoryStore_Save, Load = memoryStore_Load, Delete = memoryStore_Delete\<rparr>"

lemma memoryStore_simps [simp]:
  "Save memoryStore st s = (None, st)"
  "Load memoryStore s = Inr s"
  "Delete memoryStore s = (None, zeroTokenState)"
  by (simp_all add: memoryStore_def memoryStore_Save_def memoryStore_Load_def
      memoryStore_Delete_def)

interpretation memory: persistence_contract memoryStore "\<lambda>_. True" "\<lambda>_. True"
  by unfold_locales auto

end
