(* ===== verification/Client_State.thy ===== *)
theory Client_State
  imports Token_State
begin

text \<open>
  The \<open>Client\<close> struct (\<open>client.go\<close>) with the records it holds (the refresh schedule of
  \<open>pkceflow.go\<close>, the persistence retry of \<open>persistence.go\<close>, the operations of
  \<open>lifecycle.go\<close> and \<open>client.go\<close>, the attempt of \<open>refresh.go\<close>), the token-state
  transitions, the close-and-replace wake channel, and the event queue of \<open>events.go\<close>.

  Pointers are natural numbers into heaps that are fields of the record, so that a holder
  of an operation, an attempt or a loop handle sees what others do to it. A context is
  modelled by its \<open>Err\<close> value: the caller's part is a field of the operation, and
  cancelling the derived context sets a flag. A channel of the wake broadcast is a number;
  a channel other than the current one has been closed.
\<close>

section \<open>Records of the client\<close>

datatype refreshLoopDisposition =
    refreshLoopActive
  | refreshLoopBlockedExpired
  | refreshLoopBlockedPermanent
  | refreshLoopBlockedIntegrity

record refreshLoopSchedule =
  sc_valid :: bool
  sc_revision :: uint64
  nextStage :: uint64
  retryNotBefore :: gotime
  sc_claimID :: uint64
  disposition :: refreshLoopDisposition
  eventAt :: gotime
  eventEmitted :: bool
  inconclusive :: bool

definition zeroSchedule :: refreshLoopSchedule where
  "zeroSchedule =
     \<lparr>sc_valid = False, sc_revision = 0, nextStage = 0, retryNotBefore = zeroTime, sc_claimID = 0,
      disposition = refreshLoopActive, eventAt = zeroTime, eventEmitted = False,
      inconclusive = False\<rparr>"

record persistenceRetryState =
  pr_valid :: bool
  pr_revision :: uint64
  failures :: uint64
  retryAt :: gotime
  pr_claimID :: uint64

definition zeroPersistenceRetry :: persistenceRetryState where
  "zeroPersistenceRetry =
     \<lparr>pr_valid = False, pr_revision = 0, failures = 0, retryAt = zeroTime, pr_claimID = 0\<rparr>"

lemma zero_records_simps [simp]:
  "sc_valid zeroSchedule = False" "sc_claimID zeroSchedule = 0"
  "disposition zeroSchedule = refreshLoopActive" "inconclusive zeroSchedule = False"
  "eventEmitted zeroSchedule = False"
  "pr_valid zeroPersistenceRetry = False" "pr_claimID zeroPersistenceRetry = 0"
  by (simp_all add: zeroSchedule_def zeroPersistenceRetry_def)

datatype lifecycleOperationKind = lifecycleLogin | lifecycleLogout | initKind

text \<open>
  \<open>lifecycleOperation\<close> and \<open>initOperation\<close>: the id, the \<open>Err\<close> of the caller's context
  (\<open>parent\<close>) and whether the derived context was cancelled.
\<close>

record operation =
  op_id :: uint64
  op_kind :: lifecycleOperationKind
  op_parentErr :: "ctx_err option"
  op_cancelled :: bool

text \<open>\<open>operation.ctx.Err()\<close>: the derived context ends with its parent or by its own cancel.\<close>

definition op_ctxErr :: "operation \<Rightarrow> ctx_err option" where
  "op_ctxErr op =
     (case op_parentErr op of
        Some e \<Rightarrow> Some e
      | None \<Rightarrow> if op_cancelled op then Some Canceled else None)"

record refreshAttemptRec =
  at_revision :: uint64
  at_snapshot :: token_state
  at_cancelled :: bool
  participants :: int
  at_done :: bool
  at_complete :: bool
  at_state :: token_state
  at_err :: "goerror option"

record refreshLoopHandle =
  h_parentErr :: "ctx_err option"
  h_cancelled :: bool
  h_done :: bool

definition h_ctxErr :: "refreshLoopHandle \<Rightarrow> ctx_err option" where
  "h_ctxErr h =
     (case h_parentErr h of
        Some e \<Rightarrow> Some e
      | None \<Rightarrow> if h_cancelled h then Some Canceled else None)"

text \<open>Discovery results: the provider and verifier are foreign objects, known by identity.\<close>

datatype authStyle = AuthStyleAutoDetect | AuthStyleInParams | AuthStyleInHeader

record oauth2_config =
  oc_ClientID :: string
  oc_AuthURL :: string
  oc_TokenURL :: string
  oc_AuthStyle :: authStyle
  oc_RedirectURL :: string
  oc_Scopes :: "string list"

record clientEvent =
  ev_name :: string
  ev_data :: "string option"

record 's client =
  config :: config
  store :: 's
  state :: token_state
  stateRevision :: uint64
  provider :: "nat option"
  verifier :: "nat option"
  oauth2 :: "oauth2_config option"
  endSessionEndpoint :: string
  revocationEndpoint :: string
  refreshRun :: "nat option"
  refreshAttempt :: "nat option"
  refreshWake :: "nat option"
  refreshSchedule :: refreshLoopSchedule
  refreshClaimSeq :: uint64
  persistenceRetry :: persistenceRetryState
  persistenceClaimSeq :: uint64
  restoreBlocked :: bool
  initSeq :: uint64
  initOperation :: "nat option"
  lifecycleSeq :: uint64
  lifecycleOperation :: "nat option"
  lifecycleFlow :: "nat option"
  pendingEvents :: "clientEvent list"
  eventDispatching :: bool
  emitted :: "clientEvent list"
  operations :: "nat \<Rightarrow> operation option"
  attempts :: "nat \<Rightarrow> refreshAttemptRec option"
  handles :: "nat \<Rightarrow> refreshLoopHandle option"
  nextPtr :: nat
  wakeSeq :: nat

text \<open>
  \<open>New\<close> after its checks: every field has Go's zero value but for the configuration and the
  backend. The last six fields are the model's: the trace of \<open>Emit\<close> calls, the heaps, and
  the allocators of pointers and channels.
\<close>

definition newClient :: "config \<Rightarrow> 's \<Rightarrow> 's client" where
  "newClient cfg st =
     \<lparr>config = cfg, store = st, state = zeroTokenState, stateRevision = 0,
      provider = None, verifier = None, oauth2 = None,
      endSessionEndpoint = '''', revocationEndpoint = '''',
      refreshRun = None, refreshAttempt = None, refreshWake = None,
      refreshSchedule = zeroSchedule, refreshClaimSeq = 0,
      persistenceRetry = zeroPersistenceRetry, persistenceClaimSeq = 0,
      restoreBlocked = False, initSeq = 0, initOperation = None,
      lifecycleSeq = 0, lifecycleOperation = None, lifecycleFlow = None,
      pendingEvents = [], eventDispatching = False, emitted = [],
      operations = (\<lambda>_. None), attempts = (\<lambda>_. None), handles = (\<lambda>_. None),
      nextPtr = 0, wakeSeq = 0\<rparr>"

section \<open>The wake broadcast\<close>

text \<open>
  \<open>signalRefreshLoopLocked\<close> closes the current channel and installs a fresh one;
  \<open>refreshWakeLocked\<close> returns the current one, making it if there is none.
\<close>

definition signalRefreshLoopLocked :: "'s client \<Rightarrow> 's client" where
  "signalRefreshLoopLocked c = c\<lparr>refreshWake := Some (wakeSeq c), wakeSeq := wakeSeq c + 1\<rparr>"

definition refreshWakeLocked :: "'s client \<Rightarrow> nat \<times> 's client" where
  "refreshWakeLocked c =
     (case refreshWake c of
        None \<Rightarrow> (wakeSeq c, c\<lparr>refreshWake := Some (wakeSeq c), wakeSeq := wakeSeq c + 1\<rparr>)
      | Some w \<Rightarrow> (w, c))"

text \<open>A receive on channel \<open>w\<close> returns at once iff the channel has been closed.\<close>

definition wakeClosed :: "nat \<Rightarrow> 's client \<Rightarrow> bool" where
  "wakeClosed w c \<longleftrightarrow> refreshWake c \<noteq> Some w"

definition wake_wf :: "'s client \<Rightarrow> bool" where
  "wake_wf c \<longleftrightarrow> (\<forall>w. refreshWake c = Some w \<longrightarrow> w < wakeSeq c)"

section \<open>Token-state transitions\<close>

definition advanceStateLocked :: "token_state \<Rightarrow> 's client \<Rightarrow> 's client" where
  "advanceStateLocked st c =
     signalRefreshLoopLocked
       (c\<lparr>state := st, stateRevision := stateRevision c + 1, refreshSchedule := zeroSchedule,
          persistenceRetry := zeroPersistenceRetry, restoreBlocked := False\<rparr>)"

definition setStateLocked :: "token_state \<Rightarrow> 's client \<Rightarrow> 's client" where
  "setStateLocked st c = (if state c = st then c else advanceStateLocked st c)"

definition refreshIntegrityBlockedLocked :: "'s client \<Rightarrow> bool" where
  "refreshIntegrityBlockedLocked c \<longleftrightarrow>
     sc_valid (refreshSchedule c) \<and> sc_revision (refreshSchedule c) = stateRevision c \<and>
     disposition (refreshSchedule c) = refreshLoopBlockedIntegrity"

definition refreshPermanentlyBlockedLocked :: "'s client \<Rightarrow> bool" where
  "refreshPermanentlyBlockedLocked c \<longleftrightarrow>
     sc_valid (refreshSchedule c) \<and> sc_revision (refreshSchedule c) = stateRevision c \<and>
     disposition (refreshSchedule c) = refreshLoopBlockedPermanent"

definition freshSchedule :: "uint64 \<Rightarrow> refreshLoopSchedule" where
  "freshSchedule rv =
     zeroSchedule\<lparr>sc_valid := True, sc_revision := rv, nextStage := 1,
                  disposition := refreshLoopActive\<rparr>"

definition refreshScheduleLocked :: "uint64 \<Rightarrow> 's client \<Rightarrow> 's client" where
  "refreshScheduleLocked rv c =
     (if \<not> sc_valid (refreshSchedule c) \<or> sc_revision (refreshSchedule c) \<noteq> rv
      then c\<lparr>refreshSchedule := freshSchedule rv\<rparr> else c)"

lemmas [state_ops] = advanceStateLocked_def setStateLocked_def
lemmas [sched_simps] =
  refreshScheduleLocked_def freshSchedule_def zeroSchedule_def

section \<open>Event queue\<close>

text \<open>
  \<open>enqueueEvent\<close> appends and tells its caller whether it became the drainer.
  \<open>drainEvents\<close> delivers until the queue is empty; \<open>popEvent\<close> is one locked section of its
  loop, \<open>emit\<close> the call of the emitter that follows it without a lock.
\<close>

definition EventLoggedIn :: string where "EventLoggedIn = ''oidcauth:logged-in''"
definition EventLoggedOut :: string where "EventLoggedOut = ''oidcauth:logged-out''"
definition EventTokenRefreshed :: string where
  "EventTokenRefreshed = ''oidcauth:token-refreshed''"
definition EventSessionExpired :: string where
  "EventSessionExpired = ''oidcauth:session-expired''"
definition EventInitFailed :: string where "EventInitFailed = ''oidcauth:init-failed''"

definition nilEvent :: "string \<Rightarrow> clientEvent" where
  "nilEvent name = \<lparr>ev_name = name, ev_data = None\<rparr>"

definition enqueueEvent :: "clientEvent \<Rightarrow> 's client \<Rightarrow> bool \<times> 's client" where
  "enqueueEvent ev c =
     (let c = c\<lparr>pendingEvents := pendingEvents c @ [ev]\<rparr>
      in if eventDispatching c then (False, c) else (True, c\<lparr>eventDispatching := True\<rparr>))"

definition popEvent :: "'s client \<Rightarrow> clientEvent option \<times> 's client" where
  "popEvent c =
     (case pendingEvents c of
        [] \<Rightarrow> (None, c\<lparr>eventDispatching := False\<rparr>)
      | ev # evs \<Rightarrow> (Some ev, c\<lparr>pendingEvents := evs\<rparr>))"

definition emit :: "clientEvent \<Rightarrow> 's client \<Rightarrow> 's client" where
  "emit ev c = c\<lparr>emitted := emitted c @ [ev]\<rparr>"

function drainEvents :: "'s client \<Rightarrow> 's client" where
  "drainEvents c =
     (case popEvent c of
        (None, c') \<Rightarrow> c'
      | (Some ev, c') \<Rightarrow> drainEvents (emit ev c'))"
  by pat_completeness auto
termination
  by (relation "measure (\<lambda>c. length (pendingEvents c))")
    (auto simp: popEvent_def emit_def split: list.splits)

declare drainEvents.simps [simp del]

text \<open>Commit an event and, as its producer does after releasing its locks, drain if told to.\<close>

definition drainIf :: "bool \<Rightarrow> 's client \<Rightarrow> 's client" where
  "drainIf shouldDrain c = (if shouldDrain then drainEvents c else c)"

definition emitEventIfRevision :: "uint64 \<Rightarrow> string \<Rightarrow> 's client \<Rightarrow> bool \<times> 's client" where
  "emitEventIfRevision rv name c =
     (let current = (stateRevision c = rv)
      in if current
         then (let (shouldDrain, c) = enqueueEvent (nilEvent name) c
               in (True, drainIf shouldDrain c))
         else (False, c))"

section \<open>Frame lemmas\<close>

lemma signal_frame [wake_simps, simp]:
  "config (signalRefreshLoopLocked c) = config c"
  "store (signalRefreshLoopLocked c) = store c"
  "state (signalRefreshLoopLocked c) = state c"
  "stateRevision (signalRefreshLoopLocked c) = stateRevision c"
  "oauth2 (signalRefreshLoopLocked c) = oauth2 c"
  "verifier (signalRefreshLoopLocked c) = verifier c"
  "provider (signalRefreshLoopLocked c) = provider c"
  "refreshSchedule (signalRefreshLoopLocked c) = refreshSchedule c"
  "refreshClaimSeq (signalRefreshLoopLocked c) = refreshClaimSeq c"
  "refreshAttempt (signalRefreshLoopLocked c) = refreshAttempt c"
  "persistenceRetry (signalRefreshLoopLocked c) = persistenceRetry c"
  "persistenceClaimSeq (signalRefreshLoopLocked c) = persistenceClaimSeq c"
  "restoreBlocked (signalRefreshLoopLocked c) = restoreBlocked c"
  "pendingEvents (signalRefreshLoopLocked c) = pendingEvents c"
  "eventDispatching (signalRefreshLoopLocked c) = eventDispatching c"
  "emitted (signalRefreshLoopLocked c) = emitted c"
  "operations (signalRefreshLoopLocked c) = operations c"
  "attempts (signalRefreshLoopLocked c) = attempts c"
  "handles (signalRefreshLoopLocked c) = handles c"
  "initOperation (signalRefreshLoopLocked c) = initOperation c"
  "lifecycleOperation (signalRefreshLoopLocked c) = lifecycleOperation c"
  "lifecycleSeq (signalRefreshLoopLocked c) = lifecycleSeq c"
  "lifecycleFlow (signalRefreshLoopLocked c) = lifecycleFlow c"
  "endSessionEndpoint (signalRefreshLoopLocked c) = endSessionEndpoint c"
  "revocationEndpoint (signalRefreshLoopLocked c) = revocationEndpoint c"
  "refreshRun (signalRefreshLoopLocked c) = refreshRun c"
  "nextPtr (signalRefreshLoopLocked c) = nextPtr c"
  by (simp_all add: signalRefreshLoopLocked_def)

lemma refreshWakeLocked_frame [wake_simps, simp]:
  "state (snd (refreshWakeLocked c)) = state c"
  "stateRevision (snd (refreshWakeLocked c)) = stateRevision c"
  "config (snd (refreshWakeLocked c)) = config c"
  "store (snd (refreshWakeLocked c)) = store c"
  "oauth2 (snd (refreshWakeLocked c)) = oauth2 c"
  "verifier (snd (refreshWakeLocked c)) = verifier c"
  "refreshSchedule (snd (refreshWakeLocked c)) = refreshSchedule c"
  "refreshClaimSeq (snd (refreshWakeLocked c)) = refreshClaimSeq c"
  "persistenceRetry (snd (refreshWakeLocked c)) = persistenceRetry c"
  "persistenceClaimSeq (snd (refreshWakeLocked c)) = persistenceClaimSeq c"
  "restoreBlocked (snd (refreshWakeLocked c)) = restoreBlocked c"
  "pendingEvents (snd (refreshWakeLocked c)) = pendingEvents c"
  "eventDispatching (snd (refreshWakeLocked c)) = eventDispatching c"
  "emitted (snd (refreshWakeLocked c)) = emitted c"
  "operations (snd (refreshWakeLocked c)) = operations c"
  "attempts (snd (refreshWakeLocked c)) = attempts c"
  "lifecycleOperation (snd (refreshWakeLocked c)) = lifecycleOperation c"
  "refreshWake (snd (refreshWakeLocked c)) = Some (fst (refreshWakeLocked c))"
  by (simp_all add: refreshWakeLocked_def split: option.split)

lemma advance_simps [simp]:
  "state (advanceStateLocked st c) = st"
  "stateRevision (advanceStateLocked st c) = stateRevision c + 1"
  "refreshSchedule (advanceStateLocked st c) = zeroSchedule"
  "persistenceRetry (advanceStateLocked st c) = zeroPersistenceRetry"
  "restoreBlocked (advanceStateLocked st c) = False"
  "config (advanceStateLocked st c) = config c"
  "store (advanceStateLocked st c) = store c"
  "oauth2 (advanceStateLocked st c) = oauth2 c"
  "verifier (advanceStateLocked st c) = verifier c"
  "provider (advanceStateLocked st c) = provider c"
  "pendingEvents (advanceStateLocked st c) = pendingEvents c"
  "eventDispatching (advanceStateLocked st c) = eventDispatching c"
  "emitted (advanceStateLocked st c) = emitted c"
  "operations (advanceStateLocked st c) = operations c"
  "attempts (advanceStateLocked st c) = attempts c"
  "lifecycleOperation (advanceStateLocked st c) = lifecycleOperation c"
  "refreshClaimSeq (advanceStateLocked st c) = refreshClaimSeq c"
  "persistenceClaimSeq (advanceStateLocked st c) = persistenceClaimSeq c"
  "refreshAttempt (advanceStateLocked st c) = refreshAttempt c"
  "endSessionEndpoint (advanceStateLocked st c) = endSessionEndpoint c"
  "revocationEndpoint (advanceStateLocked st c) = revocationEndpoint c"
  by (simp_all add: advanceStateLocked_def)

lemma schedule_frame [simp]:
  "state (refreshScheduleLocked rv c) = state c"
  "stateRevision (refreshScheduleLocked rv c) = stateRevision c"
  "config (refreshScheduleLocked rv c) = config c"
  "store (refreshScheduleLocked rv c) = store c"
  "oauth2 (refreshScheduleLocked rv c) = oauth2 c"
  "verifier (refreshScheduleLocked rv c) = verifier c"
  "refreshWake (refreshScheduleLocked rv c) = refreshWake c"
  "wakeSeq (refreshScheduleLocked rv c) = wakeSeq c"
  "refreshClaimSeq (refreshScheduleLocked rv c) = refreshClaimSeq c"
  "persistenceRetry (refreshScheduleLocked rv c) = persistenceRetry c"
  "pendingEvents (refreshScheduleLocked rv c) = pendingEvents c"
  "eventDispatching (refreshScheduleLocked rv c) = eventDispatching c"
  "emitted (refreshScheduleLocked rv c) = emitted c"
  "operations (refreshScheduleLocked rv c) = operations c"
  "attempts (refreshScheduleLocked rv c) = attempts c"
  "lifecycleOperation (refreshScheduleLocked rv c) = lifecycleOperation c"
  "restoreBlocked (refreshScheduleLocked rv c) = restoreBlocked c"
  "sc_valid (refreshSchedule (refreshScheduleLocked rv c))"
  "sc_revision (refreshSchedule (refreshScheduleLocked rv c)) = rv"
  by (simp_all add: refreshScheduleLocked_def freshSchedule_def)

lemma advance_not_blocked [simp]:
  "\<not> refreshIntegrityBlockedLocked (advanceStateLocked st c)"
  "\<not> refreshPermanentlyBlockedLocked (advanceStateLocked st c)"
  by (simp_all add: refreshIntegrityBlockedLocked_def refreshPermanentlyBlockedLocked_def)

section \<open>Wake and queue lemmas\<close>

lemma wake_wf_new [simp]: "wake_wf (newClient cfg st)"
  by (simp add: wake_wf_def newClient_def)

lemma wake_wf_signal [simp]: "wake_wf (signalRefreshLoopLocked c)"
  by (simp add: wake_wf_def signalRefreshLoopLocked_def)

lemma wake_wf_advance [simp]: "wake_wf (advanceStateLocked st c)"
  by (simp add: advanceStateLocked_def)

lemma signal_closes:
  assumes "wake_wf c" and "refreshWake c = Some w"
  shows "wakeClosed w (signalRefreshLoopLocked c)"
  using assms by (simp add: wakeClosed_def signalRefreshLoopLocked_def wake_wf_def)

lemma refreshWakeLocked_open [simp]: "\<not> wakeClosed (fst (refreshWakeLocked c)) (snd (refreshWakeLocked c))"
  by (simp add: wakeClosed_def)

lemma popEvent_None_iff: "fst (popEvent c) = None \<longleftrightarrow> pendingEvents c = []"
  by (simp add: popEvent_def split: list.split)

text \<open>The events handed over so far, delivered first and queued after.\<close>

definition eventHistory :: "'s client \<Rightarrow> clientEvent list" where
  "eventHistory c = emitted c @ pendingEvents c"

lemma eventHistory_enqueue [simp]:
  "eventHistory (snd (enqueueEvent ev c)) = eventHistory c @ [ev]"
  by (simp add: eventHistory_def enqueueEvent_def Let_def)

lemma drainEvents_eq:
  "drainEvents c =
     c\<lparr>pendingEvents := [], emitted := emitted c @ pendingEvents c, eventDispatching := False\<rparr>"
proof (induction c rule: drainEvents.induct)
  case (1 c)
  show ?case
  proof (cases "pendingEvents c")
    case Nil
    then show ?thesis by (simp add: drainEvents.simps [of c] popEvent_def)
  next
    case (Cons ev evs)
    then have "popEvent c = (Some ev, c\<lparr>pendingEvents := evs\<rparr>)"
      by (simp add: popEvent_def)
    with "1" [OF this [symmetric]] Cons show ?thesis
      by (simp add: drainEvents.simps [of c] emit_def)
  qed
qed

lemma enqueue_frame [simp]:
  "state (snd (enqueueEvent ev c)) = state c"
  "stateRevision (snd (enqueueEvent ev c)) = stateRevision c"
  "store (snd (enqueueEvent ev c)) = store c"
  "config (snd (enqueueEvent ev c)) = config c"
  "refreshSchedule (snd (enqueueEvent ev c)) = refreshSchedule c"
  "persistenceRetry (snd (enqueueEvent ev c)) = persistenceRetry c"
  "restoreBlocked (snd (enqueueEvent ev c)) = restoreBlocked c"
  "attempts (snd (enqueueEvent ev c)) = attempts c"
  "refreshAttempt (snd (enqueueEvent ev c)) = refreshAttempt c"
  "operations (snd (enqueueEvent ev c)) = operations c"
  "lifecycleOperation (snd (enqueueEvent ev c)) = lifecycleOperation c"
  "initOperation (snd (enqueueEvent ev c)) = initOperation c"
  "oauth2 (snd (enqueueEvent ev c)) = oauth2 c"
  "verifier (snd (enqueueEvent ev c)) = verifier c"
  "provider (snd (enqueueEvent ev c)) = provider c"
  by (simp_all add: enqueueEvent_def Let_def)

lemma drainIf_frame [simp]:
  "state (drainIf b c) = state c"
  "stateRevision (drainIf b c) = stateRevision c"
  "store (drainIf b c) = store c"
  "config (drainIf b c) = config c"
  "refreshSchedule (drainIf b c) = refreshSchedule c"
  "persistenceRetry (drainIf b c) = persistenceRetry c"
  "restoreBlocked (drainIf b c) = restoreBlocked c"
  "attempts (drainIf b c) = attempts c"
  "refreshAttempt (drainIf b c) = refreshAttempt c"
  "operations (drainIf b c) = operations c"
  "lifecycleOperation (drainIf b c) = lifecycleOperation c"
  "initOperation (drainIf b c) = initOperation c"
  "oauth2 (drainIf b c) = oauth2 c"
  "verifier (drainIf b c) = verifier c"
  "provider (drainIf b c) = provider c"
  "eventHistory (drainIf b c) = eventHistory c"
  by (simp_all add: drainIf_def drainEvents_eq eventHistory_def)

lemma eventHistory_updates [simp]:
  "eventHistory (c\<lparr>refreshAttempt := ra\<rparr>) = eventHistory c"
  "eventHistory (c\<lparr>store := s\<rparr>) = eventHistory c"
  "eventHistory (c\<lparr>operations := ps\<rparr>) = eventHistory c"
  "eventHistory (c\<lparr>attempts := as\<rparr>) = eventHistory c"
  "eventHistory (c\<lparr>persistenceRetry := pr\<rparr>) = eventHistory c"
  "eventHistory (c\<lparr>refreshSchedule := sch\<rparr>) = eventHistory c"
  "eventHistory (c\<lparr>restoreBlocked := b\<rparr>) = eventHistory c"
  "eventHistory (c\<lparr>provider := pv\<rparr>) = eventHistory c"
  "eventHistory (c\<lparr>verifier := vf\<rparr>) = eventHistory c"
  "eventHistory (c\<lparr>oauth2 := oc\<rparr>) = eventHistory c"
  "eventHistory (c\<lparr>endSessionEndpoint := ep\<rparr>) = eventHistory c"
  "eventHistory (c\<lparr>revocationEndpoint := ep\<rparr>) = eventHistory c"
  "eventHistory (signalRefreshLoopLocked c) = eventHistory c"
  "eventHistory (advanceStateLocked st c) = eventHistory c"
  by (simp_all add: eventHistory_def)

end
