(* ===== verification/Sample_Client.thy ===== *)
theory Sample_Client
  imports Client_State
begin

text \<open>
  A concrete client the closed instances of the development evaluate on: an initialized
  client over the in-memory store, holding a token generation obtained at second 1000 that
  expires at second 2000, with a grace period of 10000 seconds.
\<close>

definition atSec :: "int \<Rightarrow> gotime" where
  "atSec s = \<lparr>t_ns = s * second, t_rep = 0\<rparr>"

definition sampleConfig :: config where
  "sampleConfig =
     \<lparr>IssuerURL = ''https://idp.example'', ClientID = ''app'', Scopes = [''openid''],
      GracePeriod = 10000 * second, LoginTimeout = 120 * second, LogoutTimeout = 30 * second,
      ExtraAuthParams = [], ExtraTokenParams = []\<rparr>"

definition sampleState :: token_state where
  "sampleState =
     \<lparr>AccessToken = ''at1'', RefreshToken = ''rt1'', IDToken = ''h.cA.s'',
      ExpiresAt = atSec 2000, LastAuthAt = atSec 1000\<rparr>"

definition sampleOAuth2 :: oauth2_config where
  "sampleOAuth2 =
     \<lparr>oc_ClientID = ''app'', oc_AuthURL = ''https://idp.example/authorize'',
      oc_TokenURL = ''https://idp.example/token'', oc_AuthStyle = AuthStyleInParams,
      oc_RedirectURL = ''http://127.0.0.1:15051/callback'', oc_Scopes = [''openid'']\<rparr>"

definition sampleClient :: "token_state client" where
  "sampleClient =
     (newClient sampleConfig sampleState)
       \<lparr>state := sampleState, stateRevision := 7, provider := Some 0, verifier := Some 0,
        oauth2 := Some sampleOAuth2, endSessionEndpoint := ''https://idp.example/logout'',
        revocationEndpoint := ''https://idp.example/revoke''\<rparr>"

lemma t_ns_at [simp]: "t_ns (atSec s) = s * second" "t_rep (atSec s) = 0"
  by (simp_all add: atSec_def)

lemmas sample_defs =
  sampleConfig_def sampleState_def sampleOAuth2_def sampleClient_def newClient_def second_def

end
