(* ===== verification/Refresh_Loop.thy ===== *)
theory Refresh_Loop
  imports Sample_Client
begin

text \<open>
  The background refresh supervisor (\<open>pkceflow.go\<close>): loop handles, the scheduling decision
  \<open>nextRefreshLoopAction\<close>, the halving thresholds of \<open>refreshStageTime\<close>, what an attempt's
  outcome does to the schedule, and the fail-closed blocks an on-demand refresh can place.
\<close>

section \<open>Loop handles\<close>

definition minRefreshInterval :: duration where "minRefreshInterval = 10 * second"

text \<open>The locked part of \<open>startRefreshLoop\<close>: a new handle replaces and cancels the old one.\<close>

definition cancelHandle :: "nat option \<Rightarrow> 's client \<Rightarrow> 's client" where
  "cancelHandle p c =
     (case p of
        None \<Rightarrow> c
      | Some h \<Rightarrow> c\<lparr>handles := (handles c)(h := map_option (h_cancelled_update (\<lambda>_. True)) (handles c h))\<rparr>)"

definition startRefreshLoop :: "ctx_err option \<Rightarrow> 's client \<Rightarrow> nat \<times> 's client" where
  "startRefreshLoop parentErr c =
     (let h = nextPtr c;
          previous = refreshRun c;
          c = c\<lparr>handles := (handles c)(h \<mapsto> \<lparr>h_parentErr = parentErr, h_cancelled = False, h_done = False\<rparr>),
                nextPtr := h + 1, refreshRun := Some h\<rparr>
      in (h, cancelHandle previous c))"

text \<open>The deferred function of the loop goroutine.\<close>

definition finishRefreshRun :: "nat \<Rightarrow> 's client \<Rightarrow> 's client" where
  "finishRefreshRun h c =
     (let c = (if refreshRun c = Some h then c\<lparr>refreshRun := None\<rparr> else c)
      in c\<lparr>handles := (handles c)(h := map_option (h_done_update (\<lambda>_. True)) (handles c h))\<rparr>)"

definition StopRefreshLoop :: "'s client \<Rightarrow> 's client" where
  "StopRefreshLoop c = cancelHandle (refreshRun c) c"

section \<open>Actions and results\<close>

datatype refreshLoopActionKind = refreshLoopWait | refreshLoopAttempt | refreshLoopEmitSessionExpired

record refreshLoopAction =
  a_kind :: refreshLoopActionKind
  a_revision :: uint64
  a_state :: "token_state option"
  a_stage :: uint64
  a_claimID :: uint64
  a_due :: gotime
  a_wake :: "nat option"

definition waitAction :: "gotime \<Rightarrow> nat \<Rightarrow> refreshLoopAction" where
  "waitAction due w =
     \<lparr>a_kind = refreshLoopWait, a_revision = 0, a_state = None, a_stage = 0, a_claimID = 0,
      a_due = due, a_wake = Some w\<rparr>"

definition emitAction :: "uint64 \<Rightarrow> refreshLoopAction" where
  "emitAction rv =
     \<lparr>a_kind = refreshLoopEmitSessionExpired, a_revision = rv, a_state = None, a_stage = 0,
      a_claimID = 0, a_due = zeroTime, a_wake = None\<rparr>"

datatype refreshLoopAttemptResult =
    refreshLoopAttemptSucceeded
  | refreshLoopAttemptTemporary
  | refreshLoopAttemptPermanent
  | refreshLoopAttemptIntegrity
  | refreshLoopAttemptCanceledBeforeStart
  | refreshLoopAttemptCanceledAfterStart
  | refreshLoopAttemptExpiredBeforeStart

section \<open>Thresholds\<close>

text \<open>The halving loop \<open>for range stage\<close>, leaving early when nothing remains.\<close>

fun halveRemaining :: "nat \<Rightarrow> duration \<Rightarrow> duration option" where
  "halveRemaining 0 remaining = Some remaining"
| "halveRemaining (Suc n) remaining =
     (let remaining = remaining div 2 in if remaining \<le> 0 then None else halveRemaining n remaining)"

definition refreshStageTime :: "token_state \<Rightarrow> uint64 \<Rightarrow> gotime \<times> bool" where
  "refreshStageTime st stage =
     (if stage = 0 \<or> time_isZero (ExpiresAt st) \<or> time_isZero (LastAuthAt st) then (zeroTime, False)
      else let lifetime = time_sub (ExpiresAt st) (LastAuthAt st)
           in if lifetime \<le> 0 then (zeroTime, False)
              else case halveRemaining (unat stage) lifetime of
                     None \<Rightarrow> (zeroTime, False)
                   | Some remaining \<Rightarrow>
                       (let due = time_add (ExpiresAt st) (- remaining)
                        in (due, time_before due (ExpiresAt st))))"

section \<open>The scheduling decision\<close>

text \<open>Park the generation and wait on the channel made by the broadcast.\<close>

definition parkExpired :: "'s client \<Rightarrow> refreshLoopAction \<times> 's client" where
  "parkExpired c =
     (let c = signalRefreshLoopLocked
                (c\<lparr>refreshSchedule := (refreshSchedule c)\<lparr>disposition := refreshLoopBlockedExpired\<rparr>\<rparr>);
          (w, c) = refreshWakeLocked c
      in (waitAction zeroTime w, c))"

text \<open>The arm for a permanently blocked or integrity-blocked generation.\<close>

definition blockedAction :: "gotime \<Rightarrow> nat \<Rightarrow> 's client \<Rightarrow> refreshLoopAction \<times> 's client" where
  "blockedAction now w c =
     (let schedule = refreshSchedule c
      in if eventEmitted schedule then (waitAction zeroTime w, c)
         else if time_before now (eventAt schedule) then (waitAction (eventAt schedule) w, c)
         else (emitAction (stateRevision c),
               signalRefreshLoopLocked (c\<lparr>refreshSchedule := schedule\<lparr>eventEmitted := True\<rparr>\<rparr>)))"

text \<open>Claim the current threshold.\<close>

definition claimAttempt :: "'s client \<Rightarrow> refreshLoopAction \<times> 's client" where
  "claimAttempt c =
     (let seq = nextNonZero (refreshClaimSeq c);
          schedule = refreshSchedule c
      in (\<lparr>a_kind = refreshLoopAttempt, a_revision = stateRevision c, a_state = Some (state c),
           a_stage = nextStage schedule, a_claimID = seq, a_due = zeroTime, a_wake = None\<rparr>,
          signalRefreshLoopLocked
            (c\<lparr>refreshClaimSeq := seq, refreshSchedule := schedule\<lparr>sc_claimID := seq\<rparr>\<rparr>)))"

definition dueTime :: "token_state \<Rightarrow> refreshLoopSchedule \<Rightarrow> gotime" where
  "dueTime st schedule =
     (let due = fst (refreshStageTime st (nextStage schedule))
      in if time_after (retryNotBefore schedule) due then retryNotBefore schedule else due)"

definition nextRefreshLoopAction :: "gotime \<Rightarrow> 's client \<Rightarrow> refreshLoopAction \<times> 's client" where
  "nextRefreshLoopAction now c =
     (let (w, c) = refreshWakeLocked c;
          st = state c;
          c = refreshScheduleLocked (stateRevision c) c;
          schedule = refreshSchedule c
      in if sc_claimID schedule \<noteq> 0 then (waitAction zeroTime w, c)
         else case disposition schedule of
           refreshLoopBlockedExpired \<Rightarrow> (waitAction zeroTime w, c)
         | refreshLoopBlockedPermanent \<Rightarrow> blockedAction now w c
         | refreshLoopBlockedIntegrity \<Rightarrow> blockedAction now w c
         | refreshLoopActive \<Rightarrow>
             (if TokenState_IsZero st \<or> RefreshToken st = '''' \<or>
                 \<not> (oauth2 c \<noteq> None \<and> verifier c \<noteq> None)
              then (waitAction zeroTime w, c)
              else if time_isZero (ExpiresAt st) then (waitAction zeroTime w, c)
              else if \<not> time_before now (ExpiresAt st) then parkExpired c
              else if time_isZero (LastAuthAt st) \<or> \<not> time_before (LastAuthAt st) (ExpiresAt st)
              then (waitAction zeroTime w, c)
              else let due = dueTime st schedule;
                       ok = snd (refreshStageTime st (nextStage schedule))
                   in if \<not> ok \<or> \<not> time_before due (ExpiresAt st) then parkExpired c
                      else if time_before now due then (waitAction due w, c)
                      else claimAttempt c))"

section \<open>Waiting\<close>

text \<open>
  \<open>waitForRefreshLoop\<close> as the set of values it can return: \<open>False\<close> when the loop context
  ended, \<open>True\<close> when the wake channel was closed or the timer fired. A wait with the empty
  set blocks; a wait with both is the choice Go's \<open>select\<close> makes.
\<close>

definition waitForRefreshLoop ::
  "ctx_err option \<Rightarrow> bool \<Rightarrow> gotime \<Rightarrow> gotime \<Rightarrow> bool \<Rightarrow> bool set" where
  "waitForRefreshLoop ctxErr wakeIsClosed due now timerFired =
     (if time_isZero due
      then (if ctxErr \<noteq> None then {False} else {}) \<union> (if wakeIsClosed then {True} else {})
      else if time_sub due now \<le> 0 then {True}
      else (if ctxErr \<noteq> None then {False} else {}) \<union>
           (if wakeIsClosed \<or> timerFired then {True} else {}))"

section \<open>Outcomes\<close>

text \<open>How \<open>doRefresh\<close> reads the result of \<open>refreshForSchedule\<close>.\<close>

definition doRefresh :: "goerror option \<Rightarrow> bool \<Rightarrow> ctx_err option \<Rightarrow> refreshLoopAttemptResult" where
  "doRefresh err started ctxErr =
     (case err of
        None \<Rightarrow> refreshLoopAttemptSucceeded
      | Some e \<Rightarrow>
          if errors_is e errScheduledRefreshExpired then refreshLoopAttemptExpiredBeforeStart
          else if isSessionIntegrityError e then refreshLoopAttemptIntegrity
          else if IsPermanentError e then refreshLoopAttemptPermanent
          else if ctxErr \<noteq> None then
            (if started then refreshLoopAttemptCanceledAfterStart
             else refreshLoopAttemptCanceledBeforeStart)
          else refreshLoopAttemptTemporary)"

definition advanceRefreshStageLocked ::
  "uint64 \<Rightarrow> gotime \<Rightarrow> refreshLoopSchedule \<Rightarrow> refreshLoopSchedule" where
  "advanceRefreshStageLocked completedStage completedAt schedule =
     (let stage = completedStage + 1
      in if stage \<le> completedStage then schedule\<lparr>disposition := refreshLoopBlockedExpired\<rparr>
         else schedule\<lparr>nextStage := stage,
                       retryNotBefore := time_add completedAt minRefreshInterval\<rparr>)"

definition sessionExpiredEventTime :: "config \<Rightarrow> token_state \<Rightarrow> gotime \<Rightarrow> gotime" where
  "sessionExpiredEventTime cfg st now =
     (if GracePeriod cfg > 0 \<and> \<not> time_isZero (LastAuthAt st) then
        (let graceEnd = time_add (LastAuthAt st) (GracePeriod cfg)
         in if time_before now graceEnd then graceEnd else now)
      else now)"

definition actionState :: "refreshLoopAction \<Rightarrow> token_state" where
  "actionState a = (case a_state a of Some st \<Rightarrow> st | None \<Rightarrow> zeroTokenState)"

definition applyAttemptResult ::
  "config \<Rightarrow> refreshLoopAction \<Rightarrow> refreshLoopAttemptResult \<Rightarrow> gotime \<Rightarrow>
   refreshLoopSchedule \<Rightarrow> refreshLoopSchedule" where
  "applyAttemptResult cfg action res completedAt schedule =
     (case res of
        refreshLoopAttemptTemporary \<Rightarrow>
          advanceRefreshStageLocked (a_stage action) completedAt schedule
      | refreshLoopAttemptCanceledAfterStart \<Rightarrow>
          advanceRefreshStageLocked (a_stage action) completedAt schedule
      | refreshLoopAttemptPermanent \<Rightarrow>
          schedule\<lparr>disposition := refreshLoopBlockedPermanent,
                   eventAt := sessionExpiredEventTime cfg (actionState action) completedAt\<rparr>
      | refreshLoopAttemptIntegrity \<Rightarrow>
          schedule\<lparr>disposition := refreshLoopBlockedIntegrity, eventAt := completedAt\<rparr>
      | refreshLoopAttemptCanceledBeforeStart \<Rightarrow> schedule
      | refreshLoopAttemptExpiredBeforeStart \<Rightarrow>
          schedule\<lparr>disposition := refreshLoopBlockedExpired\<rparr>
      | refreshLoopAttemptSucceeded \<Rightarrow>
          advanceRefreshStageLocked (a_stage action) completedAt schedule)"

definition finishRefreshLoopAttempt ::
  "refreshLoopAction \<Rightarrow> refreshLoopAttemptResult \<Rightarrow> gotime \<Rightarrow> 's client \<Rightarrow> 's client" where
  "finishRefreshLoopAttempt action res completedAt c =
     (let schedule = refreshSchedule c
      in if \<not> sc_valid schedule \<or> sc_revision schedule \<noteq> a_revision action \<or>
            stateRevision c \<noteq> a_revision action \<or> sc_claimID schedule \<noteq> a_claimID action
         then c
         else signalRefreshLoopLocked
                (c\<lparr>refreshSchedule :=
                     applyAttemptResult (config c) action res completedAt
                       (schedule\<lparr>sc_claimID := 0\<rparr>)\<rparr>))"

section \<open>Blocks placed from outside the loop\<close>

definition markRefreshInconclusiveLocked :: "uint64 \<Rightarrow> 's client \<Rightarrow> 's client" where
  "markRefreshInconclusiveLocked rv c =
     (if stateRevision c \<noteq> rv then c
      else let c = refreshScheduleLocked rv c
           in c\<lparr>refreshSchedule := (refreshSchedule c)\<lparr>inconclusive := True\<rparr>\<rparr>)"

definition refreshInconclusiveLocked :: "uint64 \<Rightarrow> 's client \<Rightarrow> bool" where
  "refreshInconclusiveLocked rv c \<longleftrightarrow>
     sc_valid (refreshSchedule c) \<and> sc_revision (refreshSchedule c) = rv \<and>
     inconclusive (refreshSchedule c)"

definition blockRefreshIntegrityLocked :: "uint64 \<Rightarrow> gotime \<Rightarrow> 's client \<Rightarrow> 's client" where
  "blockRefreshIntegrityLocked rv now c =
     (if stateRevision c \<noteq> rv then c
      else let c = refreshScheduleLocked rv c;
               schedule = refreshSchedule c;
               schedule = (if disposition schedule \<noteq> refreshLoopBlockedIntegrity \<or>
                              time_isZero (eventAt schedule) \<or> time_before now (eventAt schedule)
                           then schedule\<lparr>eventAt := now\<rparr> else schedule)
           in signalRefreshLoopLocked
                (c\<lparr>refreshSchedule := schedule\<lparr>disposition := refreshLoopBlockedIntegrity\<rparr>\<rparr>))"

definition blockRefreshPermanentLocked ::
  "uint64 \<Rightarrow> token_state \<Rightarrow> gotime \<Rightarrow> 's client \<Rightarrow> 's client" where
  "blockRefreshPermanentLocked rv st now c =
     (if stateRevision c \<noteq> rv then c
      else let c = refreshScheduleLocked rv c;
               schedule = refreshSchedule c
           in if disposition schedule = refreshLoopBlockedIntegrity then c
              else let at = sessionExpiredEventTime (config c) st now;
                       schedule = (if disposition schedule \<noteq> refreshLoopBlockedPermanent \<or>
                                      time_isZero (eventAt schedule) \<or>
                                      time_before at (eventAt schedule)
                                   then schedule\<lparr>eventAt := at\<rparr> else schedule)
                   in signalRefreshLoopLocked
                        (c\<lparr>refreshSchedule :=
                             schedule\<lparr>disposition := refreshLoopBlockedPermanent\<rparr>\<rparr>))"

section \<open>One turn of the supervisor\<close>

text \<open>
  One iteration of \<open>runRefreshLoop\<close>. The environment supplies the context's state at the
  loop head and after an attempt, the two clock readings, and the attempt itself, which
  runs without the client's locks and may change the client.
\<close>

datatype loopTurn = LoopReturn | LoopWaits "nat option" gotime | LoopAgain

record 's loopEnv =
  le_ctxErr :: "ctx_err option"
  le_now :: gotime
  le_attempt :: "refreshLoopAction \<Rightarrow> 's client \<Rightarrow> refreshLoopAttemptResult \<times> 's client"
  le_completedAt :: gotime
  le_ctxErrAfter :: "ctx_err option"

definition runRefreshLoop_turn :: "'s loopEnv \<Rightarrow> 's client \<Rightarrow> loopTurn \<times> 's client" where
  "runRefreshLoop_turn env c =
     (if le_ctxErr env \<noteq> None then (LoopReturn, c)
      else let (action, c) = nextRefreshLoopAction (le_now env) c
           in case a_kind action of
                refreshLoopWait \<Rightarrow> (LoopWaits (a_wake action) (a_due action), c)
              | refreshLoopAttempt \<Rightarrow>
                  (let (res, c) = le_attempt env action c;
                       c = finishRefreshLoopAttempt action res (le_completedAt env) c
                   in (if le_ctxErrAfter env \<noteq> None then LoopReturn else LoopAgain, c))
              | refreshLoopEmitSessionExpired \<Rightarrow>
                  (LoopAgain, snd (emitEventIfRevision (a_revision action) EventSessionExpired c)))"

section \<open>Threshold lemmas\<close>

lemma halveRemaining_eq:
  "0 < r \<Longrightarrow> halveRemaining n r = (if 0 < r div 2 ^ n then Some (r div 2 ^ n) else None)"
proof (induction n arbitrary: r)
  case (Suc n)
  have step: "r div 2 ^ Suc n = r div 2 div 2 ^ n"
    by (simp add: zdiv_zmult2_eq)
  show ?case
  proof (cases "0 < r div 2")
    case True
    with Suc.IH [OF True] show ?thesis unfolding step by (simp add: Let_def)
  next
    case False
    with Suc.prems have "r div 2 = 0" by linarith
    then show ?thesis unfolding step by simp
  qed
qed simp

lemma div_pow2_pos_bound:
  assumes "0 < (r :: int) div 2 ^ n" and "r \<le> maxDuration"
  shows "n < 63"
proof (rule ccontr)
  assume "\<not> n < 63"
  then have "(2 :: int) ^ 63 \<le> 2 ^ n" by (intro power_increasing) auto
  with assms(2) have "r < 2 ^ n" by (simp add: maxDuration_def)
  moreover have "2 ^ n \<le> r" using assms(1) pos_imp_zdiv_pos_iff [of "2 ^ n" r] by simp
  ultimately show False by simp
qed

text \<open>When the generation has a positive lifetime, the threshold in closed form.\<close>

definition stageRemaining :: "token_state \<Rightarrow> uint64 \<Rightarrow> duration" where
  "stageRemaining st stage = time_sub (ExpiresAt st) (LastAuthAt st) div 2 ^ unat stage"

lemma refreshStageTime_eq:
  assumes "\<not> time_isZero (ExpiresAt st)" and "\<not> time_isZero (LastAuthAt st)"
    and "time_before (LastAuthAt st) (ExpiresAt st)" and "stage \<noteq> 0"
  shows "refreshStageTime st stage =
    (if 0 < stageRemaining st stage
     then (time_add (ExpiresAt st) (- stageRemaining st stage), True) else (zeroTime, False))"
proof -
  have "0 < time_sub (ExpiresAt st) (LastAuthAt st)"
    using assms(3) by (simp add: time_sub_positive_iff time_before_def)
  then show ?thesis using assms
    by (simp add: refreshStageTime_def stageRemaining_def halveRemaining_eq Let_def
        time_before_def time_isZero_def)
qed

lemma refreshStageTime_stage0 [simp]: "refreshStageTime st 0 = (zeroTime, False)"
  by (simp add: refreshStageTime_def)

lemma stageRemaining_mono:
  assumes "time_before (LastAuthAt st) (ExpiresAt st)" and "s1 \<le> s2"
  shows "stageRemaining st s2 \<le> stageRemaining st s1"
proof -
  have "0 < time_sub (ExpiresAt st) (LastAuthAt st)"
    using assms(1) by (simp add: time_sub_positive_iff time_before_def)
  moreover have "unat s1 \<le> unat s2" using assms(2) by (simp add: word_le_nat_alt)
  ultimately show ?thesis
    unfolding stageRemaining_def by (intro zdiv_mono2) (auto intro: power_increasing)
qed

lemma stageRemaining_le_lifetime:
  assumes "time_before (LastAuthAt st) (ExpiresAt st)"
  shows "stageRemaining st stage \<le> t_ns (ExpiresAt st) - t_ns (LastAuthAt st)"
proof -
  let ?L = "time_sub (ExpiresAt st) (LastAuthAt st)"
  have pos: "0 < ?L" using assms by (simp add: time_sub_positive_iff time_before_def)
  then have "stageRemaining st stage \<le> ?L"
    unfolding stageRemaining_def
    by (metis div_by_1 one_le_numeral one_le_power order_less_imp_le zdiv_mono2 zero_less_one)
  with time_sub_le [OF pos] show ?thesis by linarith
qed

section \<open>The decision, characterized\<close>

text \<open>The schedule the decision works on: the stored one if it belongs to the generation.\<close>

definition effectiveSchedule :: "'s client \<Rightarrow> refreshLoopSchedule" where
  "effectiveSchedule c = refreshSchedule (refreshScheduleLocked (stateRevision c) c)"

lemma effectiveSchedule_wake [simp]:
  "refreshSchedule (refreshScheduleLocked (stateRevision c) (snd (refreshWakeLocked c))) =
   effectiveSchedule c"
  by (simp add: effectiveSchedule_def refreshScheduleLocked_def)

lemma effectiveSchedule_valid [simp]:
  "sc_valid (effectiveSchedule c)" "sc_revision (effectiveSchedule c) = stateRevision c"
  by (simp_all add: effectiveSchedule_def)

lemma effectiveSchedule_current:
  "sc_valid (refreshSchedule c) \<Longrightarrow> sc_revision (refreshSchedule c) = stateRevision c \<Longrightarrow>
   effectiveSchedule c = refreshSchedule c"
  by (simp add: effectiveSchedule_def refreshScheduleLocked_def)

lemma action_kinds [simp]:
  "a_kind (waitAction d w) = refreshLoopWait"
  "a_due (waitAction d w) = d" "a_wake (waitAction d w) = Some w"
  "a_kind (emitAction rv) = refreshLoopEmitSessionExpired"
  "a_revision (emitAction rv) = rv"
  by (simp_all add: waitAction_def emitAction_def)

lemma parkExpired_kind [simp]: "a_kind (fst (parkExpired c)) = refreshLoopWait"
  by (simp add: parkExpired_def Let_def split: prod.split)

lemma claimAttempt_simps [simp]:
  "a_kind (fst (claimAttempt c)) = refreshLoopAttempt"
  "a_revision (fst (claimAttempt c)) = stateRevision c"
  "a_state (fst (claimAttempt c)) = Some (state c)"
  "a_stage (fst (claimAttempt c)) = nextStage (refreshSchedule c)"
  "a_claimID (fst (claimAttempt c)) = nextNonZero (refreshClaimSeq c)"
  "refreshClaimSeq (snd (claimAttempt c)) = nextNonZero (refreshClaimSeq c)"
  "refreshSchedule (snd (claimAttempt c)) =
     (refreshSchedule c)\<lparr>sc_claimID := nextNonZero (refreshClaimSeq c)\<rparr>"
  "state (snd (claimAttempt c)) = state c"
  "stateRevision (snd (claimAttempt c)) = stateRevision c"
  by (simp_all add: claimAttempt_def Let_def)

lemma blockedAction_kind [simp]:
  "a_kind (fst (blockedAction now w c)) \<noteq> refreshLoopAttempt"
  by (simp add: blockedAction_def Let_def)

text \<open>The client as the decision sees it: a wake channel and a schedule of its generation.\<close>

definition preparedLoop :: "'s client \<Rightarrow> 's client" where
  "preparedLoop c = refreshScheduleLocked (stateRevision c) (snd (refreshWakeLocked c))"

lemma preparedLoop_simps [simp]:
  "state (preparedLoop c) = state c"
  "stateRevision (preparedLoop c) = stateRevision c"
  "config (preparedLoop c) = config c"
  "store (preparedLoop c) = store c"
  "oauth2 (preparedLoop c) = oauth2 c"
  "verifier (preparedLoop c) = verifier c"
  "refreshClaimSeq (preparedLoop c) = refreshClaimSeq c"
  "persistenceRetry (preparedLoop c) = persistenceRetry c"
  "emitted (preparedLoop c) = emitted c"
  "pendingEvents (preparedLoop c) = pendingEvents c"
  "refreshSchedule (preparedLoop c) = effectiveSchedule c"
  by (simp_all add: preparedLoop_def)

definition loopReady :: "'s client \<Rightarrow> bool" where
  "loopReady c \<longleftrightarrow>
     \<not> TokenState_IsZero (state c) \<and> RefreshToken (state c) \<noteq> '''' \<and>
     oauth2 c \<noteq> None \<and> verifier c \<noteq> None \<and> \<not> time_isZero (ExpiresAt (state c))"

definition lifetimeKnown :: "token_state \<Rightarrow> bool" where
  "lifetimeKnown st \<longleftrightarrow>
     \<not> time_isZero (ExpiresAt st) \<and> \<not> time_isZero (LastAuthAt st) \<and>
     time_before (LastAuthAt st) (ExpiresAt st)"

lemma nextRefreshLoopAction_prepared:
  "nextRefreshLoopAction now c =
     (let w = fst (refreshWakeLocked c);
          c1 = preparedLoop c;
          schedule = effectiveSchedule c;
          st = state c
      in if sc_claimID schedule \<noteq> 0 then (waitAction zeroTime w, c1)
         else case disposition schedule of
           refreshLoopBlockedExpired \<Rightarrow> (waitAction zeroTime w, c1)
         | refreshLoopBlockedPermanent \<Rightarrow> blockedAction now w c1
         | refreshLoopBlockedIntegrity \<Rightarrow> blockedAction now w c1
         | refreshLoopActive \<Rightarrow>
             (if \<not> loopReady c then (waitAction zeroTime w, c1)
              else if \<not> time_before now (ExpiresAt st) then parkExpired c1
              else if \<not> lifetimeKnown st then (waitAction zeroTime w, c1)
              else if \<not> snd (refreshStageTime st (nextStage schedule)) \<or>
                      \<not> time_before (dueTime st schedule) (ExpiresAt st) then parkExpired c1
              else if time_before now (dueTime st schedule)
                   then (waitAction (dueTime st schedule) w, c1)
              else claimAttempt c1))"
proof -
  have fold: "refreshScheduleLocked (stateRevision (snd (refreshWakeLocked c))) (snd (refreshWakeLocked c)) =
      preparedLoop c"
    by (simp add: preparedLoop_def)
  show ?thesis
    unfolding nextRefreshLoopAction_def Let_def case_prod_beta fold
    by (cases "disposition (effectiveSchedule c)")
      (simp_all add: loopReady_def lifetimeKnown_def)
qed

text \<open>What has to hold for the supervisor to start a refresh at \<open>now\<close>.\<close>

definition attemptDue :: "gotime \<Rightarrow> 's client \<Rightarrow> bool" where
  "attemptDue now c \<longleftrightarrow>
     sc_claimID (effectiveSchedule c) = 0 \<and>
     disposition (effectiveSchedule c) = refreshLoopActive \<and>
     loopReady c \<and> lifetimeKnown (state c) \<and>
     nextStage (effectiveSchedule c) \<noteq> 0 \<and>
     0 < stageRemaining (state c) (nextStage (effectiveSchedule c)) \<and>
     t_ns (ExpiresAt (state c)) - stageRemaining (state c) (nextStage (effectiveSchedule c)) \<le> t_ns now \<and>
     t_ns (retryNotBefore (effectiveSchedule c)) \<le> t_ns now \<and>
     t_ns now < t_ns (ExpiresAt (state c))"

lemma refreshStageTime_ok:
  assumes "lifetimeKnown st"
  shows "snd (refreshStageTime st stage) \<longleftrightarrow> stage \<noteq> 0 \<and> 0 < stageRemaining st stage"
  using assms by (cases "stage = 0") (simp_all add: refreshStageTime_eq lifetimeKnown_def)

lemma dueTime_ns:
  assumes "lifetimeKnown st" and "snd (refreshStageTime st (nextStage sch))"
  shows "t_ns (dueTime st sch) =
    max (t_ns (retryNotBefore sch)) (t_ns (ExpiresAt st) - stageRemaining st (nextStage sch))"
proof -
  have "nextStage sch \<noteq> 0" "0 < stageRemaining st (nextStage sch)"
    using assms by (simp_all add: refreshStageTime_ok)
  with assms(1) show ?thesis
    by (auto simp: dueTime_def refreshStageTime_eq lifetimeKnown_def Let_def time_after_def)
qed

lemma attemptDue_claims:
  assumes "attemptDue now c"
  shows "nextRefreshLoopAction now c = claimAttempt (preparedLoop c)"
proof -
  let ?sch = "effectiveSchedule c"
  have ok: "snd (refreshStageTime (state c) (nextStage ?sch))"
    using assms by (simp add: attemptDue_def refreshStageTime_ok)
  have due: "t_ns (dueTime (state c) ?sch) \<le> t_ns now"
    using assms by (simp add: attemptDue_def dueTime_ns [OF _ ok])
  show ?thesis
    using assms ok due
    by (simp add: nextRefreshLoopAction_prepared attemptDue_def Let_def time_before_def)
qed

lemma attempt_attemptDue:
  assumes "a_kind (fst (nextRefreshLoopAction now c)) = refreshLoopAttempt"
  shows "attemptDue now c"
proof -
  let ?sch = "effectiveSchedule c"
  have guards: "sc_claimID ?sch = 0" "disposition ?sch = refreshLoopActive" "loopReady c"
    "time_before now (ExpiresAt (state c))" "lifetimeKnown (state c)"
    "snd (refreshStageTime (state c) (nextStage ?sch))"
    "\<not> time_before now (dueTime (state c) ?sch)"
    using assms
    by (auto simp: nextRefreshLoopAction_prepared Let_def split: if_splits refreshLoopDisposition.splits)
  then show ?thesis
    using dueTime_ns [OF guards(5,6)]
    by (auto simp: attemptDue_def refreshStageTime_ok time_before_def)
qed

text \<open>
  C15: the supervisor starts a refresh exactly when no attempt is in flight for the
  generation, the generation is not parked, it can be refreshed, its threshold (the expiry
  less the lifetime divided by \<open>2 ^ stage\<close>) and the earliest retry time have passed, and
  the access token has not expired.
\<close>

theorem refresh_attempt_iff_due:
  "a_kind (fst (nextRefreshLoopAction now c)) = refreshLoopAttempt \<longleftrightarrow> attemptDue now c"
  using attempt_attemptDue attemptDue_claims by (metis claimAttempt_simps(1))

text \<open>
  For a generation with a known lifetime, the threshold of stage \<open>k\<close> is the expiry less
  the lifetime halved \<open>k\<close> times; it exists exactly while something remains, then lies
  between the last authentication and the expiry, and no stage beyond 62 has one.
\<close>

lemma refresh_threshold_closed_form:
  assumes "lifetimeKnown st" and "stage \<noteq> 0"
    and "remaining = time_sub (ExpiresAt st) (LastAuthAt st) div 2 ^ unat stage"
  shows "if 0 < remaining
         then refreshStageTime st stage = (time_add (ExpiresAt st) (- remaining), True) \<and>
              t_ns (LastAuthAt st) \<le> t_ns (ExpiresAt st) - remaining \<and> unat stage \<le> 62
         else refreshStageTime st stage = (zeroTime, False)"
proof -
  have r: "remaining = stageRemaining st stage" using assms(3) by (simp add: stageRemaining_def)
  have le: "stageRemaining st stage \<le> t_ns (ExpiresAt st) - t_ns (LastAuthAt st)"
    using assms(1) by (intro stageRemaining_le_lifetime) (simp add: lifetimeKnown_def)
  have "0 < remaining \<Longrightarrow> unat stage < 63"
    using div_pow2_pos_bound [OF _ time_sub_le_maxDuration] assms(3) by blast
  with assms(1,2) le show ?thesis unfolding r by (auto simp: refreshStageTime_eq lifetimeKnown_def)
qed

section \<open>Claims and outcomes\<close>

lemma claimed_waits:
  assumes "sc_valid (refreshSchedule c)" and "sc_revision (refreshSchedule c) = stateRevision c"
    and "sc_claimID (refreshSchedule c) \<noteq> 0"
  shows "fst (nextRefreshLoopAction now c) = waitAction zeroTime (fst (refreshWakeLocked c))"
    and "refreshSchedule (snd (nextRefreshLoopAction now c)) = refreshSchedule c"
    and "stateRevision (snd (nextRefreshLoopAction now c)) = stateRevision c"
  using assms by (simp_all add: nextRefreshLoopAction_prepared effectiveSchedule_current Let_def)

lemma attempt_claims_schedule:
  assumes "nextRefreshLoopAction now c = (a, c')" and "a_kind a = refreshLoopAttempt"
  shows "sc_valid (refreshSchedule c')" and "sc_revision (refreshSchedule c') = stateRevision c'"
    and "sc_claimID (refreshSchedule c') = a_claimID a" and "a_claimID a \<noteq> 0"
    and "a_revision a = stateRevision c'" and "a_stage a = nextStage (refreshSchedule c')"
    and "state c' = state c" and "stateRevision c' = stateRevision c"
    and "refreshSchedule c' = (effectiveSchedule c)\<lparr>sc_claimID := a_claimID a\<rparr>"
proof -
  have "nextRefreshLoopAction now c = claimAttempt (preparedLoop c)"
    by (intro attemptDue_claims attempt_attemptDue) (simp add: assms)
  then have ac: "a = fst (claimAttempt (preparedLoop c))" "c' = snd (claimAttempt (preparedLoop c))"
    using assms(1) by (metis fst_conv, metis snd_conv)
  show "sc_valid (refreshSchedule c')" and "sc_revision (refreshSchedule c') = stateRevision c'"
    and "sc_claimID (refreshSchedule c') = a_claimID a" and "a_claimID a \<noteq> 0"
    and "a_revision a = stateRevision c'" and "a_stage a = nextStage (refreshSchedule c')"
    and "state c' = state c" and "stateRevision c' = stateRevision c"
    and "refreshSchedule c' = (effectiveSchedule c)\<lparr>sc_claimID := a_claimID a\<rparr>"
    unfolding ac by simp_all
qed

lemma finish_matching:
  assumes "sc_valid (refreshSchedule c)" and "sc_revision (refreshSchedule c) = a_revision a"
    and "stateRevision c = a_revision a" and "sc_claimID (refreshSchedule c) = a_claimID a"
  shows "refreshSchedule (finishRefreshLoopAttempt a res t c) =
           applyAttemptResult (config c) a res t ((refreshSchedule c)\<lparr>sc_claimID := 0\<rparr>)"
    and "state (finishRefreshLoopAttempt a res t c) = state c"
    and "stateRevision (finishRefreshLoopAttempt a res t c) = stateRevision c"
  using assms by (simp_all add: finishRefreshLoopAttempt_def)

lemma applyAttemptResult_frame [simp]:
  "sc_valid (applyAttemptResult cfg a res t sch) = sc_valid sch"
  "sc_revision (applyAttemptResult cfg a res t sch) = sc_revision sch"
  "sc_claimID (applyAttemptResult cfg a res t sch) = sc_claimID sch"
  "eventEmitted (applyAttemptResult cfg a res t sch) = eventEmitted sch"
  by (simp_all add: applyAttemptResult_def advanceRefreshStageLocked_def Let_def
      split: refreshLoopAttemptResult.split)

text \<open>Results after which the supervisor moves on to the next threshold.\<close>

definition advancingResult :: "refreshLoopAttemptResult \<Rightarrow> bool" where
  "advancingResult res \<longleftrightarrow>
     res \<in> {refreshLoopAttemptTemporary, refreshLoopAttemptCanceledAfterStart,
             refreshLoopAttemptSucceeded}"

lemma applyAttemptResult_advancing:
  assumes "advancingResult res"
  shows "applyAttemptResult cfg a res t sch = advanceRefreshStageLocked (a_stage a) t sch"
  using assms by (auto simp: advancingResult_def applyAttemptResult_def)

lemma unat_succ_stage:
  assumes "unat (stage :: uint64) \<le> 62"
  shows "unat (stage + 1) = unat stage + 1" and "\<not> stage + 1 \<le> stage"
proof -
  have "unat (stage + 1) = Suc (unat stage)"
    using assms by (simp add: unat_word_ariths)
  then show "unat (stage + 1) = unat stage + 1" and "\<not> stage + 1 \<le> stage"
    by (simp_all add: word_le_nat_alt)
qed

lemma attemptDue_stage_bound:
  assumes "attemptDue now c"
  shows "1 \<le> unat (nextStage (effectiveSchedule c))" "unat (nextStage (effectiveSchedule c)) \<le> 62"
proof -
  have nz: "nextStage (effectiveSchedule c) \<noteq> 0"
    and pos: "0 < stageRemaining (state c) (nextStage (effectiveSchedule c))"
    using assms by (simp_all add: attemptDue_def)
  from nz show "1 \<le> unat (nextStage (effectiveSchedule c))"
    by (simp add: Suc_le_eq unat_gt_0)
  from pos show "unat (nextStage (effectiveSchedule c)) \<le> 62"
    using div_pow2_pos_bound [OF _ time_sub_le_maxDuration] unfolding stageRemaining_def by fastforce
qed

lemma idle_turn_keeps_schedule:
  assumes "a_kind (fst (nextRefreshLoopAction now c)) \<noteq> refreshLoopAttempt"
  shows "nextStage (effectiveSchedule (snd (nextRefreshLoopAction now c))) =
           nextStage (effectiveSchedule c)"
    and "disposition (effectiveSchedule c) \<noteq> refreshLoopActive \<Longrightarrow>
         disposition (effectiveSchedule (snd (nextRefreshLoopAction now c))) \<noteq> refreshLoopActive"
    and "stateRevision (snd (nextRefreshLoopAction now c)) = stateRevision c"
    and "state (snd (nextRefreshLoopAction now c)) = state c"
proof -
  let ?c' = "snd (nextRefreshLoopAction now c)"
  have cases: "?c' = preparedLoop c \<or> ?c' = snd (parkExpired (preparedLoop c)) \<or>
      ?c' = snd (blockedAction now (fst (refreshWakeLocked c)) (preparedLoop c))"
    using assms
    by (auto simp: nextRefreshLoopAction_prepared Let_def split: refreshLoopDisposition.splits)
  have fields: "stateRevision ?c' = stateRevision c \<and> state ?c' = state c \<and>
      sc_valid (refreshSchedule ?c') \<and> sc_revision (refreshSchedule ?c') = stateRevision c \<and>
      nextStage (refreshSchedule ?c') = nextStage (effectiveSchedule c) \<and>
      (disposition (effectiveSchedule c) \<noteq> refreshLoopActive \<longrightarrow>
       disposition (refreshSchedule ?c') \<noteq> refreshLoopActive)"
    using cases
    by (auto simp: parkExpired_def blockedAction_def Let_def case_prod_beta split: if_splits)
  then have "effectiveSchedule ?c' = refreshSchedule ?c'"
    by (simp add: effectiveSchedule_current)
  with fields show "nextStage (effectiveSchedule ?c') = nextStage (effectiveSchedule c)"
    and "disposition (effectiveSchedule c) \<noteq> refreshLoopActive \<Longrightarrow>
         disposition (effectiveSchedule ?c') \<noteq> refreshLoopActive"
    and "stateRevision ?c' = stateRevision c" and "state ?c' = state c"
    by auto
qed

lemma attempt_turn_schedule:
  assumes "nextRefreshLoopAction now c = (a, c1)" and "a_kind a = refreshLoopAttempt"
    and "c2 = finishRefreshLoopAttempt a res t c1"
  shows "effectiveSchedule c2 = applyAttemptResult (config c1) a res t (effectiveSchedule c)"
    and "a_stage a = nextStage (effectiveSchedule c)"
    and "state c2 = state c" and "stateRevision c2 = stateRevision c"
proof -
  note cl = attempt_claims_schedule [OF assms(1,2)]
  have due: "attemptDue now c" by (rule attempt_attemptDue) (simp add: assms(1,2))
  have unclaimed: "(effectiveSchedule c)\<lparr>sc_claimID := 0\<rparr> = effectiveSchedule c"
    using due by (simp add: attemptDue_def)
  have "refreshSchedule c2 =
      applyAttemptResult (config c1) a res t ((refreshSchedule c1)\<lparr>sc_claimID := 0\<rparr>)"
    and rv: "stateRevision c2 = stateRevision c1" and st: "state c2 = state c1"
    unfolding assms(3) using cl by (simp_all add: finish_matching)
  then have sch: "refreshSchedule c2 = applyAttemptResult (config c1) a res t (effectiveSchedule c)"
    using unclaimed by (simp add: cl(9))
  show "effectiveSchedule c2 = applyAttemptResult (config c1) a res t (effectiveSchedule c)"
    using sch rv cl by (subst effectiveSchedule_current) simp_all
  show "a_stage a = nextStage (effectiveSchedule c)" using cl(6,9) by simp
  show "state c2 = state c" "stateRevision c2 = stateRevision c" using st rv cl(7,8) by simp_all
qed

text \<open>
  The supervisor on one token generation: each turn asks for the next action at some time
  and, when that is an attempt, completes it with some result at some later time. The
  results of the attempts made are collected.
\<close>

fun supervise ::
  "(gotime \<times> refreshLoopAttemptResult \<times> gotime) list \<Rightarrow> 's client \<Rightarrow>
   refreshLoopAttemptResult list \<times> 's client" where
  "supervise [] c = ([], c)"
| "supervise ((now, res, t) # turns) c =
     (let (a, c1) = nextRefreshLoopAction now c
      in if a_kind a = refreshLoopAttempt
         then let (rs, c2) = supervise turns (finishRefreshLoopAttempt a res t c1)
              in (res # rs, c2)
         else supervise turns c1)"

definition startedAttempts :: "refreshLoopAttemptResult list \<Rightarrow> nat" where
  "startedAttempts rs = length (filter (\<lambda>r. r \<noteq> refreshLoopAttemptCanceledBeforeStart) rs)"

lemma startedAttempts_simps [simp]:
  "startedAttempts [] = 0"
  "startedAttempts (r # rs) =
     (if r = refreshLoopAttemptCanceledBeforeStart then 0 else 1) + startedAttempts rs"
  by (simp_all add: startedAttempts_def)

lemma supervise_parked:
  "disposition (effectiveSchedule c) \<noteq> refreshLoopActive \<Longrightarrow> fst (supervise turns c) = []"
proof (induction turns arbitrary: c)
  case (Cons turn turns)
  obtain now res t where turn: "turn = (now, res, t)" by (cases turn)
  have idle: "a_kind (fst (nextRefreshLoopAction now c)) \<noteq> refreshLoopAttempt"
    using Cons.prems attempt_attemptDue by (auto simp: attemptDue_def)
  with Cons.IH [OF idle_turn_keeps_schedule(2) [OF idle Cons.prems]] show ?case
    by (simp add: turn case_prod_beta)
qed simp

lemma supervise_bound:
  "unat (nextStage (effectiveSchedule c)) \<le> 63 \<Longrightarrow>
   startedAttempts (fst (supervise turns c)) \<le> 64 - unat (nextStage (effectiveSchedule c))"
proof (induction turns arbitrary: c)
  case (Cons turn turns)
  obtain now res t where turn: "turn = (now, res, t)" by (cases turn)
  obtain a c1 where next_eq: "nextRefreshLoopAction now c = (a, c1)" by fastforce
  let ?c2 = "finishRefreshLoopAttempt a res t c1"
  show ?case
  proof (cases "a_kind a = refreshLoopAttempt")
    case False
    then have idle: "a_kind (fst (nextRefreshLoopAction now c)) \<noteq> refreshLoopAttempt"
      by (simp add: next_eq)
    have "nextStage (effectiveSchedule c1) = nextStage (effectiveSchedule c)"
      using idle_turn_keeps_schedule(1) [OF idle] by (simp add: next_eq)
    with Cons.IH [of c1] Cons.prems False show ?thesis by (simp add: turn next_eq)
  next
    case True
    note at = attempt_turn_schedule [where res = res and t = t, OF next_eq True refl]
    have "attemptDue now c" using True attempt_attemptDue [of now c] by (simp add: next_eq)
    note bound = attemptDue_stage_bound(2) [OF this]
    have rs: "fst (supervise (turn # turns) c) = res # fst (supervise turns ?c2)"
      using True by (simp add: turn next_eq case_prod_beta)
    consider (adv) "advancingResult res" | (again) "res = refreshLoopAttemptCanceledBeforeStart"
      | (stop) "\<not> advancingResult res" "res \<noteq> refreshLoopAttemptCanceledBeforeStart" by blast
    then show ?thesis
    proof cases
      case adv
      have "nextStage (effectiveSchedule ?c2) = nextStage (effectiveSchedule c) + 1"
        using unat_succ_stage(2) [OF bound] at(2)
        by (simp add: at(1) applyAttemptResult_advancing [OF adv] advanceRefreshStageLocked_def)
      then have stage: "unat (nextStage (effectiveSchedule ?c2)) = unat (nextStage (effectiveSchedule c)) + 1"
        using unat_succ_stage(1) [OF bound] by simp
      have "res \<noteq> refreshLoopAttemptCanceledBeforeStart"
        using adv by (auto simp: advancingResult_def)
      with Cons.IH [of ?c2] bound stage show ?thesis by (simp add: rs)
    next
      case again
      then have "effectiveSchedule ?c2 = effectiveSchedule c"
        using at(1) by (simp add: applyAttemptResult_def)
      with Cons.IH [of ?c2] Cons.prems again show ?thesis by (simp add: rs)
    next
      case stop
      then have "disposition (effectiveSchedule ?c2) \<noteq> refreshLoopActive"
        unfolding at(1) by (auto simp: applyAttemptResult_def advancingResult_def
            split: refreshLoopAttemptResult.splits)
      then have "fst (supervise turns ?c2) = []" by (rule supervise_parked)
      with bound stop(2) show ?thesis by (simp add: rs)
    qed
  qed
qed simp

text \<open>
  C16: a token generation whose schedule is fresh gets at most 63 refresh attempts that
  reach the point of starting, whatever the clock readings and results are.
\<close>

theorem refresh_attempts_bounded:
  assumes "sc_valid (refreshSchedule c) \<longrightarrow> sc_revision (refreshSchedule c) \<noteq> stateRevision c"
  shows "startedAttempts (fst (supervise turns c)) \<le> 63"
proof -
  have "effectiveSchedule c = freshSchedule (stateRevision c)"
    using assms by (auto simp: effectiveSchedule_def refreshScheduleLocked_def)
  then have "nextStage (effectiveSchedule c) = 1" by (simp add: freshSchedule_def)
  with supervise_bound [of c turns] show ?thesis by simp
qed

theorem refresh_attempts_bounded_witness:
  "startedAttempts (fst (supervise
     [(atSec 1600, refreshLoopAttemptTemporary, atSec 1601),
      (atSec 1605, refreshLoopAttemptTemporary, atSec 1606),
      (atSec 1760, refreshLoopAttemptPermanent, atSec 1761),
      (atSec 1900, refreshLoopAttemptTemporary, atSec 1901)] sampleClient)) = 2 \<and>
   startedAttempts (fst (supervise
     [(atSec 1600, refreshLoopAttemptTemporary, atSec 1601)] sampleClient)) \<le> 63"
proof
  show "startedAttempts (fst (supervise
     [(atSec 1600, refreshLoopAttemptTemporary, atSec 1601)] sampleClient)) \<le> 63"
    by (rule refresh_attempts_bounded) code_simp
qed code_simp

text \<open>
  After an attempt that did not settle the generation, the next attempt is one stage
  further and starts at least ten seconds after the previous one completed.
\<close>

lemma refresh_attempts_spaced:
  assumes "nextRefreshLoopAction now c = (a, c1)" and "a_kind a = refreshLoopAttempt"
    and "advancingResult res" and "c2 = finishRefreshLoopAttempt a res t c1"
    and "nextRefreshLoopAction now' c2 = (b, c3)" and "a_kind b = refreshLoopAttempt"
  shows "a_stage b = a_stage a + 1 \<and> t_ns t + 10 * second \<le> t_ns now' \<and>
         t_ns now' < t_ns (ExpiresAt (state c)) \<and> a_claimID b \<noteq> 0"
proof -
  note at = attempt_turn_schedule [OF assms(1,2,4)]
  have due: "attemptDue now c" by (rule attempt_attemptDue) (simp add: assms(1,2))
  have due': "attemptDue now' c2" by (rule attempt_attemptDue) (simp add: assms(5,6))
  have grow: "\<not> a_stage a + 1 \<le> a_stage a"
    using unat_succ_stage(2) [OF attemptDue_stage_bound(2) [OF due]] at(2) by simp
  have sch: "effectiveSchedule c2 =
      (effectiveSchedule c)\<lparr>nextStage := a_stage a + 1, retryNotBefore := time_add t minRefreshInterval\<rparr>"
    using grow by (simp add: at(1) applyAttemptResult_advancing [OF assms(3)]
        advanceRefreshStageLocked_def Let_def)
  note b = attempt_claims_schedule [OF assms(5,6)]
  have "a_stage b = nextStage (effectiveSchedule c2)" using b(6,9) by simp
  with due' sch b(4) at(3) show ?thesis by (simp add: attemptDue_def minRefreshInterval_def)
qed

definition sampleAttempt :: "refreshLoopAction \<times> token_state client" where
  "sampleAttempt = nextRefreshLoopAction (atSec 1600) sampleClient"

text \<open>
  While an attempt is claimed, every further call of the scheduling decision waits for a
  broadcast without a deadline and leaves the claim in place, and the completion of an
  attempt whose generation was replaced changes nothing.
\<close>

lemma refresh_claim_exclusive:
  assumes "nextRefreshLoopAction now c = (a, c1)" and "a_kind a = refreshLoopAttempt"
  shows "a_kind (fst (nextRefreshLoopAction now' c1)) = refreshLoopWait \<and>
         time_isZero (a_due (fst (nextRefreshLoopAction now' c1))) \<and>
         refreshSchedule (snd (nextRefreshLoopAction now' c1)) = refreshSchedule c1 \<and>
         finishRefreshLoopAttempt a res t (advanceStateLocked st c1) = advanceStateLocked st c1"
proof -
  note cl = attempt_claims_schedule [OF assms]
  have "sc_claimID (refreshSchedule c1) \<noteq> 0" using cl(3,4) by simp
  note w = claimed_waits [OF cl(1,2) this]
  show ?thesis using w cl(5) by (simp add: finishRefreshLoopAttempt_def)
qed

text \<open>What the decision to emit saw, and the schedule it leaves.\<close>

lemma emission_due:
  assumes "nextRefreshLoopAction now c = (a, c1)" and "a_kind a = refreshLoopEmitSessionExpired"
  shows "disposition (effectiveSchedule c) \<in> {refreshLoopBlockedPermanent, refreshLoopBlockedIntegrity}"
    and "sc_claimID (effectiveSchedule c) = 0" and "\<not> eventEmitted (effectiveSchedule c)"
    and "\<not> time_before now (eventAt (effectiveSchedule c))" and "a = emitAction (stateRevision c)"
    and "effectiveSchedule c1 = (effectiveSchedule c)\<lparr>eventEmitted := True\<rparr>"
proof -
  let ?w = "fst (refreshWakeLocked c)" and ?sch = "effectiveSchedule c"
  have "sc_claimID ?sch = 0 \<and>
      disposition ?sch \<in> {refreshLoopBlockedPermanent, refreshLoopBlockedIntegrity} \<and>
      nextRefreshLoopAction now c = blockedAction now ?w (preparedLoop c)"
    using assms
    by (auto simp: nextRefreshLoopAction_prepared Let_def waitAction_def parkExpired_def
        claimAttempt_def case_prod_beta split: if_splits refreshLoopDisposition.splits)
  then have eq: "blockedAction now ?w (preparedLoop c) = (a, c1)"
    and disp: "disposition ?sch \<in> {refreshLoopBlockedPermanent, refreshLoopBlockedIntegrity}"
    and cl: "sc_claimID ?sch = 0" using assms(1) by auto
  show "disposition ?sch \<in> {refreshLoopBlockedPermanent, refreshLoopBlockedIntegrity}" "sc_claimID ?sch = 0"
    using disp cl by blast+
  show "\<not> eventEmitted ?sch" "\<not> time_before now (eventAt ?sch)" "a = emitAction (stateRevision c)"
    using eq assms(2) by (auto simp: blockedAction_def Let_def waitAction_def split: if_splits)
  have "c1 = signalRefreshLoopLocked ((preparedLoop c)\<lparr>refreshSchedule := ?sch\<lparr>eventEmitted := True\<rparr>\<rparr>)"
    using eq assms(2) by (auto simp: blockedAction_def Let_def waitAction_def split: if_splits)
  then show "effectiveSchedule c1 = ?sch\<lparr>eventEmitted := True\<rparr>"
    by (simp add: effectiveSchedule_current)
qed

text \<open>
  C34: the expiry event of a parked generation is issued only once its time has come, and
  after it was issued no later decision of the same generation issues it again.
\<close>

theorem session_expired_emitted_once:
  assumes "nextRefreshLoopAction now c = (a, c1)" and "a_kind a = refreshLoopEmitSessionExpired"
  shows "disposition (effectiveSchedule c) \<in> {refreshLoopBlockedPermanent, refreshLoopBlockedIntegrity} \<and>
         t_ns (eventAt (effectiveSchedule c)) \<le> t_ns now \<and>
         \<not> eventEmitted (effectiveSchedule c) \<and> a_revision a = stateRevision c \<and>
         a_kind (fst (nextRefreshLoopAction now' c1)) = refreshLoopWait \<and>
         eventEmitted (refreshSchedule (snd (nextRefreshLoopAction now' c1)))"
proof -
  note due = emission_due [OF assms]
  have "nextRefreshLoopAction now' c1 =
      (waitAction zeroTime (fst (refreshWakeLocked c1)), preparedLoop c1)"
    using due(1,2,6) by (auto simp: nextRefreshLoopAction_prepared blockedAction_def Let_def)
  with due show ?thesis by (simp add: time_before_def)
qed

definition sampleBlockedClient :: "token_state client" where
  "sampleBlockedClient =
     finishRefreshLoopAttempt (fst sampleAttempt) refreshLoopAttemptPermanent (atSec 1601)
       (snd sampleAttempt)"

theorem session_expired_emitted_once_witness:
  "a_kind (fst (nextRefreshLoopAction (atSec 11000) sampleBlockedClient)) = refreshLoopEmitSessionExpired \<and>
   t_ns (eventAt (effectiveSchedule sampleBlockedClient)) \<le> t_ns (atSec 11000) \<and>
   a_kind (fst (nextRefreshLoopAction (atSec 12000)
     (snd (nextRefreshLoopAction (atSec 11000) sampleBlockedClient)))) = refreshLoopWait"
proof -
  have 1: "a_kind (fst (nextRefreshLoopAction (atSec 11000) sampleBlockedClient)) =
      refreshLoopEmitSessionExpired"
    by code_simp
  show ?thesis
    using 1 session_expired_emitted_once [OF prod.collapse [symmetric] 1] by simp
qed

end
