(* ===== verification/Persistence.thy ===== *)
theory Persistence
  imports Refresh_Loop
begin

text \<open>
  Persistence recovery (\<open>persistence.go\<close>): recording a failed \<open>Save\<close>, the exponential
  retry delay, claiming and performing a retry, and the supervisor turn that drives them.
\<close>

section \<open>Retry delay\<close>

definition minPersistenceRetryInterval :: duration where "minPersistenceRetryInterval = second"
definition maxPersistenceRetryInterval :: duration where "maxPersistenceRetryInterval = minute"

function retryDelayLoop :: "uint64 \<Rightarrow> uint64 \<Rightarrow> duration \<Rightarrow> duration" where
  "retryDelayLoop attempt fails delay =
     (if attempt < fails
      then (if delay \<ge> maxPersistenceRetryInterval div 2 then maxPersistenceRetryInterval
            else retryDelayLoop (attempt + 1) fails (delay * 2))
      else delay)"
  by pat_completeness auto
termination
proof (relation "measure (\<lambda>(attempt, fails, delay). unat fails - unat attempt)")
  fix attempt fails :: uint64 and delay :: duration
  assume less: "attempt < fails"
  then have "unat attempt < unat fails" by (simp add: word_less_nat_alt)
  moreover have "unat (attempt + 1) = unat attempt + 1"
    using less by (rule unat_plus_one)
  ultimately show "((attempt + 1, fails, delay * 2), attempt, fails, delay)
      \<in> measure (\<lambda>(attempt, fails, delay). unat fails - unat attempt)"
    by simp
qed simp

declare retryDelayLoop.simps [simp del]

definition persistenceRetryDelay :: "uint64 \<Rightarrow> duration" where
  "persistenceRetryDelay fails = retryDelayLoop 1 fails minPersistenceRetryInterval"

section \<open>Recording and retrying\<close>

record persistenceRetryAction =
  pa_claimed :: bool
  pa_revision :: uint64
  pa_claimID :: uint64
  pa_due :: gotime
  pa_wake :: "nat option"

definition idlePersistenceAction :: "gotime \<Rightarrow> nat \<Rightarrow> persistenceRetryAction" where
  "idlePersistenceAction due w =
     \<lparr>pa_claimed = False, pa_revision = 0, pa_claimID = 0, pa_due = due, pa_wake = Some w\<rparr>"

definition recordPersistenceSaveResult ::
  "uint64 \<Rightarrow> goerror option \<Rightarrow> gotime \<Rightarrow> 's client \<Rightarrow> 's client" where
  "recordPersistenceSaveResult rv err completedAt c =
     (case err of
        None \<Rightarrow> c
      | Some _ \<Rightarrow>
          (let delay = persistenceRetryDelay 1
           in if stateRevision c = rv
              then signalRefreshLoopLocked
                     (c\<lparr>persistenceRetry :=
                          \<lparr>pr_valid = True, pr_revision = rv, failures = 1,
                           retryAt = time_add completedAt delay, pr_claimID = 0\<rparr>\<rparr>)
              else c))"

definition nextPersistenceRetryAction ::
  "gotime \<Rightarrow> 's client \<Rightarrow> persistenceRetryAction \<times> 's client" where
  "nextPersistenceRetryAction now c =
     (let (w, c) = refreshWakeLocked c;
          pending = persistenceRetry c
      in if \<not> pr_valid pending then (idlePersistenceAction zeroTime w, c)
         else if pr_revision pending \<noteq> stateRevision c
         then (idlePersistenceAction zeroTime w, c\<lparr>persistenceRetry := zeroPersistenceRetry\<rparr>)
         else if pr_claimID pending \<noteq> 0 then (idlePersistenceAction zeroTime w, c)
         else if time_before now (retryAt pending)
         then (idlePersistenceAction (retryAt pending) w, c)
         else let seq = nextNonZero (persistenceClaimSeq c)
              in (\<lparr>pa_claimed = True, pa_revision = pr_revision pending, pa_claimID = seq,
                   pa_due = zeroTime, pa_wake = None\<rparr>,
                  signalRefreshLoopLocked
                    (c\<lparr>persistenceClaimSeq := seq,
                       persistenceRetry := pending\<lparr>pr_claimID := seq\<rparr>\<rparr>)))"

definition persistenceRetryMatchesLocked :: "persistenceRetryAction \<Rightarrow> 's client \<Rightarrow> bool" where
  "persistenceRetryMatchesLocked action c \<longleftrightarrow>
     pr_valid (persistenceRetry c) \<and> pr_revision (persistenceRetry c) = pa_revision action \<and>
     pr_claimID (persistenceRetry c) = pa_claimID action \<and> stateRevision c = pa_revision action"

definition saturatingInc :: "uint64 \<Rightarrow> uint64" where
  "saturatingInc n = (if n < - 1 then n + 1 else n)"

text \<open>The bookkeeping after the \<open>Save\<close> call returned.\<close>

definition finishPersistenceRetry ::
  "persistenceRetryAction \<Rightarrow> goerror option \<Rightarrow> gotime \<Rightarrow> 's client \<Rightarrow> 's client" where
  "finishPersistenceRetry action err completedAt c =
     (if persistenceRetryMatchesLocked action c
      then signalRefreshLoopLocked
             (case err of
                None \<Rightarrow> c\<lparr>persistenceRetry := zeroPersistenceRetry\<rparr>
              | Some _ \<Rightarrow>
                  (let fails = saturatingInc (failures (persistenceRetry c));
                       retryIn = persistenceRetryDelay fails
                   in c\<lparr>persistenceRetry :=
                          (persistenceRetry c)\<lparr>failures := fails,
                             retryAt := time_add completedAt retryIn, pr_claimID := 0\<rparr>\<rparr>))
      else c)"

definition retryPersistence ::
  "'s token_persistence \<Rightarrow> ctx_err option \<Rightarrow> persistenceRetryAction \<Rightarrow> gotime \<Rightarrow>
   's client \<Rightarrow> 's client" where
  "retryPersistence ops ctxErr action completedAt c =
     (if \<not> persistenceRetryMatchesLocked action c then c
      else if ctxErr \<noteq> None
      then signalRefreshLoopLocked
             (c\<lparr>persistenceRetry := (persistenceRetry c)\<lparr>pr_claimID := 0\<rparr>\<rparr>)
      else let st = state c;
               (err, s) = Save ops st (store c)
           in finishPersistenceRetry action err completedAt (c\<lparr>store := s\<rparr>))"

text \<open>One iteration of \<open>runPersistenceRetryLoop\<close>.\<close>

definition runPersistenceRetryLoop_turn ::
  "'s token_persistence \<Rightarrow> ctx_err option \<Rightarrow> gotime \<Rightarrow> ctx_err option \<Rightarrow> gotime \<Rightarrow>
   's client \<Rightarrow> loopTurn \<times> 's client" where
  "runPersistenceRetryLoop_turn ops ctxErr now ctxErrSave completedAt c =
     (if ctxErr \<noteq> None then (LoopReturn, c)
      else let (action, c) = nextPersistenceRetryAction now c
           in if \<not> pa_claimed action then (LoopWaits (pa_wake action) (pa_due action), c)
              else (LoopAgain, retryPersistence ops ctxErrSave action completedAt c))"

section \<open>Lemmas\<close>

lemma retryDelayLoop_eq:
  "0 < delay \<Longrightarrow> delay \<le> minute \<Longrightarrow>
   retryDelayLoop attempt fails delay = min minute (delay * 2 ^ (unat fails - unat attempt))"
proof (induction attempt fails delay rule: retryDelayLoop.induct)
  case (1 attempt fails delay)
  show ?case
  proof (cases "attempt < fails")
    case False
    then have "unat fails - unat attempt = 0" by (simp add: word_less_nat_alt)
    with False "1.prems" show ?thesis by (simp add: retryDelayLoop.simps [of attempt fails delay])
  next
    case True
    then have lt: "unat attempt < unat fails" by (simp add: word_less_nat_alt)
    have succ: "unat (attempt + 1) = unat attempt + 1"
      using True by (rule unat_plus_one)
    have split: "(2 :: int) ^ (unat fails - unat attempt) = 2 * 2 ^ (unat fails - unat (attempt + 1))"
      using lt succ by (metis Suc_diff_Suc Suc_eq_plus1 power_Suc)
    show ?thesis
    proof (cases "delay \<ge> maxPersistenceRetryInterval div 2")
      case True
      have "minute \<le> delay * 2 ^ (unat fails - unat attempt)"
      proof -
        have "minute \<le> delay * 2" using True
          by (simp add: maxPersistenceRetryInterval_def minute_def second_def)
        also have "\<dots> \<le> delay * 2 ^ (unat fails - unat attempt)"
          using "1.prems"(1) split by simp
        finally show ?thesis .
      qed
      with True \<open>attempt < fails\<close> show ?thesis
        by (simp add: retryDelayLoop.simps [of attempt fails delay] maxPersistenceRetryInterval_def)
    next
      case False
      then have "delay * 2 \<le> minute"
        by (simp add: maxPersistenceRetryInterval_def minute_def second_def)
      with "1.IH" [OF True False] "1.prems"(1) True False show ?thesis
        by (simp add: retryDelayLoop.simps [of attempt fails delay] split mult.assoc)
    qed
  qed
qed

lemma persistenceRetryDelay_eq:
  "persistenceRetryDelay fails = min minute (2 ^ (unat fails - 1) * second)"
  unfolding persistenceRetryDelay_def
  by (subst retryDelayLoop_eq)
    (simp_all add: minPersistenceRetryInterval_def minute_def second_def)

lemma finishPersistenceRetry_frame [simp]:
  "state (finishPersistenceRetry a err t c) = state c"
  "stateRevision (finishPersistenceRetry a err t c) = stateRevision c"
  "store (finishPersistenceRetry a err t c) = store c"
  "emitted (finishPersistenceRetry a err t c) = emitted c"
  "pendingEvents (finishPersistenceRetry a err t c) = pendingEvents c"
  "refreshSchedule (finishPersistenceRetry a err t c) = refreshSchedule c"
  "restoreBlocked (finishPersistenceRetry a err t c) = restoreBlocked c"
  by (simp_all add: finishPersistenceRetry_def Let_def split: option.split)

lemma retryPersistence_frame [simp]:
  "state (retryPersistence ops e a t c) = state c"
  "stateRevision (retryPersistence ops e a t c) = stateRevision c"
  "emitted (retryPersistence ops e a t c) = emitted c"
  "pendingEvents (retryPersistence ops e a t c) = pendingEvents c"
  "refreshSchedule (retryPersistence ops e a t c) = refreshSchedule c"
  "restoreBlocked (retryPersistence ops e a t c) = restoreBlocked c"
  by (simp_all add: retryPersistence_def Let_def split: prod.split)

lemma recordPersistenceSaveResult_frame [simp]:
  "state (recordPersistenceSaveResult rv e t c) = state c"
  "stateRevision (recordPersistenceSaveResult rv e t c) = stateRevision c"
  "store (recordPersistenceSaveResult rv e t c) = store c"
  "config (recordPersistenceSaveResult rv e t c) = config c"
  "emitted (recordPersistenceSaveResult rv e t c) = emitted c"
  "pendingEvents (recordPersistenceSaveResult rv e t c) = pendingEvents c"
  "eventDispatching (recordPersistenceSaveResult rv e t c) = eventDispatching c"
  "refreshSchedule (recordPersistenceSaveResult rv e t c) = refreshSchedule c"
  "restoreBlocked (recordPersistenceSaveResult rv e t c) = restoreBlocked c"
  "operations (recordPersistenceSaveResult rv e t c) = operations c"
  "attempts (recordPersistenceSaveResult rv e t c) = attempts c"
  "refreshAttempt (recordPersistenceSaveResult rv e t c) = refreshAttempt c"
  "lifecycleOperation (recordPersistenceSaveResult rv e t c) = lifecycleOperation c"
  "oauth2 (recordPersistenceSaveResult rv e t c) = oauth2 c"
  "verifier (recordPersistenceSaveResult rv e t c) = verifier c"
  "provider (recordPersistenceSaveResult rv e t c) = provider c"
  by (simp_all add: recordPersistenceSaveResult_def Let_def split: option.split)

text \<open>A retry is due: recorded for the current generation, unclaimed, and its time has come.\<close>

definition persistenceDue :: "gotime \<Rightarrow> 's client \<Rightarrow> bool" where
  "persistenceDue now c \<longleftrightarrow>
     pr_valid (persistenceRetry c) \<and> pr_revision (persistenceRetry c) = stateRevision c \<and>
     pr_claimID (persistenceRetry c) = 0 \<and> t_ns (retryAt (persistenceRetry c)) \<le> t_ns now"

lemma nextPersistenceRetryAction_claims:
  assumes "persistenceDue now c" and "nextPersistenceRetryAction now c = (a, c1)"
  shows "pa_claimed a" and "persistenceRetryMatchesLocked a c1" and "pa_claimID a \<noteq> 0"
    and "persistenceRetry c1 = (persistenceRetry c)\<lparr>pr_claimID := pa_claimID a\<rparr>"
    and "state c1 = state c" and "store c1 = store c" and "stateRevision c1 = stateRevision c"
  using assms
  by (auto simp: persistenceDue_def nextPersistenceRetryAction_def Let_def case_prod_beta
      time_before_def persistenceRetryMatchesLocked_def)

lemma nextPersistenceRetryAction_claimed_iff:
  "pa_claimed (fst (nextPersistenceRetryAction now c)) \<longleftrightarrow> persistenceDue now c"
  by (auto simp: persistenceDue_def nextPersistenceRetryAction_def Let_def case_prod_beta
      time_before_def idlePersistenceAction_def)

lemma unat_saturatingInc: "unat (saturatingInc n) = min (unat n + 1) (2 ^ 64 - 1)"
proof (cases "n < - 1")
  case True
  have "unat (n + 1) = unat n + 1" using True by (rule unat_plus_one)
  moreover have "unat n < 2 ^ 64 - 1"
    using True by (simp add: word_less_nat_alt unsigned_minus_1_eq_mask mask_eq_exp_minus_1)
  ultimately show ?thesis using True by (simp add: saturatingInc_def)
next
  case False
  then have "n = - 1" using word_order.not_eq_extremum by blast
  then show ?thesis by (simp add: saturatingInc_def unsigned_minus_1_eq_mask mask_eq_exp_minus_1)
qed

text \<open>
  The retry delay after \<open>n\<close> failures is one second doubled \<open>n - 1\<close> times, capped at
  one minute.
\<close>

lemma persistence_delay_closed_form:
  "persistenceRetryDelay fails = min minute (2 ^ (unat fails - 1) * second) \<and>
   second \<le> persistenceRetryDelay fails \<and> persistenceRetryDelay fails \<le> minute"
proof -
  have "(1 :: int) \<le> 2 ^ (unat fails - 1)" by simp
  then have "second \<le> 2 ^ (unat fails - 1) * second" by (simp add: second_def)
  then show ?thesis unfolding persistenceRetryDelay_eq by (simp add: minute_def second_def)
qed

text \<open>
  A retry is claimed exactly when it is due; when its \<open>Save\<close> fails again the pending
  record stays, and the next claim comes no earlier than the capped exponential delay after
  the failure. The in-memory generation and the events are untouched.
\<close>

lemma persistence_retry_backoff:
  assumes "nextPersistenceRetryAction now c = (a, c1)" and "pa_claimed a"
    and "Save ops (state c) (store c) = (Some err, s)"
    and "c2 = retryPersistence ops None a t c1"
  shows "persistenceDue now c \<and> pr_valid (persistenceRetry c2) \<and>
         (pa_claimed (fst (nextPersistenceRetryAction now' c2)) \<longleftrightarrow>
            t_ns t + min minute
              (2 ^ (min (unat (failures (persistenceRetry c)) + 1) (2 ^ 64 - 1) - 1) * second)
            \<le> t_ns now') \<and>
         state c2 = state c \<and> stateRevision c2 = stateRevision c \<and> eventHistory c2 = eventHistory c1"
proof -
  have due: "persistenceDue now c"
    using assms(1,2) nextPersistenceRetryAction_claimed_iff by (metis fst_conv)
  note cl = nextPersistenceRetryAction_claims [OF due assms(1)]
  let ?fails = "saturatingInc (failures (persistenceRetry c))"
  have matches: "persistenceRetryMatchesLocked a (c1\<lparr>store := s\<rparr>)"
    using cl(2) by (simp add: persistenceRetryMatchesLocked_def)
  have pr: "persistenceRetry c2 = (persistenceRetry c)
      \<lparr>failures := ?fails, retryAt := time_add t (persistenceRetryDelay ?fails), pr_claimID := 0\<rparr>"
    unfolding assms(4) retryPersistence_def
    using cl matches assms(3) by (simp add: finishPersistenceRetry_def Let_def)
  have fr: "state c2 = state c" "stateRevision c2 = stateRevision c" "eventHistory c2 = eventHistory c1"
    using cl(5,7) by (simp_all add: assms(4) eventHistory_def)
  have "persistenceDue now' c2 \<longleftrightarrow> t_ns t + persistenceRetryDelay ?fails \<le> t_ns now'"
    using due fr by (simp add: persistenceDue_def pr)
  with due fr show ?thesis
    by (simp add: nextPersistenceRetryAction_claimed_iff persistenceRetryDelay_eq
        unat_saturatingInc persistenceDue_def pr)
qed

section \<open>Recovery over any store that keeps the contract\<close>

context persistence_contract
begin

lemma retry_durable:
  assumes "wfs (store c)" and "persistenceRetryMatchesLocked a c"
    and "storable (state c)"
    and "Save ops (state c) (store c) = (None, s)"
  shows "store (retryPersistence ops None a t c) = s"
    and "persistenceRetry (retryPersistence ops None a t c) = zeroPersistenceRetry"
    and "wfs s"
    and "Load ops s = Inr ts \<Longrightarrow> sameTokenState (state c) ts"
proof -
  have "persistenceRetryMatchesLocked a (c\<lparr>store := s\<rparr>)"
    using assms(2) by (simp add: persistenceRetryMatchesLocked_def)
  then show "store (retryPersistence ops None a t c) = s"
    and "persistenceRetry (retryPersistence ops None a t c) = zeroPersistenceRetry"
    using assms(2,4) by (simp_all add: retryPersistence_def finishPersistenceRetry_def)
  show "wfs s" using save_wf [OF assms(1), of "state c"] assms(4) by simp
  show "Load ops s = Inr ts \<Longrightarrow> sameTokenState (state c) ts"
    by (rule save_load [OF assms(1,3,4)])
qed

end

text \<open>
  C30: once a due retry's \<open>Save\<close> succeeds, nothing is pending any more and what the store
  returns afterwards is the committed in-memory generation, for every store that keeps the
  \<open>TokenPersistence\<close> contract; the generation and the event history are unchanged.
\<close>

theorem persistence_retry_recovers:
  assumes "persistence_contract ops wfs storable" and "wfs (store c)" and "storable (state c)"
    and "persistenceDue now c"
    and "nextPersistenceRetryAction now c = (a, c1)"
    and "Save ops (state c) (store c) = (None, s)"
    and "c2 = retryPersistence ops None a t c1"
  shows "\<not> pr_valid (persistenceRetry c2) \<and> wfs (store c2) \<and>
         (\<forall>ts. Load ops (store c2) = Inr ts \<longrightarrow> sameTokenState (state c) ts) \<and>
         state c2 = state c \<and> stateRevision c2 = stateRevision c \<and>
         eventHistory c2 = eventHistory c1"
proof -
  note cl = nextPersistenceRetryAction_claims [OF assms(4,5)]
  have wf1: "wfs (store c1)" using assms(2) cl(6) by simp
  have st1: "storable (state c1)" using assms(3) cl(5) by simp
  have save1: "Save ops (state c1) (store c1) = (None, s)" using assms(6) cl(5,6) by simp
  note d = persistence_contract.retry_durable [OF assms(1) wf1 cl(2) st1 save1]
  show ?thesis using d cl(5,7) by (auto simp: assms(7) eventHistory_def)
qed

theorem persistence_retry_recovers_witness:
  "\<not> pr_valid (persistenceRetry (retryPersistence memoryStore None
       (fst (nextPersistenceRetryAction (atSec 5) (sampleClient\<lparr>persistenceRetry :=
          \<lparr>pr_valid = True, pr_revision = 7, failures = 1, retryAt = atSec 4, pr_claimID = 0\<rparr>\<rparr>)))
       (atSec 6)
       (snd (nextPersistenceRetryAction (atSec 5) (sampleClient\<lparr>persistenceRetry :=
          \<lparr>pr_valid = True, pr_revision = 7, failures = 1, retryAt = atSec 4, pr_claimID = 0\<rparr>\<rparr>)))))"
proof -
  let ?c = "sampleClient\<lparr>persistenceRetry :=
      \<lparr>pr_valid = True, pr_revision = 7, failures = 1, retryAt = atSec 4, pr_claimID = 0\<rparr>\<rparr>"
  have due: "persistenceDue (atSec 5) ?c" by code_simp
  show ?thesis
    using persistence_retry_recovers [OF memory.persistence_contract_axioms _ _ due
        prod.collapse [symmetric] memoryStore_simps(1) refl] by simp
qed

lemma eventHistory_record [simp]:
  "eventHistory (recordPersistenceSaveResult rv e t c) = eventHistory c"
  by (simp add: eventHistory_def)

end
