(* ===== verification/Base64.thy ===== *)
theory Base64
  imports Go_Prelude
begin

text \<open>
  Go's \<open>base64.RawURLEncoding\<close> (RFC 4648 section 5 without padding), which the library uses
  to render random states and to read the payload segment of an ID token. Bytes are
  characters. The decoder skips carriage returns and line feeds, as Go's does.
\<close>

text \<open>The alphabet: upper case, lower case, digits, hyphen, underscore.\<close>

definition enc6 :: "nat \<Rightarrow> char" where
  "enc6 n =
     (if n < 26 then char_of (65 + n)
      else if n < 52 then char_of (71 + n)
      else if n < 62 then char_of (n - 4)
      else if n = 62 then CHR ''-'' else CHR ''_'')"

definition dec6 :: "char \<Rightarrow> nat option" where
  "dec6 ch =
     (let n = of_char ch :: nat
      in if 65 \<le> n \<and> n \<le> 90 then Some (n - 65)
         else if 97 \<le> n \<and> n \<le> 122 then Some (n - 71)
         else if 48 \<le> n \<and> n \<le> 57 then Some (n + 4)
         else if n = 45 then Some 62
         else if n = 95 then Some 63
         else None)"

abbreviation byte :: "char \<Rightarrow> nat" where "byte ch \<equiv> of_char ch"

fun encodeToString :: "string \<Rightarrow> string" where
  "encodeToString [] = []"
| "encodeToString [a] = [enc6 (byte a div 4), enc6 (byte a mod 4 * 16)]"
| "encodeToString [a, b] =
     [enc6 (byte a div 4), enc6 (byte a mod 4 * 16 + byte b div 16), enc6 (byte b mod 16 * 4)]"
| "encodeToString (a # b # c # bs) =
     enc6 (byte a div 4) # enc6 (byte a mod 4 * 16 + byte b div 16) #
     enc6 (byte b mod 16 * 4 + byte c div 64) # enc6 (byte c mod 64) # encodeToString bs"

fun decodeQuads :: "nat list \<Rightarrow> string option" where
  "decodeQuads [] = Some []"
| "decodeQuads [w] = None"
| "decodeQuads [w, x] = Some [char_of (w * 4 + x div 16)]"
| "decodeQuads [w, x, y] = Some [char_of (w * 4 + x div 16), char_of (x mod 16 * 16 + y div 4)]"
| "decodeQuads (w # x # y # z # ns) =
     (case decodeQuads ns of
        None \<Rightarrow> None
      | Some bs \<Rightarrow>
          Some (char_of (w * 4 + x div 16) # char_of (x mod 16 * 16 + y div 4) #
                char_of (y mod 4 * 64 + z) # bs))"

definition decodeString :: "string \<Rightarrow> string option" where
  "decodeString s =
     (let digits = map dec6 (filter (\<lambda>ch. ch \<noteq> CHR 0x0A \<and> ch \<noteq> CHR 0x0D) s)
      in if None \<in> set digits then None else decodeQuads (map the digits))"

lemma byte_less [simp]: "byte ch < 256"
  by (cases ch) simp

lemma byte_div [simp]:
  "byte b div 16 div 16 = 0" "byte b div 16 mod 16 = byte b div 16"
  "byte c div 64 div 4 = 0" "byte c div 64 mod 4 = byte c div 64"
proof -
  have "byte b div 16 < 16" "byte c div 64 < 4"
    using byte_less [of b] byte_less [of c] by linarith+
  then show "byte b div 16 div 16 = 0" "byte b div 16 mod 16 = byte b div 16"
    "byte c div 64 div 4 = 0" "byte c div 64 mod 4 = byte c div 64"
    by simp_all
qed

definition urlSafe :: "char \<Rightarrow> bool" where
  "urlSafe ch \<longleftrightarrow> dec6 ch \<noteq> None"

lemma dec6_enc6 [simp]: "n < 64 \<Longrightarrow> dec6 (enc6 n) = Some n"
  by (auto simp: dec6_def enc6_def Let_def)

lemma urlSafe_not_newline: "urlSafe ch \<Longrightarrow> ch \<noteq> CHR 0x0A \<and> ch \<noteq> CHR 0x0D"
  by (auto simp: urlSafe_def dec6_def)

lemma length_encode: "length (encodeToString bs) = (length bs * 8 + 5) div 6"
  by (induction bs rule: encodeToString.induct) auto

fun sextets :: "string \<Rightarrow> nat list" where
  "sextets [] = []"
| "sextets [a] = [byte a div 4, byte a mod 4 * 16]"
| "sextets [a, b] = [byte a div 4, byte a mod 4 * 16 + byte b div 16, byte b mod 16 * 4]"
| "sextets (a # b # c # bs) =
     byte a div 4 # (byte a mod 4 * 16 + byte b div 16) #
     (byte b mod 16 * 4 + byte c div 64) # (byte c mod 64) # sextets bs"

lemma sextet_less:
  "byte a div 4 < 64" "byte a mod 4 * 16 < 64" "byte b mod 16 * 4 < 64"
  "byte a mod 4 * 16 + byte b div 16 < 64" "byte b mod 16 * 4 + byte c div 64 < 64"
proof -
  have "byte b div 16 < 16" "byte c div 64 < 4" "byte a div 4 < 64"
    using byte_less [of a] byte_less [of b] byte_less [of c] by linarith+
  moreover have "byte a mod 4 < 4" "byte b mod 16 < 16" by simp_all
  ultimately show "byte a div 4 < 64" "byte a mod 4 * 16 < 64" "byte b mod 16 * 4 < 64"
    "byte a mod 4 * 16 + byte b div 16 < 64" "byte b mod 16 * 4 + byte c div 64 < 64"
    by linarith+
qed

lemma map_dec6_encode: "map dec6 (encodeToString bs) = map Some (sextets bs)"
  by (induction bs rule: encodeToString.induct) (simp_all add: sextet_less)

lemma encode_urlSafe: "list_all urlSafe (encodeToString bs)"
proof -
  have "\<forall>x \<in> set (map dec6 (encodeToString bs)). x \<noteq> None"
    unfolding map_dec6_encode by auto
  then show ?thesis by (auto simp: list_all_iff urlSafe_def)
qed

lemma decodeQuads_sextets: "decodeQuads (sextets bs) = Some bs"
  by (induction bs rule: sextets.induct) simp_all

lemma decode_encode: "decodeString (encodeToString bs) = Some bs"
proof -
  have "filter (\<lambda>ch. ch \<noteq> CHR 0x0A \<and> ch \<noteq> CHR 0x0D) (encodeToString bs) = encodeToString bs"
    using encode_urlSafe [of bs] urlSafe_not_newline
    by (simp add: filter_id_conv list_all_iff)
  then show ?thesis
    by (auto simp: decodeString_def Let_def map_dec6_encode comp_def decodeQuads_sextets)
qed

lemma encode_inj: "encodeToString a = encodeToString b \<Longrightarrow> a = b"
  by (metis decode_encode option.inject)

end
