(* ===== verification/Claims.thy ===== *)
theory Claims
  imports Complex_Main Sample_Client Base64
begin

text \<open>
  ID-token claims (\<open>claims.go\<close>) and the authorized-party check (\<open>verify.go\<close>). A claim
  set is the decoded JSON object; numbers are the rational value of the float64 that
  \<open>encoding/json\<close> yields. The JSON decoder itself is the parameter \<open>unmarshal\<close>, and the
  signature check of \<open>go-oidc\<close> the parameter \<open>verify\<close>.
\<close>

datatype json =
    JNull
  | JBool bool
  | JNum rat
  | JStr string
  | JArr "json list"
  | JObj "(string \<times> json) list"

type_synonym claim_set = "(string \<times> json) list"

section \<open>claims.go\<close>

record claims =
  Subject :: string
  Name :: string
  GivenName :: string
  FamilyName :: string
  PreferredUsername :: string
  Email :: string
  EmailVerified :: bool
  Issuer :: string
  Audience :: "string list"
  cl_ExpiresAt :: gotime
  cl_IssuedAt :: gotime
  cl_AuthTime :: gotime
  Raw :: claim_set

definition Claims_Get :: "claims \<Rightarrow> string \<Rightarrow> json option" where
  "Claims_Get c name = map_of (Raw c) name"

definition stringClaim :: "claim_set \<Rightarrow> string \<Rightarrow> string" where
  "stringClaim m key = (case map_of m key of Some (JStr v) \<Rightarrow> v | _ \<Rightarrow> '''')"

definition boolClaim :: "claim_set \<Rightarrow> string \<Rightarrow> bool" where
  "boolClaim m key = (case map_of m key of Some (JBool v) \<Rightarrow> v | _ \<Rightarrow> False)"

fun stringItems :: "json list \<Rightarrow> string list" where
  "stringItems [] = []"
| "stringItems (JStr s # items) = s # stringItems items"
| "stringItems (_ # items) = stringItems items"

definition audienceClaim :: "claim_set \<Rightarrow> string \<Rightarrow> string list" where
  "audienceClaim m key =
     (case map_of m key of
        Some (JStr v) \<Rightarrow> [v]
      | Some (JArr v) \<Rightarrow> stringItems v
      | _ \<Rightarrow> [])"

text \<open>
  \<open>int64(v)\<close> truncates towards zero; \<open>time.Unix\<close> counts from 1970, which is
  62135596800 seconds after the zero time. The result is in UTC, the zero representation.
\<close>

definition truncToInt :: "rat \<Rightarrow> int" where
  "truncToInt v = (if 0 \<le> v then \<lfloor>v\<rfloor> else \<lceil>v\<rceil>)"

definition unixToInternal :: int where "unixToInternal = 62135596800"

definition timeClaim :: "claim_set \<Rightarrow> string \<Rightarrow> gotime" where
  "timeClaim m key =
     (case map_of m key of
        Some (JNum v) \<Rightarrow> \<lparr>t_ns = (truncToInt v + unixToInternal) * second, t_rep = 0\<rparr>
      | _ \<Rightarrow> zeroTime)"

definition claimsOf :: "claim_set \<Rightarrow> claims" where
  "claimsOf m =
     \<lparr>Subject = stringClaim m ''sub'',
      Name = stringClaim m ''name'',
      GivenName = stringClaim m ''given_name'',
      FamilyName = stringClaim m ''family_name'',
      PreferredUsername = stringClaim m ''preferred_username'',
      Email = stringClaim m ''email'',
      EmailVerified = boolClaim m ''email_verified'',
      Issuer = stringClaim m ''iss'',
      Audience = audienceClaim m ''aud'',
      cl_ExpiresAt = timeClaim m ''exp'',
      cl_IssuedAt = timeClaim m ''iat'',
      cl_AuthTime = timeClaim m ''auth_time'',
      Raw = m\<rparr>"

definition DecodeIDToken :: "(string \<Rightarrow> claim_set result) \<Rightarrow> string \<Rightarrow> claims result" where
  "DecodeIDToken unmarshal raw =
     (let parts = splitOn CHR ''.'' raw
      in if length parts \<noteq> 3
         then Inl (Errorf [Txt ''pkceflow: malformed ID token: expected 3 JWT segments''])
         else case decodeString (parts ! 1) of
                None \<Rightarrow> Inl (Errorf [Txt ''pkceflow: decoding ID token payload: '',
                                     Wrapped (OtherError ''illegal base64 data'')])
              | Some payload \<Rightarrow>
                  (case unmarshal payload of
                     Inl e \<Rightarrow> Inl (Errorf [Txt ''pkceflow: parsing ID token claims: '', Wrapped e])
                   | Inr claimSet \<Rightarrow> Inr (claimsOf claimSet)))"

definition Client_Claims :: "(string \<Rightarrow> claim_set result) \<Rightarrow> 's client \<Rightarrow> claims result" where
  "Client_Claims unmarshal c =
     (let idToken = IDToken (state c)
      in if idToken = '''' then Inl ErrNotAuthenticated else DecodeIDToken unmarshal idToken)"

section \<open>verify.go\<close>

record oidc_idtoken =
  it_Subject :: string
  it_Audience :: "string list"
  it_Nonce :: string
  it_Claims :: "claim_set result"

definition checkAuthorizedParty :: "string \<Rightarrow> claim_set \<Rightarrow> string list \<Rightarrow> goerror option" where
  "checkAuthorizedParty clientID claims audience =
     (case map_of claims ''azp'' of
        None \<Rightarrow>
          if length audience > 1
          then Some (Errorf [Wrapped errAzpMismatch, Txt '': multiple audiences require azp''])
          else None
      | Some (JStr azp) \<Rightarrow>
          if azp \<noteq> clientID
          then Some (Errorf [Wrapped errAzpMismatch, Txt '': azp names another client''])
          else None
      | Some _ \<Rightarrow> Some (Errorf [Wrapped errAzpMismatch, Txt '': azp is not a string'']))"

definition verifyIDToken ::
  "string \<Rightarrow> (string \<Rightarrow> oidc_idtoken result) \<Rightarrow> string \<Rightarrow> oidc_idtoken result" where
  "verifyIDToken clientID verify raw =
     (case verify raw of
        Inl e \<Rightarrow> Inl e
      | Inr idToken \<Rightarrow>
          (case it_Claims idToken of
             Inl e \<Rightarrow> Inl (Errorf [Txt ''pkceflow: reading ID token claims: '', Wrapped e])
           | Inr claims \<Rightarrow>
               (case checkAuthorizedParty clientID claims (it_Audience idToken) of
                  Some e \<Rightarrow> Inl e
                | None \<Rightarrow> Inr idToken)))"

section \<open>Lemmas\<close>

lemma stringItems_eq: "stringItems js = [s. JStr s \<leftarrow> js]"
  by (induction js rule: stringItems.induct) auto

lemma checkAuthorizedParty_None_iff:
  "checkAuthorizedParty clientID claims audience = None \<longleftrightarrow>
     map_of claims ''azp'' = Some (JStr clientID) \<or>
     map_of claims ''azp'' = None \<and> length audience \<le> 1"
  by (auto simp: checkAuthorizedParty_def split: option.split json.split)

lemma verifyIDToken_Inr:
  assumes "verifyIDToken clientID verify raw = Inr tok"
  shows "verify raw = Inr tok"
    and "\<exists>claims. it_Claims tok = Inr claims \<and>
           checkAuthorizedParty clientID claims (it_Audience tok) = None"
  using assms by (auto simp: verifyIDToken_def split: sum.splits option.splits)

text \<open>The compact serialization the decoder reads: three dot-separated segments.\<close>

definition jwtCompact :: "string \<Rightarrow> string \<Rightarrow> string \<Rightarrow> string" where
  "jwtCompact header payload sig = header @ ''.'' @ encodeToString payload @ ''.'' @ sig"

lemma encode_no_dot: "CHR ''.'' \<notin> set (encodeToString bs)"
proof -
  have "\<not> urlSafe (CHR ''.'')" by (simp add: urlSafe_def dec6_def)
  then show ?thesis using encode_urlSafe [of bs] by (auto simp: list_all_iff)
qed

lemma split_jwtCompact:
  assumes "CHR ''.'' \<notin> set header" and "CHR ''.'' \<notin> set sig"
  shows "splitOn CHR ''.'' (jwtCompact header payload sig) = [header, encodeToString payload, sig]"
  using assms encode_no_dot [of payload]
  by (simp add: jwtCompact_def splitOn_append_sep splitOn_no_sep)

lemma DecodeIDToken_jwtCompact:
  assumes "CHR ''.'' \<notin> set header" and "CHR ''.'' \<notin> set sig"
  shows "DecodeIDToken unmarshal (jwtCompact header payload sig) =
           (case unmarshal payload of
              Inl e \<Rightarrow> Inl (Errorf [Txt ''pkceflow: parsing ID token claims: '', Wrapped e])
            | Inr m \<Rightarrow> Inr (claimsOf m))"
  using assms by (simp add: DecodeIDToken_def split_jwtCompact decode_encode)
end
