(* ===== verification/Refresh.thy ===== *)
theory Refresh
  imports Persistence Claims
begin

text \<open>
  Token refresh (\<open>refresh.go\<close>): the request and the validation of its response, the commit
  of a new generation, the commit of a refused one, and the sharing of one attempt between
  concurrent callers.

  The token endpoint (\<open>oauth2.TokenSource\<close>), the ID-token verifier and the JSON decoder are
  parameters. What other goroutines do to the client while an operation holds no lock is a
  parameter too, a function on clients applied at that point. A section under
  \<open>stateCommitMu\<close> is one step: every writer of the token state takes that lock.
\<close>

section \<open>Token responses\<close>

record oauth2_token =
  tk_AccessToken :: string
  tk_RefreshToken :: string
  tk_Expiry :: gotime
  tk_Extra :: claim_set

text \<open>The type assertion \<open>token.Extra(key).(string)\<close>, which yields the empty string otherwise.\<close>

definition extraString :: "oauth2_token \<Rightarrow> string \<Rightarrow> string" where
  "extraString tok key = (case map_of (tk_Extra tok) key of Some (JStr v) \<Rightarrow> v | _ \<Rightarrow> '''')"

record 's refreshEnv =
  re_token :: "oauth2_config \<Rightarrow> string \<Rightarrow> goerror + oauth2_token"
  re_verify :: "nat \<Rightarrow> string \<Rightarrow> goerror + oidc_idtoken"
  re_unmarshal :: "string \<Rightarrow> goerror + claim_set"
  re_during :: "'s client \<Rightarrow> 's client"
  re_now :: gotime
  re_nowSaved :: gotime
  re_beforeRefusal :: "'s client \<Rightarrow> 's client"
  re_nowRefusal :: gotime
  re_beforeFinish :: "'s client \<Rightarrow> 's client"
  re_nowFinish :: gotime

section \<open>Performing a refresh\<close>

definition refreshFailure :: "uint64 \<Rightarrow> goerror \<Rightarrow> 's client \<Rightarrow> token_state \<times> goerror option" where
  "refreshFailure rv err c =
     (if stateRevision c \<noteq> rv then (state c, None) else (zeroTokenState, Some err))"

text \<open>
  The ID token of the next generation: the current one when the response carries none,
  otherwise the new one if it verifies and names the current subject.
\<close>

definition refreshedIDToken ::
  "(string \<Rightarrow> goerror + claim_set) \<Rightarrow> (string \<Rightarrow> goerror + oidc_idtoken) \<Rightarrow> string \<Rightarrow>
   token_state \<Rightarrow> oauth2_token \<Rightarrow> goerror + string" where
  "refreshedIDToken unmarshal verify clientID snapshot newToken =
     (let idToken = extraString newToken ''id_token''
      in if idToken = '''' then Inr (IDToken snapshot)
         else case verifyIDToken clientID verify idToken of
           Inl err \<Rightarrow> Inl (newSessionIntegrityError ''refreshed ID token validation failed'' (Some err))
         | Inr verified \<Rightarrow>
             (if it_Subject verified = ''''
              then Inl (newSessionIntegrityError ''refreshed ID token subject is empty'' None)
              else if IDToken snapshot = ''''
              then Inl (newSessionIntegrityError ''current ID token unavailable during refresh'' None)
              else case DecodeIDToken unmarshal (IDToken snapshot) of
                Inl err \<Rightarrow>
                  Inl (newSessionIntegrityError
                         ''current ID token claims unavailable during refresh'' (Some err))
              | Inr claims \<Rightarrow>
                  (if Subject claims = ''''
                   then Inl (newSessionIntegrityError
                               ''current ID token subject is empty during refresh'' None)
                   else if it_Subject verified \<noteq> Subject claims
                   then Inl (newSessionIntegrityError ''refreshed ID token subject changed'' None)
                   else Inr idToken)))"

text \<open>The commit section of \<open>performRefresh\<close>.\<close>

definition commitRefresh ::
  "'s token_persistence \<Rightarrow> token_state \<Rightarrow> uint64 \<Rightarrow> gotime \<Rightarrow> 's client \<Rightarrow>
   (token_state \<times> bool \<times> goerror option) \<times> 's client" where
  "commitRefresh ops newState rv nowSaved c =
     (if stateRevision c \<noteq> rv then ((state c, False, None), c)
      else let c = advanceStateLocked newState c;
               committedRevision = stateRevision c;
               (persistErr, s) = Save ops newState (store c);
               c = recordPersistenceSaveResult committedRevision persistErr nowSaved (c\<lparr>store := s\<rparr>);
               (shouldDrain, c) = enqueueEvent (nilEvent EventTokenRefreshed) c
           in ((newState, shouldDrain, None), c))"

definition performRefresh ::
  "'s token_persistence \<Rightarrow> 's refreshEnv \<Rightarrow> token_state \<Rightarrow> uint64 \<Rightarrow> 's client \<Rightarrow>
   (token_state \<times> bool \<times> goerror option) \<times> 's client" where
  "performRefresh ops env snapshot rv c =
     (case oauth2 c of
        None \<Rightarrow> ((zeroTokenState, False, Some ErrNotInitialized), c)
      | Some oauthCfg \<Rightarrow>
          (case verifier c of
             None \<Rightarrow> ((zeroTokenState, False, Some ErrNotInitialized), c)
           | Some v \<Rightarrow>
               (let fail = (\<lambda>err c. let (st, e) = refreshFailure rv err c in ((st, False, e), c));
                    clientID = ClientID (config c);
                    c = re_during env c
                in case re_token env oauthCfg (RefreshToken snapshot) of
                     Inl err \<Rightarrow>
                       fail (Errorf [Txt ''pkceflow: token refresh failed: '', Wrapped (asAuthError err)]) c
                   | Inr newToken \<Rightarrow>
                       (let refreshToken = (if tk_RefreshToken newToken = '''' then RefreshToken snapshot
                                            else tk_RefreshToken newToken)
                        in case refreshedIDToken (re_unmarshal env) (re_verify env v) clientID
                                  snapshot newToken of
                             Inl err \<Rightarrow> fail err c
                           | Inr idToken \<Rightarrow>
                               commitRefresh ops
                                 \<lparr>AccessToken = tk_AccessToken newToken, RefreshToken = refreshToken,
                                  IDToken = idToken, ExpiresAt = tk_Expiry newToken,
                                  LastAuthAt = re_now env\<rparr>
                                 rv (re_nowSaved env) c))))"

section \<open>Committing a refusal\<close>

definition supersededRefreshToken :: "token_state \<Rightarrow> token_state \<Rightarrow> bool" where
  "supersededRefreshToken persisted attempted \<longleftrightarrow>
     RefreshToken persisted \<noteq> '''' \<and> RefreshToken persisted \<noteq> RefreshToken attempted \<and>
     time_after (LastAuthAt persisted) (LastAuthAt attempted)"

definition refusedState :: "token_state \<Rightarrow> token_state" where
  "refusedState snapshot = zeroTokenState\<lparr>IDToken := IDToken snapshot\<rparr>"

definition commitCredentialRefusal ::
  "'s token_persistence \<Rightarrow> refreshAttemptRec \<Rightarrow> goerror option \<Rightarrow> gotime \<Rightarrow> 's client \<Rightarrow>
   bool \<times> 's client" where
  "commitCredentialRefusal ops attempt refreshErr now c =
     (if \<not> (case refreshErr of None \<Rightarrow> False | Some e \<Rightarrow> isCredentialRefusedError e) then (False, c)
      else if stateRevision c \<noteq> at_revision attempt then (False, c)
      else if refreshInconclusiveLocked (at_revision attempt) c then (False, c)
      else if (case Load ops (store c) of
                 Inl loadErr \<Rightarrow> False
               | Inr persisted \<Rightarrow> supersededRefreshToken persisted (at_snapshot attempt))
      then (False, c)
      else let refused = refusedState (at_snapshot attempt);
               c = advanceStateLocked refused c;
               committedRevision = stateRevision c;
               (persistErr, s) = Save ops refused (store c);
               c = recordPersistenceSaveResult committedRevision persistErr now (c\<lparr>store := s\<rparr>)
           in enqueueEvent (nilEvent EventSessionExpired) c)"

section \<open>Attempts\<close>

definition updAttempt :: "nat \<Rightarrow> (refreshAttemptRec \<Rightarrow> refreshAttemptRec) \<Rightarrow> 's client \<Rightarrow> 's client" where
  "updAttempt p f c = c\<lparr>attempts := (attempts c)(p := map_option f (attempts c p))\<rparr>"

text \<open>\<open>attempt.ctx.Err()\<close>: the attempt's context is detached from its caller's cancellation.\<close>

definition at_ctxErr :: "refreshAttemptRec \<Rightarrow> ctx_err option" where
  "at_ctxErr att = (if at_cancelled att then Some Canceled else None)"

definition finishRefreshAttempt ::
  "nat \<Rightarrow> token_state \<Rightarrow> goerror option \<Rightarrow> gotime \<Rightarrow> 's client \<Rightarrow> 's client" where
  "finishRefreshAttempt p st err now c =
     (case attempts c p of
        None \<Rightarrow> c
      | Some attempt \<Rightarrow>
          (let c = (case err of
                      None \<Rightarrow> c
                    | Some e \<Rightarrow>
                        if isSessionIntegrityError e
                        then blockRefreshIntegrityLocked (at_revision attempt) now c
                        else if IsPermanentError e
                        then blockRefreshPermanentLocked (at_revision attempt) (at_snapshot attempt) now c
                        else if at_ctxErr attempt \<noteq> None \<and> as_AuthError e = None
                        then markRefreshInconclusiveLocked (at_revision attempt) c
                        else c);
               c = updAttempt p (\<lambda>a. a\<lparr>at_state := st, at_err := err\<rparr>) c;
               c = (if refreshAttempt c = Some p then c\<lparr>refreshAttempt := None\<rparr> else c)
           in updAttempt p (\<lambda>a. a\<lparr>at_cancelled := True, at_done := True\<rparr>) c))"

definition runRefreshAttempt ::
  "'s token_persistence \<Rightarrow> 's refreshEnv \<Rightarrow> nat \<Rightarrow> 's client \<Rightarrow> 's client" where
  "runRefreshAttempt ops env p c =
     (case attempts c p of
        None \<Rightarrow> c
      | Some attempt \<Rightarrow>
          (let ((st, shouldDrain, refreshErr), c) =
                 performRefresh ops env (at_snapshot attempt) (at_revision attempt) c;
               c = re_beforeRefusal env c;
               (refusalDrain, c) =
                 commitCredentialRefusal ops attempt refreshErr (re_nowRefusal env) c;
               shouldDrain = (if refusalDrain then True else shouldDrain);
               c = re_beforeFinish env c;
               c = finishRefreshAttempt p st refreshErr (re_nowFinish env) c;
               c = drainIf shouldDrain c
           in updAttempt p (\<lambda>a. a\<lparr>at_complete := True\<rparr>) c))"

text \<open>
  One pass of the loop in \<open>beginRefreshAttempt\<close>: it returns without an attempt, starts one,
  joins the active one, or waits for the active one to be done.
\<close>

datatype beginResult =
    BeginReturn token_state "goerror option"
  | BeginLeader nat
  | BeginJoined nat
  | BeginWait nat

definition newAttempt :: "uint64 \<Rightarrow> token_state \<Rightarrow> refreshAttemptRec" where
  "newAttempt rv snapshot =
     \<lparr>at_revision = rv, at_snapshot = snapshot, at_cancelled = False, participants = 1,
      at_done = False, at_complete = False, at_state = zeroTokenState, at_err = None\<rparr>"

definition scheduleAdmits :: "uint64 \<Rightarrow> 's client \<Rightarrow> bool" where
  "scheduleAdmits claimID c \<longleftrightarrow>
     sc_valid (refreshSchedule c) \<and> sc_revision (refreshSchedule c) = stateRevision c \<and>
     sc_claimID (refreshSchedule c) = claimID \<and> disposition (refreshSchedule c) = refreshLoopActive"

definition beginRefreshAttempt_pass ::
  "token_state \<Rightarrow> uint64 option \<Rightarrow> uint64 \<Rightarrow> gotime \<Rightarrow> 's client \<Rightarrow> beginResult \<times> 's client" where
  "beginRefreshAttempt_pass snapshot expectedRevision expectedClaimID now c =
     (if (case expectedRevision of None \<Rightarrow> False | Some rv \<Rightarrow> stateRevision c \<noteq> rv)
      then (BeginReturn (state c) None, c)
      else if state c \<noteq> snapshot then (BeginReturn (state c) None, c)
      else if refreshIntegrityBlockedLocked c
      then (BeginReturn (state c)
              (Some (newSessionIntegrityError
                       ''token generation is blocked after an integrity failure'' None)), c)
      else if refreshPermanentlyBlockedLocked c
      then (BeginReturn (state c) (Some errRefreshPermanentlyBlocked), c)
      else if expectedClaimID \<noteq> 0 \<and> \<not> scheduleAdmits expectedClaimID c
      then (BeginReturn (state c) None, c)
      else if expectedClaimID \<noteq> 0 \<and> \<not> time_before now (ExpiresAt snapshot)
      then (BeginReturn (state c) (Some errScheduledRefreshExpired), c)
      else if oauth2 c = None \<or> verifier c = None
      then (BeginReturn zeroTokenState (Some ErrNotInitialized), c)
      else case refreshAttempt c of
        None \<Rightarrow>
          (let p = nextPtr c
           in (BeginLeader p,
               c\<lparr>attempts := (attempts c)(p \<mapsto> newAttempt (stateRevision c) snapshot),
                 nextPtr := p + 1, refreshAttempt := Some p\<rparr>))
      | Some p \<Rightarrow>
          (case attempts c p of
             None \<Rightarrow> (BeginWait p, c)
           | Some active \<Rightarrow>
               if at_revision active = stateRevision c \<and> participants active > 0
               then (BeginJoined p, updAttempt p (\<lambda>a. a\<lparr>participants := participants a + 1\<rparr>) c)
               else (BeginWait p, c)))"

text \<open>
  What ends a wait, with what the others did to the client meanwhile and the clock
  afterwards. A call whose list of waits is used up is still waiting.
\<close>

datatype waitOutcome = AttemptClosed | CallerDone ctx_err

type_synonym 's wait = "('s client \<Rightarrow> 's client) \<times> waitOutcome \<times> gotime"

fun beginRefreshAttempt_loop ::
  "token_state \<Rightarrow> uint64 option \<Rightarrow> uint64 \<Rightarrow> gotime \<Rightarrow> 's wait list \<Rightarrow> 's client \<Rightarrow>
   beginResult \<times> 's client" where
  "beginRefreshAttempt_loop snapshot er cid now [] c = beginRefreshAttempt_pass snapshot er cid now c"
| "beginRefreshAttempt_loop snapshot er cid now ((others, outcome, now') # ws) c =
     (case beginRefreshAttempt_pass snapshot er cid now c of
        (BeginWait p, c) \<Rightarrow>
          (case outcome of
             AttemptClosed \<Rightarrow> beginRefreshAttempt_loop snapshot er cid now' ws (others c)
           | CallerDone e \<Rightarrow> (BeginReturn zeroTokenState (Some (CtxErr e)), others c))
      | res \<Rightarrow> res)"

definition beginRefreshAttempt ::
  "ctx_err option \<Rightarrow> token_state \<Rightarrow> uint64 option \<Rightarrow> uint64 \<Rightarrow> gotime \<Rightarrow> 's wait list \<Rightarrow>
   's client \<Rightarrow> beginResult \<times> 's client" where
  "beginRefreshAttempt ctxErr snapshot expectedRevision expectedClaimID now ws c =
     (case ctxErr of
        Some e \<Rightarrow> (BeginReturn zeroTokenState (Some (CtxErr e)), c)
      | None \<Rightarrow> beginRefreshAttempt_loop snapshot expectedRevision expectedClaimID now ws c)"

definition releaseRefreshParticipant :: "nat \<Rightarrow> 's client \<Rightarrow> 's client" where
  "releaseRefreshParticipant p c =
     (let c = updAttempt p (\<lambda>a. a\<lparr>participants := participants a - 1\<rparr>) c
      in case attempts c p of
           None \<Rightarrow> c
         | Some a \<Rightarrow>
             if participants a = 0 \<and> refreshAttempt c = Some p
             then updAttempt p (\<lambda>a. a\<lparr>at_cancelled := True\<rparr>) c else c)"

definition waitForRefreshAttempt ::
  "nat \<Rightarrow> waitOutcome \<Rightarrow> 's client \<Rightarrow> (token_state \<times> goerror option) \<times> 's client" where
  "waitForRefreshAttempt p outcome c =
     (let c = releaseRefreshParticipant p c
      in case outcome of
           CallerDone e \<Rightarrow> ((zeroTokenState, Some (CtxErr e)), c)
         | AttemptClosed \<Rightarrow>
             (case attempts c p of
                Some a \<Rightarrow> (case at_err a of
                             Some e \<Rightarrow> ((at_state a, Some e), c)
                           | None \<Rightarrow> ((state c, None), c))
              | None \<Rightarrow> ((state c, None), c)))"

text \<open>
  \<open>refreshAtRevision\<close>. A leader whose caller stays lets its goroutine run to the end and
  then reads the result. A leader whose caller leaves, and a joiner, see what the others
  do until then, the goroutine included, through the last parameter. \<open>None\<close> is a call that
  is still waiting for an older attempt.
\<close>

type_synonym 'a returned = "'a option"

definition finishWait ::
  "nat \<Rightarrow> waitOutcome \<Rightarrow> 's client \<Rightarrow> (token_state \<times> bool \<times> goerror option) returned \<times> 's client" where
  "finishWait p outcome c =
     (let ((st, e), c) = waitForRefreshAttempt p outcome c in (Some (st, True, e), c))"

definition refreshAtRevision ::
  "'s token_persistence \<Rightarrow> 's refreshEnv \<Rightarrow> ctx_err option \<Rightarrow> token_state \<Rightarrow> uint64 option \<Rightarrow>
   uint64 \<Rightarrow> gotime \<Rightarrow> 's wait list \<Rightarrow> waitOutcome \<Rightarrow> ('s client \<Rightarrow> 's client) \<Rightarrow> 's client \<Rightarrow>
   (token_state \<times> bool \<times> goerror option) returned \<times> 's client" where
  "refreshAtRevision ops env ctxErr snapshot er cid now ws outcome others c =
     (case beginRefreshAttempt ctxErr snapshot er cid now ws c of
        (BeginReturn st e, c) \<Rightarrow> (Some (st, False, e), c)
      | (BeginLeader p, c) \<Rightarrow>
          (case outcome of
             AttemptClosed \<Rightarrow> finishWait p outcome (runRefreshAttempt ops env p c)
           | CallerDone _ \<Rightarrow> finishWait p outcome (others c))
      | (BeginJoined p, c) \<Rightarrow> finishWait p outcome (others c)
      | (BeginWait p, c) \<Rightarrow> (None, c))"

definition refreshForRevision ::
  "'s token_persistence \<Rightarrow> 's refreshEnv \<Rightarrow> ctx_err option \<Rightarrow> token_state \<Rightarrow> uint64 \<Rightarrow>
   gotime \<Rightarrow> 's wait list \<Rightarrow> waitOutcome \<Rightarrow> ('s client \<Rightarrow> 's client) \<Rightarrow> 's client \<Rightarrow>
   (token_state \<times> bool \<times> goerror option) returned \<times> 's client" where
  "refreshForRevision ops env ctxErr snapshot rv now ws outcome others c =
     refreshAtRevision ops env ctxErr snapshot (Some rv) 0 now ws outcome others c"

definition refreshForSchedule ::
  "'s token_persistence \<Rightarrow> 's refreshEnv \<Rightarrow> ctx_err option \<Rightarrow> token_state \<Rightarrow> uint64 \<Rightarrow> uint64 \<Rightarrow>
   gotime \<Rightarrow> 's wait list \<Rightarrow> waitOutcome \<Rightarrow> ('s client \<Rightarrow> 's client) \<Rightarrow> 's client \<Rightarrow>
   (token_state \<times> bool \<times> goerror option) returned \<times> 's client" where
  "refreshForSchedule ops env ctxErr snapshot rv claimID now ws outcome others c =
     refreshAtRevision ops env ctxErr snapshot (Some rv) claimID now ws outcome others c"

definition refresh ::
  "'s token_persistence \<Rightarrow> 's refreshEnv \<Rightarrow> ctx_err option \<Rightarrow> token_state \<Rightarrow>
   gotime \<Rightarrow> 's wait list \<Rightarrow> waitOutcome \<Rightarrow> ('s client \<Rightarrow> 's client) \<Rightarrow> 's client \<Rightarrow>
   (token_state \<times> goerror option) returned \<times> 's client" where
  "refresh ops env ctxErr snapshot now ws outcome others c =
     (let (res, c) = refreshAtRevision ops env ctxErr snapshot None 0 now ws outcome others c
      in (map_option (\<lambda>(st, _, e). (st, e)) res, c))"

section \<open>Response lemmas\<close>

text \<open>The response names the user of the current ID token, or carries no ID token at all.\<close>

definition sameSubject ::
  "(string \<Rightarrow> goerror + claim_set) \<Rightarrow> (string \<Rightarrow> goerror + oidc_idtoken) \<Rightarrow> string \<Rightarrow> string \<Rightarrow> bool" where
  "sameSubject unmarshal verify new current \<longleftrightarrow>
     (case (verify new, DecodeIDToken unmarshal current) of
        (Inr verified, Inr claims) \<Rightarrow> it_Subject verified = Subject claims \<and> Subject claims \<noteq> ''''
      | _ \<Rightarrow> False)"

lemma refreshedIDToken_Inr:
  assumes "refreshedIDToken unmarshal verify clientID snapshot tok = Inr idt"
  shows "if extraString tok ''id_token'' = '''' then idt = IDToken snapshot
         else idt = extraString tok ''id_token'' \<and> IDToken snapshot \<noteq> '''' \<and>
              verifyIDToken clientID verify idt = verify idt \<and>
              sameSubject unmarshal verify idt (IDToken snapshot)"
  using assms
  by (auto simp: refreshedIDToken_def sameSubject_def Let_def dest: verifyIDToken_Inr(1)
      split: if_splits sum.splits)

lemma refreshedIDToken_Inl:
  "refreshedIDToken unmarshal verify clientID snapshot tok = Inl e \<Longrightarrow> isSessionIntegrityError e"
  by (auto simp: refreshedIDToken_def Let_def split: if_splits sum.splits)

lemma refused_error_iff:
  "isCredentialRefusedError
     (Errorf [Txt ''pkceflow: token refresh failed: '', Wrapped (asAuthError (RetrieveError code d s b))])
   \<longleftrightarrow> code = ''invalid_grant''"
  by (simp add: asAuthError_def Let_def)

section \<open>Frame lemmas\<close>

lemma updAttempt_frame [simp]:
  "state (updAttempt p f c) = state c"
  "stateRevision (updAttempt p f c) = stateRevision c"
  "store (updAttempt p f c) = store c"
  "config (updAttempt p f c) = config c"
  "refreshSchedule (updAttempt p f c) = refreshSchedule c"
  "persistenceRetry (updAttempt p f c) = persistenceRetry c"
  "restoreBlocked (updAttempt p f c) = restoreBlocked c"
  "refreshAttempt (updAttempt p f c) = refreshAttempt c"
  "eventHistory (updAttempt p f c) = eventHistory c"
  "attempts (updAttempt p f c) = (attempts c)(p := map_option f (attempts c p))"
  by (simp_all add: updAttempt_def eventHistory_def)

lemma refreshIntegrityBlocked_cong:
  "stateRevision c = stateRevision d \<Longrightarrow> refreshSchedule c = refreshSchedule d \<Longrightarrow>
   refreshIntegrityBlockedLocked c = refreshIntegrityBlockedLocked d"
  by (simp add: refreshIntegrityBlockedLocked_def)

section \<open>Commit lemmas\<close>

lemma commitRefresh_stale:
  "stateRevision c \<noteq> rv \<Longrightarrow> commitRefresh ops st rv t c = ((state c, False, None), c)"
  by (simp add: commitRefresh_def)

lemma commitRefresh_current:
  assumes "stateRevision c = rv" and "commitRefresh ops st rv t c = (r, c')"
  shows "fst r = st" and "snd (snd r) = None" and "state c' = st" and "stateRevision c' = rv + 1"
    and "store c' = snd (Save ops st (store c))"
    and "eventHistory c' = eventHistory c @ [nilEvent EventTokenRefreshed]"
    and "fst (snd r) = (\<not> eventDispatching c)"
    and "attempts c' = attempts c" and "refreshAttempt c' = refreshAttempt c"
    and "persistenceRetry c' =
      (case fst (Save ops st (store c)) of
         None \<Rightarrow> zeroPersistenceRetry
       | Some _ \<Rightarrow> \<lparr>pr_valid = True, pr_revision = rv + 1, failures = 1,
                    retryAt = time_add t (persistenceRetryDelay 1), pr_claimID = 0\<rparr>)"
  using assms
  by (auto simp: commitRefresh_def Let_def case_prod_beta eventHistory_def enqueueEvent_def
      recordPersistenceSaveResult_def split: option.splits)

lemma performRefresh_network_failure:
  assumes "oauth2 c = Some oc" and "verifier c = Some v"
    and "re_token env oc (RefreshToken snapshot) = Inl err"
  shows "performRefresh ops env snapshot rv c =
    (if stateRevision (re_during env c) \<noteq> rv
     then ((state (re_during env c), False, None), re_during env c)
     else ((zeroTokenState, False,
            Some (Errorf [Txt ''pkceflow: token refresh failed: '', Wrapped (asAuthError err)])),
           re_during env c))"
  using assms by (simp add: performRefresh_def refreshFailure_def)

lemma performRefresh_integrity_failure:
  assumes "oauth2 c = Some oc" and "verifier c = Some v"
    and "re_token env oc (RefreshToken snapshot) = Inr tok"
    and "refreshedIDToken (re_unmarshal env) (re_verify env v) (ClientID (config c)) snapshot tok = Inl err"
  shows "performRefresh ops env snapshot rv c =
    (if stateRevision (re_during env c) \<noteq> rv
     then ((state (re_during env c), False, None), re_during env c)
     else ((zeroTokenState, False, Some err), re_during env c))"
  using assms by (simp add: performRefresh_def refreshFailure_def)

text \<open>The generation a response leads to.\<close>

definition refreshedState :: "gotime \<Rightarrow> token_state \<Rightarrow> oauth2_token \<Rightarrow> string \<Rightarrow> token_state" where
  "refreshedState now snapshot tok idToken =
     \<lparr>AccessToken = tk_AccessToken tok,
      RefreshToken = (if tk_RefreshToken tok = '''' then RefreshToken snapshot else tk_RefreshToken tok),
      IDToken = idToken, ExpiresAt = tk_Expiry tok, LastAuthAt = now\<rparr>"

lemma performRefresh_success:
  assumes "oauth2 c = Some oc" and "verifier c = Some v"
    and "re_token env oc (RefreshToken snapshot) = Inr tok"
    and "refreshedIDToken (re_unmarshal env) (re_verify env v) (ClientID (config c)) snapshot tok = Inr idt"
  shows "performRefresh ops env snapshot rv c =
    commitRefresh ops (refreshedState (re_now env) snapshot tok idt) rv (re_nowSaved env) (re_during env c)"
  using assms by (simp add: performRefresh_def refreshedState_def)

lemma performRefresh_cases:
  assumes "oauth2 c = Some oc" and "verifier c = Some v"
  obtains (network) err where "re_token env oc (RefreshToken snapshot) = Inl err"
  | (integrity) tok err where "re_token env oc (RefreshToken snapshot) = Inr tok"
      and "refreshedIDToken (re_unmarshal env) (re_verify env v) (ClientID (config c)) snapshot tok = Inl err"
  | (success) tok idt where "re_token env oc (RefreshToken snapshot) = Inr tok"
      and "refreshedIDToken (re_unmarshal env) (re_verify env v) (ClientID (config c)) snapshot tok = Inr idt"
  by (metis old.sum.exhaust)

lemma performRefresh_stale:
  assumes "oauth2 c = Some oc" and "verifier c = Some v"
    and "stateRevision (re_during env c) \<noteq> rv"
  shows "performRefresh ops env snapshot rv c =
           ((state (re_during env c), False, None), re_during env c)"
  using assms(1,2)
proof (cases rule: performRefresh_cases [where env = env and snapshot = snapshot])
  case (network err)
  with assms show ?thesis by (simp add: performRefresh_network_failure)
next
  case (integrity tok err)
  with assms show ?thesis by (simp add: performRefresh_integrity_failure)
next
  case (success tok idt)
  with assms show ?thesis by (simp add: performRefresh_success commitRefresh_stale)
qed

text \<open>
  C5: a refresh response is discarded without a trace when the token generation it was
  requested for has been replaced in the meantime: whatever the provider answered, the
  caller gets the current state and no error, and nothing is stored or announced.
\<close>

theorem refresh_stale_suppressed:
  assumes "oauth2 c = Some oc" and "verifier c = Some v"
    and "stateRevision (re_during env c) \<noteq> rv"
  shows "performRefresh ops env snapshot rv c =
           ((state (re_during env c), False, None), re_during env c)"
  using assms by (rule performRefresh_stale)

text \<open>
  C4: when a refresh installs a new generation, the response belonged to the current one;
  the new generation holds the response's access token and expiry, the rotated refresh
  token or else the old one, and an ID token that is the old one or one that verified for
  this client and names the same non-empty subject; it is saved and announced once.
\<close>

theorem refresh_commit_sound:
  assumes "oauth2 c = Some oc" and "verifier c = Some v"
    and "performRefresh ops env snapshot rv c = ((st, drain, err), c')"
    and "stateRevision c' \<noteq> stateRevision (re_during env c)"
  shows "\<exists>tok. re_token env oc (RefreshToken snapshot) = Inr tok \<and>
           stateRevision (re_during env c) = rv \<and> stateRevision c' = rv + 1 \<and>
           err = None \<and> state c' = st \<and>
           AccessToken st = tk_AccessToken tok \<and> ExpiresAt st = tk_Expiry tok \<and>
           LastAuthAt st = re_now env \<and>
           RefreshToken st = (if tk_RefreshToken tok = '''' then RefreshToken snapshot
                              else tk_RefreshToken tok) \<and>
           (if extraString tok ''id_token'' = '''' then IDToken st = IDToken snapshot
            else IDToken st = extraString tok ''id_token'' \<and>
                 (\<exists>idt. verifyIDToken (ClientID (config c)) (re_verify env v) (IDToken st) = Inr idt) \<and>
                 sameSubject (re_unmarshal env) (re_verify env v) (IDToken st) (IDToken snapshot)) \<and>
           store c' = snd (Save ops st (store (re_during env c))) \<and>
           eventHistory c' = eventHistory (re_during env c) @ [nilEvent EventTokenRefreshed]"
  using assms(1,2)
proof (cases rule: performRefresh_cases [where env = env and snapshot = snapshot])
  case (network err)
  with assms show ?thesis by (auto simp: performRefresh_network_failure split: if_splits)
next
  case (integrity tok err)
  with assms show ?thesis by (auto simp: performRefresh_integrity_failure split: if_splits)
next
  case (success tok idt)
  have commit: "commitRefresh ops (refreshedState (re_now env) snapshot tok idt) rv (re_nowSaved env)
      (re_during env c) = ((st, drain, err), c')"
    using performRefresh_success [OF assms(1,2) success] assms(3) by simp
  have current: "stateRevision (re_during env c) = rv"
    using commit commitRefresh_stale assms(4) by (metis prod.inject)
  note r = commitRefresh_current [OF current commit]
  have st: "st = refreshedState (re_now env) snapshot tok idt" using r(1) by simp
  note idtok = refreshedIDToken_Inr [OF success(2)]
  show ?thesis
  proof (intro exI [of _ tok] conjI)
    show "if extraString tok ''id_token'' = '''' then IDToken st = IDToken snapshot
      else IDToken st = extraString tok ''id_token'' \<and>
        (\<exists>idt. verifyIDToken (ClientID (config c)) (re_verify env v) (IDToken st) = Inr idt) \<and>
        sameSubject (re_unmarshal env) (re_verify env v) (IDToken st) (IDToken snapshot)"
      using idtok by (auto simp: st refreshedState_def sameSubject_def split: sum.splits if_splits)
  qed (use success(1) current r st in \<open>simp_all add: refreshedState_def\<close>)
qed

section \<open>A concrete environment\<close>

definition sampleToken :: oauth2_token where
  "sampleToken =
     \<lparr>tk_AccessToken = ''at2'', tk_RefreshToken = ''rt2'', tk_Expiry = atSec 3000,
      tk_Extra = [(''id_token'', JStr ''h.cQ.s'')]\<rparr>"

definition sampleIDToken :: oidc_idtoken where
  "sampleIDToken =
     \<lparr>it_Subject = ''alice'', it_Audience = [''app''], it_Nonce = ''n'',
      it_Claims = Inr [(''sub'', JStr ''alice'')]\<rparr>"

definition sampleEnv :: "(goerror + oauth2_token) \<Rightarrow> token_state refreshEnv" where
  "sampleEnv answer =
     \<lparr>re_token = (\<lambda>_ _. answer), re_verify = (\<lambda>_ _. Inr sampleIDToken),
      re_unmarshal = (\<lambda>_. Inr [(''sub'', JStr ''alice'')]), re_during = (\<lambda>c. c),
      re_now = atSec 1600, re_nowSaved = atSec 1601, re_beforeRefusal = (\<lambda>c. c),
      re_nowRefusal = atSec 1602, re_beforeFinish = (\<lambda>c. c), re_nowFinish = atSec 1603\<rparr>"

theorem refresh_stale_suppressed_witness:
  "performRefresh memoryStore (sampleEnv (Inr sampleToken)) sampleState 6 sampleClient =
     ((sampleState, False, None), sampleClient)"
proof -
  have 1: "oauth2 sampleClient = Some sampleOAuth2" "verifier sampleClient = Some 0"
    and 2: "state sampleClient = sampleState" by (simp_all add: sampleClient_def)
  have 3: "stateRevision (re_during (sampleEnv (Inr sampleToken)) sampleClient) \<noteq> 6"
    by (simp add: sampleClient_def sampleEnv_def)
  have 4: "re_during (sampleEnv (Inr sampleToken)) sampleClient = sampleClient"
    by (simp add: sampleEnv_def)
  show ?thesis
    using refresh_stale_suppressed [OF 1 3, of memoryStore sampleState] 2 4 by simp
qed

definition sampleRefresh :: "(token_state \<times> bool \<times> goerror option) \<times> token_state client" where
  "sampleRefresh = performRefresh memoryStore (sampleEnv (Inr sampleToken)) sampleState 7 sampleClient"

theorem refresh_commit_sound_witness:
  "stateRevision (snd sampleRefresh) = 8 \<and> IDToken (state (snd sampleRefresh)) = ''h.cQ.s'' \<and>
   sameSubject (\<lambda>_. Inr [(''sub'', JStr ''alice'')]) (\<lambda>_. Inr sampleIDToken) ''h.cQ.s'' ''h.cA.s''"
proof -
  have 1: "oauth2 sampleClient = Some sampleOAuth2" "verifier sampleClient = Some 0"
    by (simp_all add: sampleClient_def)
  have 2: "performRefresh memoryStore (sampleEnv (Inr sampleToken)) sampleState 7 sampleClient =
      ((fst (fst sampleRefresh), fst (snd (fst sampleRefresh)), snd (snd (fst sampleRefresh))),
       snd sampleRefresh)"
    by (simp add: sampleRefresh_def)
  have 3: "stateRevision (snd sampleRefresh) \<noteq>
      stateRevision (re_during (sampleEnv (Inr sampleToken)) sampleClient)" by code_simp
  have 4: "IDToken (state (snd sampleRefresh)) = ''h.cQ.s''" by code_simp
  have 5: "extraString sampleToken ''id_token'' = ''h.cQ.s''" by code_simp
  have 6: "IDToken sampleState = ''h.cA.s''" by (simp add: sampleState_def)
  show ?thesis
    using refresh_commit_sound [OF 1 2 3] 4 5 6 by (auto simp: sampleEnv_def)
qed

section \<open>Refusals\<close>

text \<open>The refusal concerns the generation in memory and nothing speaks against committing it.\<close>

definition refusalStands :: "'s token_persistence \<Rightarrow> refreshAttemptRec \<Rightarrow> 's client \<Rightarrow> bool" where
  "refusalStands ops att c \<longleftrightarrow>
     stateRevision c = at_revision att \<and> \<not> refreshInconclusiveLocked (at_revision att) c \<and>
     (case Load ops (store c) of
        Inl _ \<Rightarrow> True
      | Inr persisted \<Rightarrow> \<not> supersededRefreshToken persisted (at_snapshot att))"

lemma commitCredentialRefusal_skips:
  assumes "\<not> (\<exists>e. err = Some e \<and> isCredentialRefusedError e) \<or> \<not> refusalStands ops att c"
  shows "commitCredentialRefusal ops att err t c = (False, c)"
  using assms
  by (auto simp: commitCredentialRefusal_def refusalStands_def split: option.splits sum.splits)

lemma commitCredentialRefusal_commits:
  assumes "isCredentialRefusedError e" and "refusalStands ops att c"
    and "commitCredentialRefusal ops att (Some e) t c = (d, c')"
  shows "state c' = refusedState (at_snapshot att)" and "stateRevision c' = stateRevision c + 1"
    and "store c' = snd (Save ops (refusedState (at_snapshot att)) (store c))"
    and "eventHistory c' = eventHistory c @ [nilEvent EventSessionExpired]"
    and "d = (\<not> eventDispatching c)" and "attempts c' = attempts c"
    and "refreshAttempt c' = refreshAttempt c" and "config c' = config c"
    and "refreshSchedule c' = zeroSchedule"
    and "pr_valid (persistenceRetry c') \<longleftrightarrow>
           fst (Save ops (refusedState (at_snapshot att)) (store c)) \<noteq> None"
    and "pr_valid (persistenceRetry c') \<longrightarrow> pr_revision (persistenceRetry c') = stateRevision c'"
proof -
  have eq: "commitCredentialRefusal ops att (Some e) t c =
      enqueueEvent (nilEvent EventSessionExpired)
        (recordPersistenceSaveResult (stateRevision c + 1)
           (fst (Save ops (refusedState (at_snapshot att)) (store c))) t
           ((advanceStateLocked (refusedState (at_snapshot att)) c)
              \<lparr>store := snd (Save ops (refusedState (at_snapshot att)) (store c))\<rparr>))"
    using assms(1,2)
    by (auto simp: commitCredentialRefusal_def refusalStands_def Let_def case_prod_beta
        split: sum.splits)
  have c': "c' = snd (commitCredentialRefusal ops att (Some e) t c)"
    and d: "d = fst (commitCredentialRefusal ops att (Some e) t c)" using assms(3) by simp_all
  show "state c' = refusedState (at_snapshot att)" "stateRevision c' = stateRevision c + 1"
    "store c' = snd (Save ops (refusedState (at_snapshot att)) (store c))"
    "attempts c' = attempts c" "refreshAttempt c' = refreshAttempt c" "config c' = config c"
    "refreshSchedule c' = zeroSchedule"
    by (simp_all add: c' eq)
  show "eventHistory c' = eventHistory c @ [nilEvent EventSessionExpired]"
    unfolding c' eq by simp
  show "d = (\<not> eventDispatching c)" unfolding d eq by (simp add: enqueueEvent_def Let_def)
  show "pr_valid (persistenceRetry c') \<longleftrightarrow>
      fst (Save ops (refusedState (at_snapshot att)) (store c)) \<noteq> None"
    "pr_valid (persistenceRetry c') \<longrightarrow> pr_revision (persistenceRetry c') = stateRevision c'"
    unfolding c' eq by (auto simp: recordPersistenceSaveResult_def Let_def split: option.split)
qed

section \<open>Finishing an attempt\<close>

lemma block_frames [simp]:
  "state (blockRefreshIntegrityLocked rv t c) = state c"
  "stateRevision (blockRefreshIntegrityLocked rv t c) = stateRevision c"
  "store (blockRefreshIntegrityLocked rv t c) = store c"
  "config (blockRefreshIntegrityLocked rv t c) = config c"
  "attempts (blockRefreshIntegrityLocked rv t c) = attempts c"
  "refreshAttempt (blockRefreshIntegrityLocked rv t c) = refreshAttempt c"
  "persistenceRetry (blockRefreshIntegrityLocked rv t c) = persistenceRetry c"
  "eventHistory (blockRefreshIntegrityLocked rv t c) = eventHistory c"
  "state (blockRefreshPermanentLocked rv st t c) = state c"
  "stateRevision (blockRefreshPermanentLocked rv st t c) = stateRevision c"
  "store (blockRefreshPermanentLocked rv st t c) = store c"
  "config (blockRefreshPermanentLocked rv st t c) = config c"
  "attempts (blockRefreshPermanentLocked rv st t c) = attempts c"
  "refreshAttempt (blockRefreshPermanentLocked rv st t c) = refreshAttempt c"
  "persistenceRetry (blockRefreshPermanentLocked rv st t c) = persistenceRetry c"
  "eventHistory (blockRefreshPermanentLocked rv st t c) = eventHistory c"
  "state (markRefreshInconclusiveLocked rv c) = state c"
  "stateRevision (markRefreshInconclusiveLocked rv c) = stateRevision c"
  "store (markRefreshInconclusiveLocked rv c) = store c"
  "config (markRefreshInconclusiveLocked rv c) = config c"
  "attempts (markRefreshInconclusiveLocked rv c) = attempts c"
  "refreshAttempt (markRefreshInconclusiveLocked rv c) = refreshAttempt c"
  "persistenceRetry (markRefreshInconclusiveLocked rv c) = persistenceRetry c"
  "eventHistory (markRefreshInconclusiveLocked rv c) = eventHistory c"
  by (simp_all add: blockRefreshIntegrityLocked_def blockRefreshPermanentLocked_def
      markRefreshInconclusiveLocked_def refreshScheduleLocked_def Let_def eventHistory_def)

lemma blockIntegrity_blocks:
  "stateRevision c = rv \<Longrightarrow> refreshIntegrityBlockedLocked (blockRefreshIntegrityLocked rv t c)"
  by (simp add: blockRefreshIntegrityLocked_def refreshIntegrityBlockedLocked_def Let_def)

lemma blockPermanent_blocks:
  "stateRevision c = rv \<Longrightarrow>
   refreshPermanentlyBlockedLocked (blockRefreshPermanentLocked rv st t c) \<or>
   refreshIntegrityBlockedLocked (blockRefreshPermanentLocked rv st t c)"
  by (simp add: blockRefreshPermanentLocked_def refreshIntegrityBlockedLocked_def
      refreshPermanentlyBlockedLocked_def Let_def)

lemma blockPermanent_stale:
  "stateRevision c \<noteq> rv \<Longrightarrow> blockRefreshPermanentLocked rv st t c = c"
  by (simp add: blockRefreshPermanentLocked_def)

lemma markInconclusive_marks:
  "stateRevision c = rv \<Longrightarrow> refreshInconclusiveLocked rv (markRefreshInconclusiveLocked rv c)"
  by (simp add: markRefreshInconclusiveLocked_def refreshInconclusiveLocked_def Let_def)

text \<open>The mark an attempt's error leaves on the schedule of its generation.\<close>

definition markOutcome ::
  "refreshAttemptRec \<Rightarrow> goerror option \<Rightarrow> gotime \<Rightarrow> 's client \<Rightarrow> 's client" where
  "markOutcome att err t c =
     (case err of
        None \<Rightarrow> c
      | Some e \<Rightarrow>
          if isSessionIntegrityError e then blockRefreshIntegrityLocked (at_revision att) t c
          else if IsPermanentError e
          then blockRefreshPermanentLocked (at_revision att) (at_snapshot att) t c
          else if at_ctxErr att \<noteq> None \<and> as_AuthError e = None
          then markRefreshInconclusiveLocked (at_revision att) c
          else c)"

lemma markOutcome_frame [simp]:
  "state (markOutcome att err t c) = state c"
  "stateRevision (markOutcome att err t c) = stateRevision c"
  "store (markOutcome att err t c) = store c"
  "config (markOutcome att err t c) = config c"
  "attempts (markOutcome att err t c) = attempts c"
  "refreshAttempt (markOutcome att err t c) = refreshAttempt c"
  "persistenceRetry (markOutcome att err t c) = persistenceRetry c"
  "eventHistory (markOutcome att err t c) = eventHistory c"
  by (simp_all add: markOutcome_def split: option.split)

lemma finishRefreshAttempt_simps:
  assumes "attempts c p = Some att" and "c' = finishRefreshAttempt p st err t c"
  shows "state c' = state c" and "stateRevision c' = stateRevision c" and "store c' = store c"
    and "config c' = config c" and "persistenceRetry c' = persistenceRetry c"
    and "eventHistory c' = eventHistory c"
    and "refreshSchedule c' = refreshSchedule (markOutcome att err t c)"
    and "attempts c' p = Some (att\<lparr>at_state := st, at_err := err, at_cancelled := True, at_done := True\<rparr>)"
    and "refreshAttempt c' = (if refreshAttempt c = Some p then None else refreshAttempt c)"
proof -
  have c': "c' = updAttempt p (\<lambda>a. a\<lparr>at_cancelled := True, at_done := True\<rparr>)
      (let d = updAttempt p (\<lambda>a. a\<lparr>at_state := st, at_err := err\<rparr>) (markOutcome att err t c)
       in if refreshAttempt d = Some p then d\<lparr>refreshAttempt := None\<rparr> else d)"
    unfolding assms(2) finishRefreshAttempt_def markOutcome_def Let_def using assms(1) by simp
  show "state c' = state c" "stateRevision c' = stateRevision c" "store c' = store c"
    "config c' = config c" "persistenceRetry c' = persistenceRetry c"
    "refreshSchedule c' = refreshSchedule (markOutcome att err t c)"
    "refreshAttempt c' = (if refreshAttempt c = Some p then None else refreshAttempt c)"
    by (simp_all add: c' Let_def)
  show "eventHistory c' = eventHistory c"
    by (simp add: c' Let_def)
  show "attempts c' p = Some (att\<lparr>at_state := st, at_err := err, at_cancelled := True, at_done := True\<rparr>)"
    using assms(1) by (simp add: c' Let_def)
qed

section \<open>Running an attempt\<close>

text \<open>The answer of the token endpoint refuses the refresh token itself.\<close>

definition refreshError :: "goerror \<Rightarrow> goerror" where
  "refreshError err =
     Errorf [Txt ''pkceflow: token refresh failed: '', Wrapped (asAuthError err)]"

lemma refreshError_RetrieveError [simp]:
  "isCredentialRefusedError (refreshError (RetrieveError code d s b)) \<longleftrightarrow> code = ''invalid_grant''"
  "isSessionIntegrityError (refreshError (RetrieveError code d s b)) = False"
  "IsPermanentError (refreshError (RetrieveError code d s b)) \<longleftrightarrow>
     code \<in> {''invalid_grant'', ''invalid_client'', ''unauthorized_client''}"
  "as_AuthError (refreshError (RetrieveError code d s b)) \<noteq> None"
  by (simp_all add: refreshError_def asAuthError_def Let_def isSessionIntegrityError_def)

lemma runRefreshAttempt_error:
  assumes "attempts c p = Some att" and "oauth2 c = Some oc" and "verifier c = Some v"
    and "performRefresh ops env (at_snapshot att) (at_revision att) c = ((st, drain, Some e), c1)"
    and "commitCredentialRefusal ops att (Some e) (re_nowRefusal env) (re_beforeRefusal env c1) = (rd, c2)"
    and "re_beforeFinish env c2 = c2" and "attempts c2 p = Some att2"
    and "c' = runRefreshAttempt ops env p c"
  shows "state c' = state c2" and "stateRevision c' = stateRevision c2" and "store c' = store c2"
    and "config c' = config c2" and "persistenceRetry c' = persistenceRetry c2"
    and "eventHistory c' = eventHistory c2"
    and "refreshSchedule c' = refreshSchedule (markOutcome att2 (Some e) (re_nowFinish env) c2)"
    and "attempts c' p = Some (att2\<lparr>at_state := st, at_err := Some e, at_cancelled := True,
           at_done := True, at_complete := True\<rparr>)"
    and "refreshAttempt c' = (if refreshAttempt c2 = Some p then None else refreshAttempt c2)"
proof -
  note f = finishRefreshAttempt_simps [OF assms(7) refl, of st "Some e" "re_nowFinish env"]
  have c': "c' = updAttempt p (\<lambda>a. a\<lparr>at_complete := True\<rparr>)
      (drainIf (if rd then True else drain) (finishRefreshAttempt p st (Some e) (re_nowFinish env) c2))"
    unfolding assms(8) runRefreshAttempt_def using assms by simp
  show "state c' = state c2" "stateRevision c' = stateRevision c2" "store c' = store c2"
    "config c' = config c2" "persistenceRetry c' = persistenceRetry c2"
    "eventHistory c' = eventHistory c2"
    "refreshSchedule c' = refreshSchedule (markOutcome att2 (Some e) (re_nowFinish env) c2)"
    "refreshAttempt c' = (if refreshAttempt c2 = Some p then None else refreshAttempt c2)"
    "attempts c' p = Some (att2\<lparr>at_state := st, at_err := Some e, at_cancelled := True,
           at_done := True, at_complete := True\<rparr>)"
    by (simp_all add: c' f)
qed

section \<open>Sharing an attempt\<close>

lemma begin_leader_iff:
  "fst (beginRefreshAttempt_pass snapshot er cid now c) = BeginLeader p \<Longrightarrow>
   refreshAttempt c = None \<and> p = nextPtr c \<and> state c = snapshot \<and>
   \<not> refreshIntegrityBlockedLocked c \<and> \<not> refreshPermanentlyBlockedLocked c \<and>
   oauth2 c \<noteq> None \<and> verifier c \<noteq> None"
  by (auto simp: beginRefreshAttempt_pass_def Let_def split: if_splits option.splits)

text \<open>
  C6: callers for one token generation share one attempt. Once a caller has started an
  attempt, every further caller with the same view of the tokens joins it as long as one
  participant remains; when the last participant leaves, the attempt's context is
  cancelled and a later caller waits for it to end instead of joining.
\<close>

theorem refresh_single_flight:
  assumes "beginRefreshAttempt_pass snapshot er 0 now c = (BeginLeader p, c1)"
    and "er = None \<or> er = Some (stateRevision c)"
    and "c2 = releaseRefreshParticipant p c1"
    and "c3 = snd (beginRefreshAttempt_pass snapshot er 0 now1 c1)"
  shows "fst (beginRefreshAttempt_pass snapshot er 0 now1 c1) = BeginJoined p \<and>
         map_option participants (attempts c3 p) = Some 2 \<and>
         map_option at_cancelled (attempts (releaseRefreshParticipant p c3) p) = Some False \<and>
         map_option at_cancelled (attempts c2 p) = Some True \<and>
         fst (beginRefreshAttempt_pass snapshot er 0 now2 c2) = BeginWait p"
proof -
  have lead: "refreshAttempt c = None" "p = nextPtr c" "state c = snapshot"
    "\<not> refreshIntegrityBlockedLocked c" "\<not> refreshPermanentlyBlockedLocked c"
    "oauth2 c \<noteq> None" "verifier c \<noteq> None"
    using begin_leader_iff [of snapshot er 0 now c p] assms(1) by auto
  have c1: "c1 = c\<lparr>attempts := (attempts c)(p \<mapsto> newAttempt (stateRevision c) snapshot),
      nextPtr := p + 1, refreshAttempt := Some p\<rparr>"
    using assms(1) lead by (auto simp: beginRefreshAttempt_pass_def Let_def split: if_splits option.splits)
  have keep: "\<not> refreshIntegrityBlockedLocked c1" "\<not> refreshPermanentlyBlockedLocked c1"
    using lead by (simp_all add: c1 refreshIntegrityBlockedLocked_def refreshPermanentlyBlockedLocked_def)
  have join: "beginRefreshAttempt_pass snapshot er 0 now1 c1 =
      (BeginJoined p, updAttempt p (\<lambda>a. a\<lparr>participants := participants a + 1\<rparr>) c1)"
    using keep lead assms(2)
    by (auto simp: beginRefreshAttempt_pass_def c1 newAttempt_def split: option.splits)
  have c2: "attempts c2 p = Some ((newAttempt (stateRevision c) snapshot)
      \<lparr>participants := 0, at_cancelled := True\<rparr>)"
    and c2_frame: "state c2 = state c1" "stateRevision c2 = stateRevision c1"
      "refreshSchedule c2 = refreshSchedule c1" "refreshAttempt c2 = Some p"
      "oauth2 c2 = oauth2 c1" "verifier c2 = verifier c1"
    unfolding assms(3)
    by (simp_all add: releaseRefreshParticipant_def Let_def c1 newAttempt_def updAttempt_def)
  have "\<not> refreshIntegrityBlockedLocked c2" "\<not> refreshPermanentlyBlockedLocked c2"
    using keep c2_frame by (simp_all add: refreshIntegrityBlockedLocked_def refreshPermanentlyBlockedLocked_def)
  then have wait: "fst (beginRefreshAttempt_pass snapshot er 0 now2 c2) = BeginWait p"
    using lead assms(2) c2 c2_frame
    by (auto simp: beginRefreshAttempt_pass_def c1 split: option.splits)
  have "map_option participants (attempts c3 p) = Some 2"
    "map_option at_cancelled (attempts (releaseRefreshParticipant p c3) p) = Some False"
    unfolding assms(4) join
    by (simp_all add: c1 newAttempt_def releaseRefreshParticipant_def Let_def updAttempt_def)
  with join wait c2 show ?thesis by simp
qed

theorem refresh_single_flight_witness:
  "fst (beginRefreshAttempt_pass sampleState None 0 (atSec 1990) sampleClient) = BeginLeader 0 \<and>
   fst (beginRefreshAttempt_pass sampleState None 0 (atSec 1991)
     (snd (beginRefreshAttempt_pass sampleState None 0 (atSec 1990) sampleClient))) = BeginJoined 0"
proof -
  have 1: "fst (beginRefreshAttempt_pass sampleState None 0 (atSec 1990) sampleClient) = BeginLeader 0"
    by code_simp
  then have "beginRefreshAttempt_pass sampleState None 0 (atSec 1990) sampleClient =
      (BeginLeader 0, snd (beginRefreshAttempt_pass sampleState None 0 (atSec 1990) sampleClient))"
    by (metis prod.collapse)
  from refresh_single_flight [OF this _ refl refl] 1 show ?thesis by blast
qed

end
