(* ===== verification/Lifecycle.thy ===== *)
theory Lifecycle
  imports Refresh
begin

text \<open>
  Login and logout operations of one client (\<open>lifecycle.go\<close>) and the admission of
  \<open>Init\<close> calls (\<open>client.go\<close>): a new operation supersedes the older one, and the flow permit
  lets one browser flow run at a time.
\<close>

section \<open>Operations\<close>

definition cancelOperation :: "nat option \<Rightarrow> 's client \<Rightarrow> 's client" where
  "cancelOperation p c =
     (case p of
        None \<Rightarrow> c
      | Some q \<Rightarrow>
          c\<lparr>operations := (operations c)(q := map_option (op_cancelled_update (\<lambda>_. True)) (operations c q))\<rparr>)"

definition beginLifecycleOperationLocked ::
  "ctx_err option \<Rightarrow> lifecycleOperationKind \<Rightarrow> 's client \<Rightarrow> nat \<times> 's client" where
  "beginLifecycleOperationLocked parentErr kind c =
     (let c = cancelOperation (lifecycleOperation c) c;
          seq = lifecycleSeq c + 1;
          p = nextPtr c
      in (p, c\<lparr>lifecycleSeq := seq, nextPtr := p + 1,
               operations := (operations c)(p \<mapsto>
                 \<lparr>op_id = seq, op_kind = kind, op_parentErr = parentErr, op_cancelled = False\<rparr>),
               lifecycleOperation := Some p\<rparr>))"

definition beginLifecycleOperation ::
  "ctx_err option \<Rightarrow> lifecycleOperationKind \<Rightarrow> 's client \<Rightarrow> nat option \<times> 's client" where
  "beginLifecycleOperation parentErr kind c =
     (if parentErr \<noteq> None then (None, c)
      else let (p, c) = beginLifecycleOperationLocked parentErr kind c in (Some p, c))"

definition finishLifecycleOperation :: "nat \<Rightarrow> 's client \<Rightarrow> 's client" where
  "finishLifecycleOperation p c =
     (let c = (if lifecycleOperation c = Some p then c\<lparr>lifecycleOperation := None\<rparr> else c)
      in cancelOperation (Some p) c)"

definition lifecycleOperationOwned :: "nat \<Rightarrow> 's client \<Rightarrow> bool" where
  "lifecycleOperationOwned p c \<longleftrightarrow> lifecycleOperation c = Some p"

definition lifecycleOperationCurrentLocked :: "nat \<Rightarrow> 's client \<Rightarrow> bool" where
  "lifecycleOperationCurrentLocked p c \<longleftrightarrow>
     lifecycleOperation c = Some p \<and>
     (case operations c p of
        None \<Rightarrow> False
      | Some op \<Rightarrow> op_parentErr op = None \<and> op_ctxErr op = None)"

definition flowCancelledCause :: "ctx_err option \<Rightarrow> goerror" where
  "flowCancelledCause cause =
     (case cause of
        None \<Rightarrow> ErrFlowCancelled
      | Some e \<Rightarrow> Errorf [Wrapped ErrFlowCancelled, Txt '': '', Wrapped (CtxErr e)])"

definition flowCancelledError :: "nat \<Rightarrow> 's client \<Rightarrow> goerror" where
  "flowCancelledError p c =
     flowCancelledCause (case operations c p of None \<Rightarrow> None | Some op \<Rightarrow> op_parentErr op)"

definition lifecycleOperationError :: "nat \<Rightarrow> goerror \<Rightarrow> 's client \<Rightarrow> goerror" where
  "lifecycleOperationError p err c =
     (if \<not> lifecycleOperationCurrentLocked p c then flowCancelledError p c else err)"

text \<open>
  \<open>runLifecycleFlow\<close>. The environment says what the others do while the operation waits for
  the permit, which case of the \<open>select\<close> is taken, what happens before the second check, and
  what the flow handler does and returns. The permit is the field \<open>lifecycleFlow\<close>, holding
  its owner; taking it is only possible while it is free, and \<open>None\<close> is a call that still
  waits for it.
\<close>

record 's flowEnv =
  lf_wait :: "'s client \<Rightarrow> 's client"
  lf_takesPermit :: bool
  lf_beforeStart :: "'s client \<Rightarrow> 's client"
  lf_start :: "'s client \<Rightarrow> (goerror + string) \<times> 's client"

definition releasePermit :: "'s client \<Rightarrow> 's client" where
  "releasePermit c = c\<lparr>lifecycleFlow := None\<rparr>"

definition runLifecycleFlow ::
  "nat \<Rightarrow> 's flowEnv \<Rightarrow> 's client \<Rightarrow> (goerror + string) returned \<times> 's client" where
  "runLifecycleFlow p env c =
     (if \<not> lifecycleOperationCurrentLocked p c then (Some (Inl (flowCancelledError p c)), c)
      else let c = lf_wait env c
           in if lf_takesPermit env then
                (if lifecycleFlow c \<noteq> None then (None, c)
                 else let c = lf_beforeStart env (c\<lparr>lifecycleFlow := Some p\<rparr>)
                      in if \<not> lifecycleOperationCurrentLocked p c
                         then (Some (Inl (flowCancelledError p c)), releasePermit c)
                         else let (res, c) = lf_start env c
                              in if \<not> lifecycleOperationCurrentLocked p c
                                 then (Some (Inl (flowCancelledError p c)), releasePermit c)
                                 else (Some res, releasePermit c))
              else if (case operations c p of None \<Rightarrow> True | Some op \<Rightarrow> op_ctxErr op \<noteq> None)
              then (Some (Inl (flowCancelledError p c)), c)
              else (None, c))"

section \<open>Init operations\<close>

definition beginInitOperation :: "ctx_err option \<Rightarrow> 's client \<Rightarrow> nat option \<times> 's client" where
  "beginInitOperation parentErr c =
     (if parentErr \<noteq> None then (None, c)
      else let c = cancelOperation (initOperation c) c;
               seq = initSeq c + 1;
               p = nextPtr c
           in (Some p, c\<lparr>initSeq := seq, nextPtr := p + 1,
                 operations := (operations c)(p \<mapsto>
                   \<lparr>op_id = seq, op_kind = initKind, op_parentErr = parentErr, op_cancelled = False\<rparr>),
                 initOperation := Some p\<rparr>))"

definition finishInitOperation :: "nat \<Rightarrow> 's client \<Rightarrow> 's client" where
  "finishInitOperation p c =
     (let c = (if initOperation c = Some p then c\<lparr>initOperation := None\<rparr> else c)
      in cancelOperation (Some p) c)"

definition initOperationCurrentLocked :: "nat \<Rightarrow> 's client \<Rightarrow> bool" where
  "initOperationCurrentLocked p c \<longleftrightarrow>
     initOperation c = Some p \<and>
     (case operations c p of
        None \<Rightarrow> False
      | Some op \<Rightarrow> op_parentErr op = None \<and> op_ctxErr op = None)"

definition initOperationContextError :: "nat \<Rightarrow> 's client \<Rightarrow> goerror" where
  "initOperationContextError p c =
     (case operations c p of
        None \<Rightarrow> CtxErr Canceled
      | Some op \<Rightarrow>
          (case op_parentErr op of
             Some e \<Rightarrow> CtxErr e
           | None \<Rightarrow> (case op_ctxErr op of Some e \<Rightarrow> CtxErr e | None \<Rightarrow> CtxErr Canceled)))"

record initSnapshot =
  is_provider :: nat
  is_verifier :: nat
  is_oauth2 :: oauth2_config
  is_endSessionEndpoint :: string
  is_revocationEndpoint :: string

definition completeInitFailure :: "nat \<Rightarrow> goerror \<Rightarrow> 's client \<Rightarrow> goerror \<times> 's client" where
  "completeInitFailure p discoveryErr c =
     (if \<not> initOperationCurrentLocked p c then (initOperationContextError p c, c)
      else let (shouldDrain, c) = enqueueEvent (nilEvent EventInitFailed) c
           in (discoveryErr, drainIf shouldDrain c))"

definition commitInit :: "nat \<Rightarrow> initSnapshot \<Rightarrow> 's client \<Rightarrow> goerror option \<times> 's client" where
  "commitInit p snapshot c =
     (if \<not> initOperationCurrentLocked p c then (Some (initOperationContextError p c), c)
      else (None, signalRefreshLoopLocked
              (c\<lparr>provider := Some (is_provider snapshot), verifier := Some (is_verifier snapshot),
                 oauth2 := Some (is_oauth2 snapshot),
                 endSessionEndpoint := is_endSessionEndpoint snapshot,
                 revocationEndpoint := is_revocationEndpoint snapshot\<rparr>)))"

definition wrapInitError :: "goerror option \<Rightarrow> 's client \<Rightarrow> goerror option" where
  "wrapInitError err c =
     (case err of
        None \<Rightarrow> None
      | Some e \<Rightarrow>
          Some (Errorf [Txt (''pkceflow: OIDC discovery failed for '' @ [CHR 0x22] @
                             IssuerURL (config c) @ [CHR 0x22] @ '': ''), Wrapped e]))"

text \<open>
  The discovery document as \<open>provider.Claims\<close> yields it: unreadable, or one JSON value per
  name. An endpoint that is absent becomes empty, one of the wrong type keeps the previous
  value, and JSON null decodes to the empty string.
\<close>

definition discoveredEndpoint :: "(goerror + claim_set) \<Rightarrow> string \<Rightarrow> string \<Rightarrow> string" where
  "discoveredEndpoint claims name previous =
     (case claims of
        Inl _ \<Rightarrow> previous
      | Inr m \<Rightarrow>
          (case map_of m name of
             None \<Rightarrow> ''''
           | Some (JStr endpoint) \<Rightarrow> endpoint
           | Some JNull \<Rightarrow> ''''
           | Some _ \<Rightarrow> previous))"

text \<open>The result of \<open>oidc.NewProvider\<close>: the provider and verifier objects, the endpoints and the document.\<close>

record discovery =
  di_provider :: nat
  di_verifier :: nat
  di_AuthURL :: string
  di_TokenURL :: string
  di_claims :: "goerror + claim_set"

record 's initEnv =
  ie_parentErr :: "ctx_err option"
  ie_newProvider :: "string \<Rightarrow> goerror + discovery"
  ie_during :: "'s client \<Rightarrow> 's client"
  ie_redirectURI :: string
  ie_beforeCommit :: "'s client \<Rightarrow> 's client"

text \<open>The snapshot \<open>Init\<close> builds; the style forces the client id into the request body.\<close>

definition discoverySnapshot :: "string \<Rightarrow> discovery \<Rightarrow> 's client \<Rightarrow> initSnapshot" where
  "discoverySnapshot redirectURI d c =
     \<lparr>is_provider = di_provider d, is_verifier = di_verifier d,
      is_oauth2 = \<lparr>oc_ClientID = ClientID (config c), oc_AuthURL = di_AuthURL d,
                   oc_TokenURL = di_TokenURL d, oc_AuthStyle = AuthStyleInParams,
                   oc_RedirectURL = redirectURI, oc_Scopes = Scopes (config c)\<rparr>,
      is_endSessionEndpoint =
        discoveredEndpoint (di_claims d) ''end_session_endpoint'' (endSessionEndpoint c),
      is_revocationEndpoint =
        discoveredEndpoint (di_claims d) ''revocation_endpoint'' (revocationEndpoint c)\<rparr>"

definition Init :: "'s initEnv \<Rightarrow> 's client \<Rightarrow> goerror option \<times> 's client" where
  "Init env c =
     (case beginInitOperation (ie_parentErr env) c of
        (None, c) \<Rightarrow> (wrapInitError (map_option CtxErr (ie_parentErr env)) c, c)
      | (Some p, c) \<Rightarrow>
          (let c = ie_during env c
           in case ie_newProvider env (IssuerURL (config c)) of
                Inl err \<Rightarrow>
                  (let (e, c) = completeInitFailure p err c
                   in (wrapInitError (Some e) c, finishInitOperation p c))
              | Inr d \<Rightarrow>
                  (let snapshot = discoverySnapshot (ie_redirectURI env) d c;
                       (e, c) = commitInit p snapshot (ie_beforeCommit env c)
                   in (wrapInitError e c, finishInitOperation p c))))"

section \<open>Frame lemmas\<close>

lemma cancelOperation_frame [simp]:
  "state (cancelOperation p c) = state c" "stateRevision (cancelOperation p c) = stateRevision c"
  "store (cancelOperation p c) = store c" "eventHistory (cancelOperation p c) = eventHistory c"
  "config (cancelOperation p c) = config c" "lifecycleOperation (cancelOperation p c) = lifecycleOperation c"
  "nextPtr (cancelOperation p c) = nextPtr c" "persistenceRetry (cancelOperation p c) = persistenceRetry c"
  "refreshSchedule (cancelOperation p c) = refreshSchedule c"
  "provider (cancelOperation p c) = provider c" "oauth2 (cancelOperation p c) = oauth2 c"
  "verifier (cancelOperation p c) = verifier c" "initOperation (cancelOperation p c) = initOperation c"
  "endSessionEndpoint (cancelOperation p c) = endSessionEndpoint c"
  "revocationEndpoint (cancelOperation p c) = revocationEndpoint c"
  "restoreBlocked (cancelOperation p c) = restoreBlocked c"
  by (simp_all add: cancelOperation_def split: option.split)

lemma finishLifecycle_frame [simp]:
  "state (finishLifecycleOperation p c) = state c"
  "stateRevision (finishLifecycleOperation p c) = stateRevision c"
  "store (finishLifecycleOperation p c) = store c"
  "eventHistory (finishLifecycleOperation p c) = eventHistory c"
  "persistenceRetry (finishLifecycleOperation p c) = persistenceRetry c"
  "refreshSchedule (finishLifecycleOperation p c) = refreshSchedule c"
  "restoreBlocked (finishLifecycleOperation p c) = restoreBlocked c"
  by (simp_all add: finishLifecycleOperation_def Let_def eventHistory_def [of "c\<lparr>lifecycleOperation := None\<rparr>"]
      eventHistory_def [of c])


lemma finishInit_frame [simp]:
  "state (finishInitOperation p c) = state c"
  "stateRevision (finishInitOperation p c) = stateRevision c"
  "store (finishInitOperation p c) = store c"
  "eventHistory (finishInitOperation p c) = eventHistory c"
  "provider (finishInitOperation p c) = provider c"
  "verifier (finishInitOperation p c) = verifier c"
  "oauth2 (finishInitOperation p c) = oauth2 c"
  "endSessionEndpoint (finishInitOperation p c) = endSessionEndpoint c"
  "revocationEndpoint (finishInitOperation p c) = revocationEndpoint c"
  "refreshWake (finishInitOperation p c) = refreshWake c"
  by (simp_all add: finishInitOperation_def cancelOperation_def Let_def eventHistory_def)

section \<open>Init\<close>

lemma initOperationContextError_is:
  "initOperationContextError p c \<in> {CtxErr Canceled, CtxErr DeadlineExceeded}"
proof -
  have "CtxErr e \<in> {CtxErr Canceled, CtxErr DeadlineExceeded}" for e by (cases e) simp_all
  then show ?thesis by (auto simp: initOperationContextError_def split: option.splits)
qed

lemma wrapInitError_is:
  "wrapInitError (Some e) c = Some w \<Longrightarrow> errors_is e t \<Longrightarrow> errors_is w t"
  by (auto simp: wrapInitError_def)


definition sampleDiscovery :: discovery where
  "sampleDiscovery =
     \<lparr>di_provider = 1, di_verifier = 1, di_AuthURL = ''https://idp.example/authorize'',
      di_TokenURL = ''https://idp.example/token2'',
      di_claims = Inr [(''end_session_endpoint'', JStr ''https://idp.example/logout''),
                       (''revocation_endpoint'', JNum 1)]\<rparr>"

definition sampleInitEnv :: "token_state initEnv" where
  "sampleInitEnv =
     \<lparr>ie_parentErr = None, ie_newProvider = (\<lambda>_. Inr sampleDiscovery), ie_during = id,
      ie_redirectURI = ''http://127.0.0.1:15051/callback'', ie_beforeCommit = id\<rparr>"


end
