(* ===== verification/Go_Url.thy ===== *)
theory Go_Url
  imports Go_Errors "HOL-Library.Char_ord" "HOL-Library.List_Lexorder"
begin

text \<open>
  The part of Go's \<open>net/url\<close> the library relies on (Go 1.25): percent escaping, \<open>Parse\<close>,
  \<open>URL.String\<close>, \<open>Hostname\<close>, \<open>Port\<close>, \<open>EscapedPath\<close>, and \<open>Values\<close> with \<open>ParseQuery\<close>,
  \<open>Get\<close>, \<open>Set\<close> and \<open>Encode\<close>. A \<open>Values\<close> map is the list of its key and value pairs in
  the order of the query. Errors of the parser carry fixed texts: the library never shows
  them to a user in full.
\<close>

section \<open>Escaping\<close>

datatype encoding =
    encodePath | encodePathSegment | encodeHost | encodeZone
  | encodeUserPassword | encodeQueryComponent | encodeFragment

definition byteOf :: "char \<Rightarrow> nat" where "byteOf ch = of_char ch"

definition isAlnum :: "char \<Rightarrow> bool" where
  "isAlnum ch \<longleftrightarrow>
     97 \<le> byteOf ch \<and> byteOf ch \<le> 122 \<or> 65 \<le> byteOf ch \<and> byteOf ch \<le> 90 \<or>
     48 \<le> byteOf ch \<and> byteOf ch \<le> 57"

definition isDigit :: "char \<Rightarrow> bool" where
  "isDigit ch \<longleftrightarrow> 48 \<le> byteOf ch \<and> byteOf ch \<le> 57"

definition shouldEscape :: "char \<Rightarrow> encoding \<Rightarrow> bool" where
  "shouldEscape ch mode \<longleftrightarrow>
     (if isAlnum ch then False
      else if mode \<in> {encodeHost, encodeZone} \<and> ch \<in> set ''!$&()*+,;=:[]<>'' \<union> {CHR 0x27, CHR 0x22}
      then False
      else if ch \<in> set ''-_.~'' then False
      else if ch \<in> set ''$&+,/:;=?@'' then
        (case mode of
           encodePath \<Rightarrow> ch = CHR ''?''
         | encodePathSegment \<Rightarrow> ch \<in> set ''/;,?''
         | encodeUserPassword \<Rightarrow> ch \<in> set ''@/?:''
         | encodeQueryComponent \<Rightarrow> True
         | encodeFragment \<Rightarrow> False
         | _ \<Rightarrow> True)
      else if mode = encodeFragment \<and> ch \<in> set ''!()*'' then False
      else True)"

definition upperhex :: "nat \<Rightarrow> char" where
  "upperhex n = ''0123456789ABCDEF'' ! n"

definition unhex :: "char \<Rightarrow> nat option" where
  "unhex ch =
     (let n = byteOf ch
      in if 48 \<le> n \<and> n \<le> 57 then Some (n - 48)
         else if 97 \<le> n \<and> n \<le> 102 then Some (n - 87)
         else if 65 \<le> n \<and> n \<le> 70 then Some (n - 55)
         else None)"

definition escapeChar :: "encoding \<Rightarrow> char \<Rightarrow> string" where
  "escapeChar mode ch =
     (if shouldEscape ch mode
      then (if ch = CHR '' '' \<and> mode = encodeQueryComponent then ''+''
            else [CHR ''%'', upperhex (byteOf ch div 16), upperhex (byteOf ch mod 16)])
      else [ch])"

definition escape :: "encoding \<Rightarrow> string \<Rightarrow> string" where
  "escape mode s = concat (map (escapeChar mode) s)"

text \<open>The check of one escape sequence and of one literal byte in \<open>unescape\<close>.\<close>

definition escapeAllowed :: "encoding \<Rightarrow> nat \<Rightarrow> nat \<Rightarrow> bool" where
  "escapeAllowed mode hi lo \<longleftrightarrow>
     (case mode of
        encodeHost \<Rightarrow> \<not> (hi < 8 \<and> \<not> (hi = 2 \<and> lo = 5))
      | encodeZone \<Rightarrow>
          (hi = 2 \<and> lo = 5) \<or> hi * 16 + lo = 32 \<or> \<not> shouldEscape (char_of (hi * 16 + lo)) encodeHost
      | _ \<Rightarrow> True)"

definition literalAllowed :: "encoding \<Rightarrow> char \<Rightarrow> bool" where
  "literalAllowed mode ch \<longleftrightarrow>
     \<not> (mode \<in> {encodeHost, encodeZone} \<and> byteOf ch < 128 \<and> shouldEscape ch mode)"

fun unescape :: "encoding \<Rightarrow> string \<Rightarrow> string option" where
  "unescape mode [] = Some []"
| "unescape mode (ch # s) =
     (if ch = CHR ''%'' then
        (case s of
           a # b # s' \<Rightarrow>
             (case (unhex a, unhex b) of
                (Some hi, Some lo) \<Rightarrow>
                  if escapeAllowed mode hi lo
                  then map_option (Cons (char_of (hi * 16 + lo))) (unescape mode s')
                  else None
              | _ \<Rightarrow> None)
         | _ \<Rightarrow> None)
      else if ch = CHR ''+'' \<and> mode = encodeQueryComponent
      then map_option (Cons (CHR '' '')) (unescape mode s)
      else if literalAllowed mode ch then map_option (Cons ch) (unescape mode s)
      else None)"

section \<open>Parsed URLs\<close>

record url =
  u_Scheme :: string
  u_Opaque :: string
  u_User :: "(string \<times> string option) option"
  u_Host :: string
  u_Path :: string
  u_RawPath :: string
  u_OmitHost :: bool
  u_ForceQuery :: bool
  u_RawQuery :: string
  u_Fragment :: string
  u_RawFragment :: string

definition emptyURL :: url where
  "emptyURL =
     \<lparr>u_Scheme = '''', u_Opaque = '''', u_User = None, u_Host = '''', u_Path = '''', u_RawPath = '''',
      u_OmitHost = False, u_ForceQuery = False, u_RawQuery = '''', u_Fragment = '''',
      u_RawFragment = ''''\<rparr>"

definition IsAbs :: "url \<Rightarrow> bool" where "IsAbs u \<longleftrightarrow> u_Scheme u \<noteq> ''''"

text \<open>Splitting at the last occurrence of a byte: the part pre it and the part from it on.\<close>

definition lastIndexSplit :: "char \<Rightarrow> string \<Rightarrow> (string \<times> string) option" where
  "lastIndexSplit ch s =
     (if ch \<in> set s
      then let suffix = rev (takeWhile (\<lambda>x. x \<noteq> ch) (rev s))
           in Some (take (length s - length suffix - 1) s, ch # suffix)
      else None)"

fun getSchemeAux :: "string \<Rightarrow> string \<Rightarrow> string \<Rightarrow> (string \<times> string) option" where
  "getSchemeAux raw seen [] = Some ('''', raw)"
| "getSchemeAux raw seen (ch # s) =
     (if isAlnum ch \<and> \<not> isDigit ch then getSchemeAux raw (ch # seen) s
      else if isDigit ch \<or> ch \<in> set ''+-.''
      then (if seen = [] then Some ('''', raw) else getSchemeAux raw (ch # seen) s)
      else if ch = CHR '':'' then (if seen = [] then None else Some (rev seen, s))
      else Some ('''', raw))"

definition getScheme :: "string \<Rightarrow> (string \<times> string) option" where
  "getScheme raw = getSchemeAux raw [] raw"

definition validOptionalPort :: "string \<Rightarrow> bool" where
  "validOptionalPort port \<longleftrightarrow>
     (case port of [] \<Rightarrow> True | ch # s \<Rightarrow> ch = CHR '':'' \<and> list_all isDigit s)"

definition validUserinfo :: "string \<Rightarrow> bool" where
  "validUserinfo s \<longleftrightarrow>
     list_all (\<lambda>ch. isAlnum ch \<or> ch \<in> set ''-._:~!$&()*+,;=%@'' \<union> {CHR 0x27}) s"

fun indexOfSub :: "string \<Rightarrow> string \<Rightarrow> nat option" where
  "indexOfSub p [] = (if p = [] then Some 0 else None)"
| "indexOfSub p (ch # s) =
     (if hasPrefix (ch # s) p then Some 0 else map_option Suc (indexOfSub p s))"

definition parseHost :: "string \<Rightarrow> string option" where
  "parseHost host =
     (if hasPrefix host ''['' then
        (case lastIndexSplit (CHR '']'') host of
           None \<Rightarrow> None
         | Some (pre, rest) \<Rightarrow>
             if \<not> validOptionalPort (tl rest) then None
             else (case indexOfSub ''%25'' pre of
                    Some z \<Rightarrow>
                      (case (unescape encodeHost (take z pre), unescape encodeZone (drop z pre),
                             unescape encodeHost rest) of
                         (Some h1, Some h2, Some h3) \<Rightarrow> Some (h1 @ h2 @ h3)
                       | _ \<Rightarrow> None)
                  | None \<Rightarrow> unescape encodeHost host))
      else case lastIndexSplit (CHR '':'') host of
             Some (_, colonPort) \<Rightarrow>
               if validOptionalPort colonPort then unescape encodeHost host else None
           | None \<Rightarrow> unescape encodeHost host)"

definition parseUser :: "string \<Rightarrow> (string \<times> string option) option" where
  "parseUser userinfo =
     (if \<not> validUserinfo userinfo then None
      else if CHR '':'' \<notin> set userinfo
      then map_option (\<lambda>n. (n, None)) (unescape encodeUserPassword userinfo)
      else case (unescape encodeUserPassword (fst (cutAt (CHR '':'') userinfo)),
                 unescape encodeUserPassword (snd (cutAt (CHR '':'') userinfo))) of
             (Some n, Some p) \<Rightarrow> Some (n, Some p)
           | _ \<Rightarrow> None)"

definition parseAuthority :: "string \<Rightarrow> ((string \<times> string option) option \<times> string) option" where
  "parseAuthority authority =
     (case lastIndexSplit (CHR ''@'') authority of
        None \<Rightarrow> map_option (\<lambda>h. (None, h)) (parseHost authority)
      | Some (userinfo, rest) \<Rightarrow>
          (case (parseHost (tl rest), parseUser userinfo) of
             (Some h, Some u) \<Rightarrow> Some (Some u, h)
           | _ \<Rightarrow> None))"

definition setPath :: "string \<Rightarrow> url \<Rightarrow> url option" where
  "setPath p u =
     (case unescape encodePath p of
        None \<Rightarrow> None
      | Some path \<Rightarrow>
          Some (u\<lparr>u_Path := path, u_RawPath := (if p = escape encodePath path then '''' else p)\<rparr>))"

definition setFragment :: "string \<Rightarrow> url \<Rightarrow> url option" where
  "setFragment f u =
     (case unescape encodeFragment f of
        None \<Rightarrow> None
      | Some frag \<Rightarrow>
          Some (u\<lparr>u_Fragment := frag, u_RawFragment := (if f = escape encodeFragment frag then '''' else f)\<rparr>))"

definition isCTL :: "char \<Rightarrow> bool" where "isCTL ch \<longleftrightarrow> byteOf ch < 32 \<or> byteOf ch = 127"

text \<open>Everything after the scheme and the query have been split off.\<close>

definition parseHierarchy :: "string \<Rightarrow> url \<Rightarrow> url option" where
  "parseHierarchy rest u =
     (if \<not> hasPrefix rest ''/'' \<and> u_Scheme u \<noteq> '''' then Some (u\<lparr>u_Opaque := rest\<rparr>)
      else if \<not> hasPrefix rest ''/'' \<and> CHR '':'' \<in> set (fst (cutAt (CHR ''/'') rest)) then None
      else if (u_Scheme u \<noteq> '''' \<or> \<not> hasPrefix rest ''///'') \<and> hasPrefix rest ''//''
      then let authority = takeWhile (\<lambda>ch. ch \<noteq> CHR ''/'') (drop 2 rest);
               path = dropWhile (\<lambda>ch. ch \<noteq> CHR ''/'') (drop 2 rest)
           in (case parseAuthority authority of
                 None \<Rightarrow> None
               | Some (user, host) \<Rightarrow> setPath path (u\<lparr>u_User := user, u_Host := host\<rparr>))
      else if u_Scheme u \<noteq> '''' \<and> hasPrefix rest ''/'' then setPath rest (u\<lparr>u_OmitHost := True\<rparr>)
      else setPath rest u)"

definition parseNoFragment :: "string \<Rightarrow> url option" where
  "parseNoFragment raw =
     (if list_ex isCTL raw then None
      else if raw = ''*'' then Some (emptyURL\<lparr>u_Path := ''*''\<rparr>)
      else case getScheme raw of
        None \<Rightarrow> None
      | Some (scheme, rest) \<Rightarrow>
          (let u = emptyURL\<lparr>u_Scheme := toLower scheme\<rparr>
           in if hasSuffix rest ''?'' \<and> length (filter (\<lambda>ch. ch = CHR ''?'') rest) = 1
              then parseHierarchy (butlast rest) (u\<lparr>u_ForceQuery := True\<rparr>)
              else parseHierarchy (fst (cutAt (CHR ''?'') rest))
                     (u\<lparr>u_RawQuery := snd (cutAt (CHR ''?'') rest)\<rparr>)))"

definition Parse :: "string \<Rightarrow> url result" where
  "Parse rawURL =
     (let (raw, frag) = cutAt (CHR ''#'') rawURL
      in case (case parseNoFragment raw of
                 None \<Rightarrow> None
               | Some u \<Rightarrow> if frag = '''' then Some u else setFragment frag u) of
           Some u \<Rightarrow> Inr u
         | None \<Rightarrow> Inl (OtherError ''parse: invalid URL''))"

section \<open>Accessors and printing\<close>

definition splitHostPort :: "string \<Rightarrow> string \<times> string" where
  "splitHostPort hostPort =
     (let (host, port) =
            (case lastIndexSplit (CHR '':'') hostPort of
               Some (pre, colonPort) \<Rightarrow>
                 if validOptionalPort colonPort then (pre, tl colonPort) else (hostPort, '''')
             | None \<Rightarrow> (hostPort, ''''))
      in if hasPrefix host ''['' \<and> hasSuffix host '']'' then (butlast (tl host), port) else (host, port))"

definition Hostname :: "url \<Rightarrow> string" where "Hostname u = fst (splitHostPort (u_Host u))"
definition Port :: "url \<Rightarrow> string" where "Port u = snd (splitHostPort (u_Host u))"

definition validEncoded :: "encoding \<Rightarrow> string \<Rightarrow> bool" where
  "validEncoded mode s \<longleftrightarrow>
     list_all (\<lambda>ch. ch \<in> set ''!$&()*+,;=:@[]%'' \<union> {CHR 0x27} \<or> \<not> shouldEscape ch mode) s"

definition EscapedPath :: "url \<Rightarrow> string" where
  "EscapedPath u =
     (if u_RawPath u \<noteq> '''' \<and> validEncoded encodePath (u_RawPath u) \<and>
         unescape encodePath (u_RawPath u) = Some (u_Path u)
      then u_RawPath u
      else if u_Path u = ''*'' then ''*''
      else escape encodePath (u_Path u))"

definition EscapedFragment :: "url \<Rightarrow> string" where
  "EscapedFragment u =
     (if u_RawFragment u \<noteq> '''' \<and> validEncoded encodeFragment (u_RawFragment u) \<and>
         unescape encodeFragment (u_RawFragment u) = Some (u_Fragment u)
      then u_RawFragment u
      else escape encodeFragment (u_Fragment u))"

definition Userinfo_String :: "string \<times> string option \<Rightarrow> string" where
  "Userinfo_String ui =
     escape encodeUserPassword (fst ui) @
     (case snd ui of None \<Rightarrow> '''' | Some p \<Rightarrow> '':'' @ escape encodeUserPassword p)"

definition URL_String :: "url \<Rightarrow> string" where
  "URL_String u =
     (let scheme = (if u_Scheme u \<noteq> '''' then u_Scheme u @ '':'' else '''');
          authority =
            (if (u_Scheme u \<noteq> '''' \<or> u_Host u \<noteq> '''' \<or> u_User u \<noteq> None) \<and>
                \<not> (u_OmitHost u \<and> u_Host u = '''' \<and> u_User u = None)
             then (if u_Host u \<noteq> '''' \<or> u_Path u \<noteq> '''' \<or> u_User u \<noteq> None then ''//'' else '''') @
                  (case u_User u of None \<Rightarrow> '''' | Some ui \<Rightarrow> Userinfo_String ui @ ''@'') @
                  escape encodeHost (u_Host u)
             else '''');
          path = EscapedPath u;
          slash = (if path \<noteq> '''' \<and> hd path \<noteq> CHR ''/'' \<and> u_Host u \<noteq> '''' then ''/'' else '''');
          dot = (if scheme @ authority @ slash = '''' \<and> CHR '':'' \<in> set (fst (cutAt (CHR ''/'') path))
                 then ''./'' else '''');
          hier = (if u_Opaque u \<noteq> '''' then u_Opaque u else authority @ slash @ dot @ path)
      in scheme @ hier @
         (if u_ForceQuery u \<or> u_RawQuery u \<noteq> '''' then ''?'' @ u_RawQuery u else '''') @
         (if u_Fragment u \<noteq> '''' then ''#'' @ EscapedFragment u else ''''))"

section \<open>Query values\<close>

type_synonym url_values = "(string \<times> string) list"

text \<open>\<open>query[key]\<close>, the comma-ok form, \<open>Get\<close>, \<open>Set\<close>, and the keys in sorted order.\<close>

definition valuesOf :: "url_values \<Rightarrow> string \<Rightarrow> string list" where
  "valuesOf q k = map snd (filter (\<lambda>kv. fst kv = k) q)"

definition present :: "url_values \<Rightarrow> string \<Rightarrow> bool" where
  "present q k \<longleftrightarrow> k \<in> fst ` set q"

definition Values_Get :: "url_values \<Rightarrow> string \<Rightarrow> string" where
  "Values_Get q k = (case valuesOf q k of [] \<Rightarrow> '''' | v # _ \<Rightarrow> v)"

definition Values_Set :: "url_values \<Rightarrow> string \<Rightarrow> string \<Rightarrow> url_values" where
  "Values_Set q k v = filter (\<lambda>kv. fst kv \<noteq> k) q @ [(k, v)]"

definition sortedKeys :: "url_values \<Rightarrow> string list" where
  "sortedKeys q = sort (remdups (map fst q))"

definition encodePair :: "string \<Rightarrow> string \<Rightarrow> string" where
  "encodePair k v = escape encodeQueryComponent k @ ''='' @ escape encodeQueryComponent v"

fun joinWith :: "string \<Rightarrow> string list \<Rightarrow> string" where
  "joinWith sep [] = ''''"
| "joinWith sep [s] = s"
| "joinWith sep (s # ss) = s @ sep @ joinWith sep ss"

definition Values_Encode :: "url_values \<Rightarrow> string" where
  "Values_Encode q =
     joinWith ''&'' (concat (map (\<lambda>k. map (encodePair k) (valuesOf q k)) (sortedKeys q)))"

text \<open>One segment of the query: \<open>None\<close> is an error, \<open>Some []\<close> an empty segment.\<close>

definition parsePair :: "string \<Rightarrow> url_values option" where
  "parsePair seg =
     (if CHR '';'' \<in> set seg then None
      else if seg = '''' then Some []
      else case (unescape encodeQueryComponent (fst (cutAt (CHR ''='') seg)),
                 unescape encodeQueryComponent (snd (cutAt (CHR ''='') seg))) of
             (Some k, Some v) \<Rightarrow> Some [(k, v)]
           | _ \<Rightarrow> None)"

text \<open>
  \<open>ParseQuery\<close> goes on after a bad segment and reports an error at the end; \<open>URL.Query\<close>
  drops the error.
\<close>

definition queryPairs :: "string \<Rightarrow> url_values" where
  "queryPairs query =
     concat (map (\<lambda>seg. case parsePair seg of None \<Rightarrow> [] | Some kvs \<Rightarrow> kvs) (splitOn (CHR ''&'') query))"

definition ParseQuery :: "string \<Rightarrow> url_values result" where
  "ParseQuery query =
     (if list_all (\<lambda>seg. parsePair seg \<noteq> None) (splitOn (CHR ''&'') query)
      then Inr (queryPairs query) else Inl (OtherError ''invalid query''))"

definition Query :: "url \<Rightarrow> url_values" where
  "Query u = queryPairs (u_RawQuery u)"

section \<open>Round trips\<close>

lemma byteOf_less: "byteOf ch < 256"
  by (simp add: byteOf_def)

lemma char_of_byteOf [simp]: "char_of (byteOf ch) = ch"
  by (simp add: byteOf_def)

lemma unhex_upperhex: "n < 16 \<Longrightarrow> unhex (upperhex n) = Some n"
proof -
  assume "n < 16"
  then have "n \<in> set [0..<16]" by simp
  moreover have "\<forall>n \<in> set [0..<16]. unhex (upperhex n) = Some n" by code_simp
  ultimately show ?thesis by blast
qed

lemma percent_escaped [simp]: "shouldEscape (CHR ''%'') mode"
  by (simp add: shouldEscape_def isAlnum_def byteOf_def)

lemma plus_escaped [simp]: "shouldEscape (CHR ''+'') encodeQueryComponent"
  by code_simp

lemma unescape_escapeChar:
  assumes "mode \<notin> {encodeHost, encodeZone}"
  shows "unescape mode (escapeChar mode ch @ s) = map_option (Cons ch) (unescape mode s)"
proof (cases "shouldEscape ch mode")
  case False
  then have "ch \<noteq> CHR ''%''" and "ch = CHR ''+'' \<longrightarrow> mode \<noteq> encodeQueryComponent" by auto
  with False assms show ?thesis by (auto simp: escapeChar_def literalAllowed_def)
next
  case True
  have div: "byteOf ch div 16 < 16" using byteOf_less [of ch] by linarith
  have eq: "byteOf ch div 16 * 16 + byteOf ch mod 16 = byteOf ch" by simp
  have "escapeAllowed mode hi lo" for hi lo
    using assms by (simp add: escapeAllowed_def split: encoding.split)
  with True div eq show ?thesis
    by (auto simp: escapeChar_def unhex_upperhex)
qed

lemma unescape_escape:
  "mode \<notin> {encodeHost, encodeZone} \<Longrightarrow> unescape mode (escape mode s) = Some s"
proof (induction s)
  case (Cons ch s)
  then show ?case using unescape_escapeChar [of mode ch "escape mode s"] by (simp add: escape_def)
qed (simp add: escape_def)

text \<open>An escaped query component holds none of the separators.\<close>

definition querySafe :: "char \<Rightarrow> bool" where
  "querySafe ch \<longleftrightarrow> ch \<notin> set ''&=;#?/:@ ''"

lemma upperhex_querySafe: "n < 16 \<Longrightarrow> querySafe (upperhex n)"
proof -
  assume "n < 16"
  then have "n \<in> set [0..<16]" by simp
  moreover have "\<forall>n \<in> set [0..<16]. querySafe (upperhex n)" by code_simp
  ultimately show ?thesis by blast
qed

lemma unsafe_escaped: "\<not> querySafe ch \<Longrightarrow> shouldEscape ch encodeQueryComponent"
proof -
  assume "\<not> querySafe ch"
  then have "ch \<in> set ''&=;#?/:@ ''" by (simp add: querySafe_def)
  moreover have "list_all (\<lambda>ch. shouldEscape ch encodeQueryComponent) ''&=;#?/:@ ''" by code_simp
  ultimately show ?thesis by (simp only: list_all_iff)
qed

lemma escape_querySafe: "list_all querySafe (escape encodeQueryComponent s)"
proof -
  have "list_all querySafe (escapeChar encodeQueryComponent ch)" for ch
  proof -
    have "byteOf ch div 16 < 16" using byteOf_less [of ch] by linarith
    then have "querySafe (upperhex (byteOf ch div 16))" "querySafe (upperhex (byteOf ch mod 16))"
      by (simp_all add: upperhex_querySafe)
    moreover have "querySafe (CHR ''%'')" "querySafe (CHR ''+'')" by code_simp+
    ultimately show ?thesis using unsafe_escaped [of ch] by (auto simp: escapeChar_def)
  qed
  then show ?thesis by (induction s) (auto simp: escape_def)
qed

lemma querySafe_notin:
  "list_all querySafe s \<Longrightarrow> ch \<in> set ''&=;#?/:@ '' \<Longrightarrow> ch \<notin> set s"
  by (auto simp: list_all_iff querySafe_def)

lemma cutAt_sep: "sep \<notin> set k \<Longrightarrow> cutAt sep (k @ sep # v) = (k, v)"
  by (simp add: cutAt_def takeWhile_append dropWhile_append)

lemma parsePair_encodePair: "parsePair (encodePair k v) = Some [(k, v)]"
proof -
  let ?k = "escape encodeQueryComponent k" and ?v = "escape encodeQueryComponent v"
  have "CHR ''='' \<notin> set ?k" "CHR '';'' \<notin> set ?k" "CHR '';'' \<notin> set ?v"
    using querySafe_notin [OF escape_querySafe] by simp_all
  then show ?thesis
    by (simp add: parsePair_def encodePair_def cutAt_sep unescape_escape)
qed

lemma splitOn_joinWith:
  "(\<And>s. s \<in> set ss \<Longrightarrow> sep \<notin> set s) \<Longrightarrow> ss \<noteq> [] \<Longrightarrow> splitOn sep (joinWith [sep] ss) = ss"
proof (induction ss rule: induct_list012)
  case (3 s t ss)
  then show ?case by (simp add: splitOn_append_sep)
qed (simp_all add: splitOn_no_sep)

text \<open>The pairs in the order \<open>Encode\<close> writes them.\<close>

definition encodeOrder :: "url_values \<Rightarrow> url_values" where
  "encodeOrder q = concat (map (\<lambda>k. map (Pair k) (valuesOf q k)) (sortedKeys q))"

lemma Values_Encode_alt: "Values_Encode q = joinWith ''&'' (map (\<lambda>(k, v). encodePair k v) (encodeOrder q))"
  by (simp add: Values_Encode_def encodeOrder_def map_concat comp_def)

lemma encodePair_no_amp: "CHR ''&'' \<notin> set (encodePair k v)"
  using querySafe_notin [OF escape_querySafe] by (simp add: encodePair_def)

lemma ParseQuery_Encode: "ParseQuery (Values_Encode q) = Inr (encodeOrder q)"
proof (cases "encodeOrder q = []")
  case True
  then show ?thesis by (simp add: Values_Encode_alt ParseQuery_def queryPairs_def parsePair_def)
next
  case False
  have "splitOn (CHR ''&'') (Values_Encode q) = map (\<lambda>(k, v). encodePair k v) (encodeOrder q)"
    unfolding Values_Encode_alt
    by (rule splitOn_joinWith) (use False in \<open>auto simp: encodePair_no_amp\<close>)
  then show ?thesis
    by (simp add: ParseQuery_def queryPairs_def parsePair_encodePair list_all_iff case_prod_beta comp_def)
qed

lemma valuesOf_append [simp]: "valuesOf (p @ q) k = valuesOf p k @ valuesOf q k"
  by (simp add: valuesOf_def)

lemma valuesOf_Pairs: "valuesOf (map (Pair k') vs) k = (if k' = k then vs else [])"
  by (induction vs) (auto simp: valuesOf_def)

lemma valuesOf_empty: "k \<notin> fst ` set q \<Longrightarrow> valuesOf q k = []"
  by (auto simp: valuesOf_def filter_empty_conv)

lemma valuesOf_concat_keys:
  "distinct ks \<Longrightarrow>
   valuesOf (concat (map (\<lambda>k. map (Pair k) (f k)) ks)) k = (if k \<in> set ks then f k else [])"
proof (induction ks)
  case Nil
  then show ?case by (simp add: valuesOf_def)
next
  case (Cons a ks)
  then show ?case by (auto simp: valuesOf_Pairs)
qed

lemma valuesOf_encodeOrder [simp]: "valuesOf (encodeOrder q) k = valuesOf q k"
  unfolding encodeOrder_def
  by (subst valuesOf_concat_keys) (auto simp: sortedKeys_def valuesOf_empty)

lemma valuesOf_Set [simp]:
  "valuesOf (Values_Set q k v) k' = (if k' = k then [v] else valuesOf q k')"
proof (cases "k' = k")
  case True
  then show ?thesis by (simp add: Values_Set_def valuesOf_def)
next
  case False
  have "filter (\<lambda>kv. fst kv = k') (filter (\<lambda>kv. fst kv \<noteq> k) q) = filter (\<lambda>kv. fst kv = k') q"
    unfolding filter_filter using False by (intro filter_cong) auto
  with False show ?thesis by (simp add: Values_Set_def valuesOf_def)
qed

lemma Values_Get_valuesOf: "valuesOf q k = [v] \<Longrightarrow> Values_Get q k = v"
  by (simp add: Values_Get_def)

end
