(* ===== verification/Login.thy ===== *)
theory Login
  imports Lifecycle Go_Url
begin

text \<open>
  The authorization-code flow with PKCE (\<open>login.go\<close>): random values, the checks on the
  callback in the order the code makes them, the token exchange, the ID-token and nonce
  checks, and the commit. The parts of \<open>golang.org/x/oauth2\<close> (verifier generation, the
  authorization URL, the exchange), the ID-token verifier and the flow handler are
  parameters.
\<close>

section \<open>Random values\<close>

text \<open>\<open>rand.Read\<close> fills the 32-byte buffer or fails; the model's reader returns the bytes.\<close>

definition randomState :: "(goerror + string) \<Rightarrow> string result" where
  "randomState bytes =
     (case bytes of
        Inl err \<Rightarrow> Inl (Errorf [Txt ''pkceflow: failed to generate state: '', Wrapped err])
      | Inr b \<Rightarrow> Inr (encodeToString b))"

text \<open>\<open>subtle.ConstantTimeCompare(x, y) == 1\<close>.\<close>

definition constantTimeEqual :: "string \<Rightarrow> string \<Rightarrow> bool" where
  "constantTimeEqual x y \<longleftrightarrow>
     length x = length y \<and> list_all (\<lambda>(a, b). a = b) (zip x y)"

section \<open>The callback\<close>

text \<open>The checks from parsing the callback URL to the authorization code.\<close>

definition loginCallback :: "string \<Rightarrow> string \<Rightarrow> string result" where
  "loginCallback st callbackURL =
     (case Parse callbackURL of
        Inl _ \<Rightarrow> Inl (OtherError ''pkceflow: invalid callback URL'')
      | Inr parsed \<Rightarrow>
          if \<not> IsAbs parsed then Inl (OtherError ''pkceflow: invalid callback URL'')
          else (case ParseQuery (u_RawQuery parsed) of
            Inl _ \<Rightarrow> Inl (OtherError ''pkceflow: invalid callback URL query'')
          | Inr query \<Rightarrow>
              (let returnedStates = valuesOf query ''state''
               in if length returnedStates \<noteq> 1 \<or> returnedStates ! 0 = '''' then Inl ErrStateMismatch
                  else if \<not> constantTimeEqual st (returnedStates ! 0) then Inl ErrStateMismatch
                  else if Values_Get query ''error'' \<noteq> ''''
                  then Inl (AuthError (Values_Get query ''error'') (Values_Get query ''error_description''))
                  else let codes = valuesOf query ''code''
                       in if length codes \<noteq> 1 \<or> codes ! 0 = ''''
                          then Inl (OtherError ''pkceflow: callback missing authorization code'')
                          else Inr (codes ! 0))))"

text \<open>The checks on the token response, up to the new token state.\<close>

definition loginTokenState ::
  "(string \<Rightarrow> goerror + oidc_idtoken) \<Rightarrow> string \<Rightarrow> string \<Rightarrow> oauth2_token \<Rightarrow> gotime \<Rightarrow>
   token_state result" where
  "loginTokenState verify clientID nonce token now =
     (let rawIDToken = extraString token ''id_token''
      in if rawIDToken = '''' then Inl (OtherError ''pkceflow: no id_token in token response'')
         else case verifyIDToken clientID verify rawIDToken of
           Inl err \<Rightarrow> Inl (Errorf [Txt ''pkceflow: ID token validation failed: '', Wrapped err])
         | Inr idToken \<Rightarrow>
             if \<not> constantTimeEqual nonce (it_Nonce idToken)
             then Inl (Errorf [Txt ''pkceflow: '', Wrapped ErrNonceMismatch])
             else Inr \<lparr>AccessToken = tk_AccessToken token, RefreshToken = tk_RefreshToken token,
                       IDToken = rawIDToken, ExpiresAt = tk_Expiry token, LastAuthAt = now\<rparr>)"

section \<open>The commit\<close>

text \<open>
  The second check follows the wait for \<open>stateCommitMu\<close>, during which the caller's context
  may end and other commits may happen.
\<close>

definition commitLoginState ::
  "'s token_persistence \<Rightarrow> nat \<Rightarrow> token_state \<Rightarrow> ('s client \<Rightarrow> 's client) \<Rightarrow> gotime \<Rightarrow> 's client \<Rightarrow>
   (bool \<times> goerror option) \<times> 's client" where
  "commitLoginState ops p newState wait nowSaved c =
     (if \<not> lifecycleOperationCurrentLocked p c then ((False, None), c)
      else let c = wait c
           in if \<not> lifecycleOperationCurrentLocked p c then ((False, None), c)
              else let c = advanceStateLocked newState c;
                       rv = stateRevision c;
                       (persistErr, s) = Save ops newState (store c);
                       c = recordPersistenceSaveResult rv persistErr nowSaved (c\<lparr>store := s\<rparr>);
                       (shouldDrain, c) = enqueueEvent (nilEvent EventLoggedIn) c
                   in ((True, persistErr), drainIf shouldDrain c))"

section \<open>Login\<close>

record 's loginEnv =
  lg_beforeBegin :: "'s client \<Rightarrow> 's client"
  lg_ctxErr :: "ctx_err option"
  lg_parentErr :: "ctx_err option"
  lg_verifierCode :: string
  lg_random1 :: "goerror + string"
  lg_random2 :: "goerror + string"
  lg_authCodeURL :: "oauth2_config \<Rightarrow> string \<Rightarrow> string \<Rightarrow> string \<Rightarrow> (string \<times> string) list \<Rightarrow> string"
  lg_flow :: "string \<Rightarrow> 's flowEnv"
  lg_afterFlow :: "'s client \<Rightarrow> 's client"
  lg_exchange :: "oauth2_config \<Rightarrow> string \<Rightarrow> string \<Rightarrow> (string \<times> string) list \<Rightarrow> goerror + oauth2_token"
  lg_duringExchange :: "'s client \<Rightarrow> 's client"
  lg_verify :: "nat \<Rightarrow> string \<Rightarrow> goerror + oidc_idtoken"
  lg_duringVerify :: "'s client \<Rightarrow> 's client"
  lg_now :: gotime
  lg_commitWait :: "'s client \<Rightarrow> 's client"
  lg_nowSaved :: gotime

text \<open>From the token exchange to the end of the call.\<close>

definition loginExchange ::
  "'s token_persistence \<Rightarrow> 's loginEnv \<Rightarrow> oauth2_config \<Rightarrow> nat \<Rightarrow> nat \<Rightarrow> string \<Rightarrow> string \<Rightarrow> 's client \<Rightarrow>
   goerror option \<times> 's client" where
  "loginExchange ops env oauthCfg v p nonce code c =
     (if \<not> lifecycleOperationCurrentLocked p c then (Some (flowCancelledError p c), c)
      else let res = lg_exchange env oauthCfg code (lg_verifierCode env) (ExtraTokenParams (config c));
               c = lg_duringExchange env c
           in case res of
                Inl err \<Rightarrow>
                  (Some (lifecycleOperationError p
                     (Errorf [Txt ''pkceflow: token exchange failed: '', Wrapped (asAuthError err)]) c), c)
              | Inr token \<Rightarrow>
                  if \<not> lifecycleOperationCurrentLocked p c then (Some (flowCancelledError p c), c)
                  else let clientID = ClientID (config c);
                           c = lg_duringVerify env c
                       in (case loginTokenState (lg_verify env v) clientID nonce token (lg_now env) of
                            Inl err \<Rightarrow> (Some (lifecycleOperationError p err c), c)
                          | Inr newState \<Rightarrow>
                              (let ((committed, persistErr), c) =
                                     commitLoginState ops p newState (lg_commitWait env) (lg_nowSaved env) c
                               in if \<not> committed then (Some (flowCancelledError p c), c)
                                  else (None, c))))"

text \<open>
  From the admission of the operation to the end, without the deferred finish. The provider,
  the verifier and the OAuth2 configuration are only ever set together.
\<close>

definition loginOperation ::
  "'s token_persistence \<Rightarrow> 's loginEnv \<Rightarrow> oauth2_config \<Rightarrow> nat \<Rightarrow> nat \<Rightarrow> 's client \<Rightarrow>
   goerror option returned \<times> 's client" where
  "loginOperation ops env oauthCfg v p c =
     (case randomState (lg_random1 env) of
        Inl err \<Rightarrow> (Some (Some (lifecycleOperationError p err c)), c)
      | Inr st \<Rightarrow>
          (case randomState (lg_random2 env) of
             Inl err \<Rightarrow> (Some (Some (lifecycleOperationError p err c)), c)
           | Inr nonce \<Rightarrow>
               (let authURL = lg_authCodeURL env oauthCfg st (lg_verifierCode env) nonce
                                (ExtraAuthParams (config c));
                    (flow, c) = runLifecycleFlow p (lg_flow env authURL) c
                in case flow of
                     None \<Rightarrow> (None, c)
                   | Some (Inl err) \<Rightarrow>
                       (let c = lg_afterFlow env c
                        in if errors_is err ErrFlowCancelled then (Some (Some (flowCancelledError p c)), c)
                           else (Some (Some (lifecycleOperationError p
                                   (Errorf [Txt ''pkceflow: auth flow failed: '', Wrapped err]) c)), c))
                   | Some (Inr callbackURL) \<Rightarrow>
                       (let c = lg_afterFlow env c
                        in case loginCallback st callbackURL of
                             Inl err \<Rightarrow> (Some (Some (lifecycleOperationError p err c)), c)
                           | Inr code \<Rightarrow>
                               (let (err, c) = loginExchange ops env oauthCfg v p nonce code c
                                in (Some err, c))))))"

definition login ::
  "'s token_persistence \<Rightarrow> 's loginEnv \<Rightarrow> 's client \<Rightarrow> goerror option returned \<times> 's client" where
  "login ops env c =
     (case (provider c, oauth2 c, verifier c) of
        (Some _, Some oauthCfg, Some v) \<Rightarrow>
          (let c = lg_beforeBegin env c
           in if lg_ctxErr env \<noteq> None then (Some (Some (flowCancelledCause (lg_ctxErr env))), c)
              else (case beginLifecycleOperation (lg_parentErr env) lifecycleLogin c of
                (None, c) \<Rightarrow> (Some (Some (flowCancelledCause (lg_parentErr env))), c)
              | (Some p, c) \<Rightarrow>
                  (let (res, c) = loginOperation ops env oauthCfg v p c
                   in case res of
                        None \<Rightarrow> (None, c)
                      | Some err \<Rightarrow> (Some err, finishLifecycleOperation p c))))
      | _ \<Rightarrow> (Some (Some ErrNotInitialized), c))"

section \<open>Lemmas\<close>

lemma constantTimeEqual_iff [simp]: "constantTimeEqual x y \<longleftrightarrow> x = y"
  by (auto simp: constantTimeEqual_def list_eq_iff_zip_eq list_all_iff)

lemma length1_eq: "length xs = 1 \<Longrightarrow> xs = [xs ! 0]"
  by (cases xs) auto

lemma loginCallback_Inr:
  assumes "loginCallback st callbackURL = Inr cd"
  obtains parsed query where "Parse callbackURL = Inr parsed" and "IsAbs parsed"
    and "ParseQuery (u_RawQuery parsed) = Inr query"
    and "valuesOf query ''state'' = [st]" and "st \<noteq> ''''" and "Values_Get query ''error'' = ''''"
    and "valuesOf query ''code'' = [cd]" and "cd \<noteq> ''''"
proof -
  from assms obtain parsed query where p: "Parse callbackURL = Inr parsed" "IsAbs parsed"
      "ParseQuery (u_RawQuery parsed) = Inr query"
    and q: "length (valuesOf query ''state'') = 1" "valuesOf query ''state'' ! 0 = st" "st \<noteq> ''''"
      "Values_Get query ''error'' = ''''" "length (valuesOf query ''code'') = 1"
      "valuesOf query ''code'' ! 0 = cd" "cd \<noteq> ''''"
    by (auto simp: loginCallback_def Let_def split: sum.splits if_splits)
  from q have "valuesOf query ''state'' = [st]" "valuesOf query ''code'' = [cd]"
    using length1_eq by metis+
  with that p q show thesis by blast
qed

lemma loginTokenState_Inr:
  assumes "loginTokenState verify clientID nonce token now = Inr newState"
  shows "\<exists>idt. extraString token ''id_token'' \<noteq> '''' \<and>
           verifyIDToken clientID verify (extraString token ''id_token'') = Inr idt \<and>
           it_Nonce idt = nonce \<and>
           newState = \<lparr>AccessToken = tk_AccessToken token, RefreshToken = tk_RefreshToken token,
                       IDToken = extraString token ''id_token'', ExpiresAt = tk_Expiry token,
                       LastAuthAt = now\<rparr>"
  using assms by (auto simp: loginTokenState_def Let_def split: sum.splits if_splits)

text \<open>What a committed login leaves behind, from the client the commit found.\<close>

definition loginCommitted ::
  "'s token_persistence \<Rightarrow> nat \<Rightarrow> token_state \<Rightarrow> 's client \<Rightarrow> 's client \<Rightarrow> bool" where
  "loginCommitted ops p newState c c' \<longleftrightarrow>
     lifecycleOperationCurrentLocked p c \<and> state c' = newState \<and>
     stateRevision c' = stateRevision c + 1 \<and>
     store c' = snd (Save ops newState (store c)) \<and>
     eventHistory c' = eventHistory c @ [nilEvent EventLoggedIn]"

lemma commitLoginState_True:
  assumes "commitLoginState ops p newState wait t c = ((True, e), c')"
  shows "loginCommitted ops p newState (wait c) c'"
  using assms
  by (auto simp: commitLoginState_def loginCommitted_def Let_def case_prod_beta split: if_splits)

lemma commitLoginState_False:
  assumes "commitLoginState ops p newState wait t c = ((False, e), c')"
  shows "c' \<in> {c, wait c} \<and> \<not> lifecycleOperationCurrentLocked p c'"
  using assms by (auto simp: commitLoginState_def Let_def case_prod_beta split: if_splits)


section \<open>A concrete login\<close>

definition sampleCallback :: string where
  "sampleCallback = ''http://127.0.0.1:15051/callback?code=c1&state=QUI''"

definition sampleFlow :: "goerror + string \<Rightarrow> token_state flowEnv" where
  "sampleFlow r =
     \<lparr>lf_wait = id, lf_takesPermit = True, lf_beforeStart = id, lf_start = (\<lambda>c. (r, c))\<rparr>"

definition sampleLoginEnv :: "string \<Rightarrow> string \<Rightarrow> token_state loginEnv" where
  "sampleLoginEnv callback nonce =
     \<lparr>lg_beforeBegin = id, lg_ctxErr = None, lg_parentErr = None, lg_verifierCode = ''verifier'',
      lg_random1 = Inr ''AB'', lg_random2 = Inr ''CD'',
      lg_authCodeURL = (\<lambda>_ _ _ _ _. ''https://idp.example/authorize''),
      lg_flow = (\<lambda>_. sampleFlow (Inr callback)), lg_afterFlow = id,
      lg_exchange = (\<lambda>_ _ _ _. Inr sampleToken), lg_duringExchange = id,
      lg_verify = (\<lambda>_ _. Inr (sampleIDToken\<lparr>it_Nonce := nonce\<rparr>)), lg_duringVerify = id,
      lg_now = atSec 2500, lg_commitWait = id, lg_nowSaved = atSec 2501\<rparr>"


section \<open>Logins that fail\<close>

lemma begin_current:
  "beginLifecycleOperationLocked None kind c = (p, c') \<Longrightarrow>
   lifecycleOperationCurrentLocked p c' \<and> p = nextPtr c"
  by (auto simp: beginLifecycleOperationLocked_def lifecycleOperationCurrentLocked_def op_ctxErr_def Let_def)

lemma begin_supersedes:
  assumes "lifecycleOperationCurrentLocked p c" and "p < nextPtr c"
  shows "\<not> lifecycleOperationCurrentLocked p (snd (beginLifecycleOperationLocked e kind c))"
    and "flowCancelledError p (snd (beginLifecycleOperationLocked e kind c)) = ErrFlowCancelled"
  using assms
  by (auto simp: beginLifecycleOperationLocked_def lifecycleOperationCurrentLocked_def cancelOperation_def
      flowCancelledError_def flowCancelledCause_def Let_def split: option.splits)

text \<open>
  A login that is superseded by a newer login or logout while its code is exchanged
  ends with the plain cancellation error and commits nothing, whatever the token endpoint
  answered: the client is exactly the one the newer operation left.
\<close>

lemma login_superseded:
  assumes "lifecycleOperationCurrentLocked p c" and "p < nextPtr c"
    and "lg_duringExchange env = (\<lambda>d. snd (beginLifecycleOperationLocked e kind d))"
  shows "loginExchange ops env oc v p nonce cd c =
           (Some ErrFlowCancelled, snd (beginLifecycleOperationLocked e kind c))"
  using assms begin_supersedes [OF assms(1,2), of e kind]
  by (simp add: loginExchange_def lifecycleOperationError_def Let_def split: sum.split)

text \<open>Nothing else happens to the client, and the flow handler does not touch it.\<close>

definition quietLogin :: "'s loginEnv \<Rightarrow> bool" where
  "quietLogin env \<longleftrightarrow>
     lg_beforeBegin env = id \<and> lg_afterFlow env = id \<and> lg_duringExchange env = id \<and>
     lg_duringVerify env = id \<and> lg_commitWait env = id \<and>
     (\<forall>u. lf_wait (lg_flow env u) = id \<and> lf_beforeStart (lg_flow env u) = id \<and>
          (\<forall>d. snd (lf_start (lg_flow env u) d) = d))"

text \<open>The session part of the client: tokens, generation, store, events and recovery state.\<close>

definition sameSession :: "'s client \<Rightarrow> 's client \<Rightarrow> bool" where
  "sameSession c d \<longleftrightarrow>
     state c = state d \<and> stateRevision c = stateRevision d \<and> store c = store d \<and>
     eventHistory c = eventHistory d \<and> persistenceRetry c = persistenceRetry d \<and>
     refreshSchedule c = refreshSchedule d \<and> restoreBlocked c = restoreBlocked d"

lemma sameSession_refl [simp]: "sameSession c c"
  by (simp add: sameSession_def)

lemma sameSession_trans: "sameSession c d \<Longrightarrow> sameSession d e \<Longrightarrow> sameSession c e"
  by (simp add: sameSession_def)

lemma sameSession_begin: "sameSession (snd (beginLifecycleOperationLocked e kind c)) c"
  by (cases "lifecycleOperation c")
    (simp_all add: sameSession_def beginLifecycleOperationLocked_def cancelOperation_def Let_def eventHistory_def)

lemma sameSession_finish: "sameSession (finishLifecycleOperation p c) c"
  by (simp add: sameSession_def)

lemma sameSession_flow:
  assumes "lf_wait env = id" and "lf_beforeStart env = id" and "\<forall>d. snd (lf_start env d) = d"
  shows "sameSession (snd (runLifecycleFlow p env c)) c"
  using assms
  by (auto simp: runLifecycleFlow_def Let_def case_prod_beta releasePermit_def sameSession_def
      eventHistory_def)

lemma sameSession_exchange:
  assumes "quietLogin env" and "fst (loginExchange ops env oc v p nonce cd c) \<noteq> None"
  shows "snd (loginExchange ops env oc v p nonce cd c) = c"
  using assms
  by (auto simp: loginExchange_def quietLogin_def commitLoginState_def Let_def case_prod_beta
      split: sum.splits if_splits)

lemma sameSession_operation:
  assumes "quietLogin env" and "fst (loginOperation ops env oc v p c) \<noteq> Some None"
  shows "sameSession (snd (loginOperation ops env oc v p c)) c"
proof -
  have flow: "sameSession (snd (runLifecycleFlow p (lg_flow env u) c)) c" for u
    using assms(1) by (intro sameSession_flow) (simp_all add: quietLogin_def)
  have quiet: "lg_afterFlow env = id" using assms(1) by (simp add: quietLogin_def)
  show ?thesis
    using assms(2) flow sameSession_exchange [OF assms(1)]
    by (auto simp: loginOperation_def Let_def case_prod_beta quiet split: sum.splits option.splits if_splits)
qed

text \<open>
  C24: a login that fails at any point, from a cancelled context to a nonce mismatch,
  leaves the session as it was: tokens, generation, store, event history, refresh schedule
  and recovery state.
\<close>

theorem login_failure_keeps_session:
  assumes "quietLogin env" and "login ops env c = (Some (Some err), c')"
  shows "sameSession c' c"
proof -
  have bgn: "sameSession (snd (beginLifecycleOperation (lg_parentErr env) lifecycleLogin c)) c"
    by (simp add: beginLifecycleOperation_def case_prod_beta sameSession_begin)
  have quiet: "lg_beforeBegin env = id" using assms(1) by (simp add: quietLogin_def)
  have op: "sameSession (finishLifecycleOperation p (snd (loginOperation ops env oc v p d))) d"
    if "fst (loginOperation ops env oc v p d) \<noteq> Some None" for oc v p d
    using sameSession_trans [OF sameSession_finish sameSession_operation [OF assms(1) that]] .
  show ?thesis
    using assms(2) bgn op sameSession_trans [OF _ bgn]
    by (auto simp: login_def Let_def case_prod_beta quiet split: option.splits if_splits)
qed

theorem login_failure_keeps_session_witness:
  "fst (login memoryStore (sampleLoginEnv sampleCallback ''wrong'') sampleClient) =
     Some (Some (Errorf [Txt ''pkceflow: '', Wrapped ErrNonceMismatch])) \<and>
   sameSession (snd (login memoryStore (sampleLoginEnv sampleCallback ''wrong'') sampleClient)) sampleClient"
proof -
  let ?env = "sampleLoginEnv sampleCallback ''wrong''"
  have 1: "fst (login memoryStore ?env sampleClient) =
      Some (Some (Errorf [Txt ''pkceflow: '', Wrapped ErrNonceMismatch]))" by code_simp
  then have "login memoryStore ?env sampleClient =
      (Some (Some (Errorf [Txt ''pkceflow: '', Wrapped ErrNonceMismatch])),
       snd (login memoryStore ?env sampleClient))" by (metis prod.collapse)
  from login_failure_keeps_session [OF _ this] 1 show ?thesis
    by (simp add: quietLogin_def sampleLoginEnv_def sampleFlow_def)
qed

text \<open>
  C25: the state of a callback is checked before anything else in it: a callback whose
  query does not carry exactly one state equal to the expected one is a state mismatch,
  even when it reports an error or carries a code; and a correlated error response is
  reported with the provider's code and description.
\<close>

theorem callback_state_first:
  assumes "Parse callbackURL = Inr parsed" and "IsAbs parsed"
    and "ParseQuery (u_RawQuery parsed) = Inr query" and "st \<noteq> ''''"
  shows "(loginCallback st callbackURL = Inl ErrStateMismatch \<longleftrightarrow> valuesOf query ''state'' \<noteq> [st]) \<and>
         (valuesOf query ''state'' = [st] \<and> Values_Get query ''error'' \<noteq> '''' \<longrightarrow>
            loginCallback st callbackURL =
              Inl (AuthError (Values_Get query ''error'') (Values_Get query ''error_description'')))"
proof -
  have one: "valuesOf query ''state'' = [st] \<longleftrightarrow>
      length (valuesOf query ''state'') = 1 \<and> valuesOf query ''state'' ! 0 = st"
    using length1_eq by fastforce
  show ?thesis
    using assms one by (auto simp: loginCallback_def Let_def)
qed

theorem callback_state_first_witness:
  "loginCallback ''QUI'' ''http://127.0.0.1:15051/callback?error=access_denied&state=other'' =
     Inl ErrStateMismatch"
proof -
  let ?u = "''http://127.0.0.1:15051/callback?error=access_denied&state=other''"
  let ?p = "emptyURL\<lparr>u_Scheme := ''http'', u_Host := ''127.0.0.1:15051'', u_Path := ''/callback'',
      u_RawQuery := ''error=access_denied&state=other''\<rparr>"
  let ?q = "[(''error'', ''access_denied''), (''state'', ''other'')]"
  have 1: "Parse ?u = Inr ?p" by code_simp
  have 2: "IsAbs ?p" by code_simp
  have 3: "ParseQuery (u_RawQuery ?p) = Inr ?q" by code_simp
  have 4: "valuesOf ?q ''state'' \<noteq> [''QUI'']" by code_simp
  from callback_state_first [OF 1 2 3, of "''QUI''"] 4 show ?thesis by blast
qed

end
