(* ===== verification/Access_Token.thy ===== *)
theory Access_Token
  imports Refresh
begin

text \<open>
  What a consumer asks of the client: \<open>AuthStatus\<close> and \<open>RestoreSession\<close> (\<open>client.go\<close>),
  \<open>AccessToken\<close> and \<open>TokenFn\<close> (\<open>accesstoken.go\<close>), and how a refused credential, a failed
  integrity check and an inconclusive refresh show there.
\<close>

section \<open>Status\<close>

definition tokenExpiryBuffer :: duration where "tokenExpiryBuffer = 30 * second"

definition tokenValid :: "gotime \<Rightarrow> token_state \<Rightarrow> bool" where
  "tokenValid now st \<longleftrightarrow> time_before now (time_add (ExpiresAt st) (- tokenExpiryBuffer))"

text \<open>
  The number of whole days is computed in Go by a float64 division that is truncated; here
  it is the exact quotient, which the float value can miss only within a nanosecond of a
  whole number of days.
\<close>

definition AuthStatus :: "gotime \<Rightarrow> 's client \<Rightarrow> auth_status_result" where
  "AuthStatus now c =
     (if TokenState_IsZero (state c) then zeroAuthStatus
      else if refreshIntegrityBlockedLocked c then zeroAuthStatus
      else let valid = tokenValid now (state c);
               graceEnd = time_add (LastAuthAt (state c)) (GracePeriod (config c));
               graceMode = (\<not> valid \<and> GracePeriod (config c) > 0 \<and>
                            \<not> time_isZero (LastAuthAt (state c)) \<and> time_before now graceEnd);
               graceDaysLeft = (if graceMode then time_sub graceEnd now div (24 * hour) else 0)
           in \<lparr>Valid = valid, GraceMode = graceMode, GraceDaysLeft = graceDaysLeft,
               CanUseApp = (valid \<or> graceMode)\<rparr>)"

section \<open>Restoring\<close>

definition RestoreSession ::
  "'s token_persistence \<Rightarrow> 's client \<Rightarrow> (bool \<times> goerror option) \<times> 's client" where
  "RestoreSession ops c =
     (if restoreBlocked c then ((False, None), c)
      else if pr_valid (persistenceRetry c) \<and> pr_revision (persistenceRetry c) = stateRevision c
      then ((\<not> TokenState_IsZero (state c), None), c)
      else case Load ops (store c) of
             Inl err \<Rightarrow> ((False, Some (RestoreSessionError err)), c)
           | Inr st \<Rightarrow>
               if TokenState_IsZero st then ((False, None), c)
               else ((True, None), setStateLocked st c))"

section \<open>Access token\<close>

definition usableAccessToken :: "gotime \<Rightarrow> 's client \<Rightarrow> string" where
  "usableAccessToken now c =
     (if TokenState_IsZero (state c) \<or> refreshIntegrityBlockedLocked c then ''''
      else if tokenValid now (state c) then AccessToken (state c)
      else if GracePeriod (config c) > 0 \<and> \<not> time_isZero (LastAuthAt (state c)) \<and>
              time_before now (time_add (LastAuthAt (state c)) (GracePeriod (config c)))
      then AccessToken (state c)
      else '''')"

text \<open>
  The environment of one call: its clock readings, the caller's context, what the others do
  where the call holds no lock, and the environment of the refresh it may lead.
\<close>

record 's accessEnv =
  ae_now :: gotime
  ae_beforeInit :: "'s client \<Rightarrow> 's client"
  ae_beforeBegin :: "'s client \<Rightarrow> 's client"
  ae_ctxErr :: "ctx_err option"
  ae_nowBegin :: gotime
  ae_waits :: "'s wait list"
  ae_outcome :: waitOutcome
  ae_others :: "'s client \<Rightarrow> 's client"
  ae_refresh :: "'s refreshEnv"
  ae_beforeBlock :: "'s client \<Rightarrow> 's client"
  ae_nowBlock :: gotime
  ae_beforeUsable :: "'s client \<Rightarrow> 's client"
  ae_nowUsable :: gotime

definition initialized :: "'s client \<Rightarrow> bool" where
  "initialized c \<longleftrightarrow> provider c \<noteq> None"

text \<open>The refresh part of \<open>AccessToken\<close>: \<open>Inr\<close> is a return, \<open>Inl\<close> falls through to grace.\<close>

definition accessRefresh ::
  "'s token_persistence \<Rightarrow> 's accessEnv \<Rightarrow> token_state \<Rightarrow> uint64 \<Rightarrow> 's client \<Rightarrow>
   (unit + string returned) \<times> 's client" where
  "accessRefresh ops env st rv c =
     (case refreshForRevision ops (ae_refresh env) (ae_ctxErr env) st rv (ae_nowBegin env)
             (ae_waits env) (ae_outcome env) (ae_others env) c of
        (None, c) \<Rightarrow> (Inr None, c)
      | (Some (newState, _, None), c) \<Rightarrow> (Inr (Some (AccessToken newState)), c)
      | (Some (_, _, Some err), c) \<Rightarrow>
          if isSessionIntegrityError err
          then (Inr (Some ''''),
                blockRefreshIntegrityLocked rv (ae_nowBlock env) (ae_beforeBlock env c))
          else if IsPermanentError err
          then (Inl (), blockRefreshPermanentLocked rv st (ae_nowBlock env) (ae_beforeBlock env c))
          else (Inl (), c))"

definition accessToken ::
  "'s token_persistence \<Rightarrow> 's accessEnv \<Rightarrow> 's client \<Rightarrow> string returned \<times> 's client" where
  "accessToken ops env c =
     (let st = state c;
          rv = stateRevision c;
          integrityBlocked = refreshIntegrityBlockedLocked c;
          permanentlyBlocked = refreshPermanentlyBlockedLocked c
      in if TokenState_IsZero st \<or> integrityBlocked then (Some '''', c)
         else if tokenValid (ae_now env) st then (Some (AccessToken st), c)
         else let (r, c) =
                    (if RefreshToken st \<noteq> '''' \<and> \<not> permanentlyBlocked
                     then let c = ae_beforeInit env c
                          in if initialized c then accessRefresh ops env st rv (ae_beforeBegin env c)
                             else (Inl (), c)
                     else (Inl (), c))
              in case r of
                   Inr ret \<Rightarrow> (ret, c)
                 | Inl _ \<Rightarrow> (let c = ae_beforeUsable env c
                             in (Some (usableAccessToken (ae_nowUsable env) c), c)))"

definition TokenFn ::
  "'s token_persistence \<Rightarrow> 's accessEnv \<Rightarrow> unit \<Rightarrow> 's client \<Rightarrow> string returned \<times> 's client" where
  "TokenFn ops env = (\<lambda>_. accessToken ops env)"

section \<open>Status and token agree\<close>

lemma usableAccessToken_eq:
  "usableAccessToken now c = (if CanUseApp (AuthStatus now c) then AccessToken (state c) else '''')"
  by (auto simp: usableAccessToken_def AuthStatus_def Let_def zeroAuthStatus_def)

text \<open>
  C31: the token handed out and the reported status always agree: a token is usable exactly
  when \<open>AuthStatus\<close> says the app can be used, and it is then the current access token; the
  two reasons exclude each other, and the days left are only reported in grace and never
  exceed the grace period.
\<close>

theorem status_token_agree:
  "usableAccessToken now c = (if CanUseApp (AuthStatus now c) then AccessToken (state c) else '''') \<and>
   (CanUseApp (AuthStatus now c) \<longleftrightarrow> Valid (AuthStatus now c) \<or> GraceMode (AuthStatus now c)) \<and>
   \<not> (Valid (AuthStatus now c) \<and> GraceMode (AuthStatus now c)) \<and>
   0 \<le> GraceDaysLeft (AuthStatus now c) \<and>
   GraceDaysLeft (AuthStatus now c) * (24 * hour) \<le>
     max 0 (t_ns (LastAuthAt (state c)) + GracePeriod (config c) - t_ns now)"
proof (intro conjI)
  let ?d = "time_sub (time_add (LastAuthAt (state c)) (GracePeriod (config c))) now"
  have h: "0 < 24 * hour" by (simp add: hour_def minute_def second_def)
  have pos: "0 < ?d" if "GraceMode (AuthStatus now c)"
    using that by (auto simp: AuthStatus_def Let_def zeroAuthStatus_def time_sub_positive_iff
        time_before_def split: if_splits)
  have days: "GraceDaysLeft (AuthStatus now c) =
      (if GraceMode (AuthStatus now c) then ?d div (24 * hour) else 0)"
    by (auto simp: AuthStatus_def Let_def zeroAuthStatus_def)
  show "0 \<le> GraceDaysLeft (AuthStatus now c)"
    using pos h unfolding days by (auto simp: pos_imp_zdiv_nonneg_iff intro: less_imp_le)
  show "GraceDaysLeft (AuthStatus now c) * (24 * hour) \<le>
     max 0 (t_ns (LastAuthAt (state c)) + GracePeriod (config c) - t_ns now)"
  proof (cases "GraceMode (AuthStatus now c)")
    case True
    have "?d div (24 * hour) * (24 * hour) \<le> ?d"
      using h by (metis div_mult_mod_eq le_add_same_cancel1 pos_mod_sign)
    moreover have "?d \<le> t_ns (LastAuthAt (state c)) + GracePeriod (config c) - t_ns now"
      using time_sub_le [OF pos [OF True]] by simp
    ultimately show ?thesis using True unfolding days by simp
  qed (simp add: days)
qed (auto simp: usableAccessToken_def AuthStatus_def Let_def zeroAuthStatus_def)

section \<open>A call that leads a refresh\<close>

text \<open>Nothing else happens to the client during the call, and the caller waits for the result.\<close>

definition quietRefresh :: "'s refreshEnv \<Rightarrow> bool" where
  "quietRefresh env \<longleftrightarrow>
     re_during env = id \<and> re_beforeRefusal env = id \<and> re_beforeFinish env = id"

definition quietAccess :: "'s accessEnv \<Rightarrow> bool" where
  "quietAccess env \<longleftrightarrow>
     ae_beforeInit env = id \<and> ae_beforeBegin env = id \<and> ae_beforeBlock env = id \<and>
     ae_beforeUsable env = id \<and> ae_ctxErr env = None \<and> ae_outcome env = AttemptClosed \<and>
     ae_waits env = [] \<and> quietRefresh (ae_refresh env)"

text \<open>The client is initialized, its access token has expired, and a refresh may be started.\<close>

definition mayRefresh :: "gotime \<Rightarrow> 's client \<Rightarrow> bool" where
  "mayRefresh now c \<longleftrightarrow>
     RefreshToken (state c) \<noteq> '''' \<and> \<not> tokenValid now (state c) \<and>
     \<not> refreshIntegrityBlockedLocked c \<and> \<not> refreshPermanentlyBlockedLocked c \<and>
     provider c \<noteq> None \<and> oauth2 c \<noteq> None \<and> verifier c \<noteq> None \<and> refreshAttempt c = None"

definition leadAttempt :: "'s client \<Rightarrow> 's client" where
  "leadAttempt c =
     c\<lparr>attempts := (attempts c)(nextPtr c \<mapsto> newAttempt (stateRevision c) (state c)),
       nextPtr := nextPtr c + 1, refreshAttempt := Some (nextPtr c)\<rparr>"

lemma leadAttempt_simps [simp]:
  "state (leadAttempt c) = state c" "stateRevision (leadAttempt c) = stateRevision c"
  "store (leadAttempt c) = store c" "config (leadAttempt c) = config c"
  "oauth2 (leadAttempt c) = oauth2 c" "verifier (leadAttempt c) = verifier c"
  "refreshSchedule (leadAttempt c) = refreshSchedule c"
  "persistenceRetry (leadAttempt c) = persistenceRetry c"
  "attempts (leadAttempt c) (nextPtr c) = Some (newAttempt (stateRevision c) (state c))"
  "refreshAttempt (leadAttempt c) = Some (nextPtr c)"
  "eventHistory (leadAttempt c) = eventHistory c"
  by (simp_all add: leadAttempt_def eventHistory_def)

lemma release_frame [simp]:
  "state (releaseRefreshParticipant p c) = state c"
  "stateRevision (releaseRefreshParticipant p c) = stateRevision c"
  "store (releaseRefreshParticipant p c) = store c"
  "config (releaseRefreshParticipant p c) = config c"
  "refreshSchedule (releaseRefreshParticipant p c) = refreshSchedule c"
  "persistenceRetry (releaseRefreshParticipant p c) = persistenceRetry c"
  "eventHistory (releaseRefreshParticipant p c) = eventHistory c"
  "refreshAttempt (releaseRefreshParticipant p c) = refreshAttempt c"
  by (simp_all add: releaseRefreshParticipant_def Let_def split: option.split)

lemma release_at_err [simp]:
  "map_option at_err (attempts (releaseRefreshParticipant p c) p) = map_option at_err (attempts c p)"
  by (auto simp: releaseRefreshParticipant_def Let_def split: option.split)

lemma accessToken_leads:
  assumes "quietAccess env" and "mayRefresh (ae_now env) c"
    and "c2 = runRefreshAttempt ops (ae_refresh env) (nextPtr c) (leadAttempt c)"
    and "c3 = releaseRefreshParticipant (nextPtr c) c2"
    and "attempts c2 (nextPtr c) = Some a" and "at_err a = Some err"
  shows "accessToken ops env c =
    (if isSessionIntegrityError err
     then (Some '''', blockRefreshIntegrityLocked (stateRevision c) (ae_nowBlock env) c3)
     else let c4 = (if IsPermanentError err
                    then blockRefreshPermanentLocked (stateRevision c) (state c) (ae_nowBlock env) c3
                    else c3)
          in (Some (usableAccessToken (ae_nowUsable env) c4), c4))"
proof -
  have nz: "\<not> TokenState_IsZero (state c)" using assms(2) by (simp add: mayRefresh_def TokenState_IsZero_def)
  have "beginRefreshAttempt (ae_ctxErr env) (state c) (Some (stateRevision c)) 0 (ae_nowBegin env)
      (ae_waits env) c = (BeginLeader (nextPtr c), leadAttempt c)"
    using assms(1,2)
    by (auto simp: quietAccess_def mayRefresh_def beginRefreshAttempt_def beginRefreshAttempt_pass_def
        leadAttempt_def Let_def)
  moreover have "map_option at_err (attempts c3 (nextPtr c)) = Some (Some err)"
    using assms(4-6) by simp
  then obtain a3 where "attempts c3 (nextPtr c) = Some a3" "at_err a3 = Some err" by auto
  ultimately have "refreshForRevision ops (ae_refresh env) (ae_ctxErr env) (state c) (stateRevision c)
      (ae_nowBegin env) (ae_waits env) (ae_outcome env) (ae_others env) c =
      (Some (at_state a3, True, Some err), c3)"
    using assms(1,3,4)
    by (simp add: refreshForRevision_def refreshAtRevision_def finishWait_def waitForRefreshAttempt_def
        quietAccess_def)
  then show ?thesis
    using assms(1,2) nz
    by (simp add: accessToken_def accessRefresh_def quietAccess_def mayRefresh_def initialized_def Let_def)
qed

section \<open>Refused sessions\<close>

lemma refused_unusable:
  assumes "TokenState_IsZero (state c) \<or> t_ns (ExpiresAt (state c)) = 0 \<and> t_ns (LastAuthAt (state c)) = 0"
    and "0 \<le> t_ns now"
  shows "\<not> CanUseApp (AuthStatus now c)" and "usableAccessToken now c = ''''"
  using assms
  by (auto simp: AuthStatus_def usableAccessToken_def zeroAuthStatus_def tokenValid_def Let_def
      time_before_def time_isZero_def tokenExpiryBuffer_def second_def)

lemma refusedState_times [simp]:
  "ExpiresAt (refusedState st) = zeroTime" "LastAuthAt (refusedState st) = zeroTime"
  "RefreshToken (refusedState st) = ''''" "AccessToken (refusedState st) = ''''"
  "IDToken (refusedState st) = IDToken st"
  by (simp_all add: refusedState_def)

lemma run_refused:
  assumes "quietRefresh env" and "attempts c p = Some att" and "oauth2 c = Some oc"
    and "verifier c \<noteq> None" and "re_token env oc (RefreshToken (at_snapshot att)) = Inl err"
    and "isCredentialRefusedError (refreshError err)" and "refusalStands ops att c"
    and "c' = runRefreshAttempt ops env p c"
  shows "state c' = refusedState (at_snapshot att)" and "stateRevision c' = stateRevision c + 1"
    and "store c' = snd (Save ops (refusedState (at_snapshot att)) (store c))"
    and "eventHistory c' = eventHistory c @ [nilEvent EventSessionExpired]"
    and "map_option at_err (attempts c' p) = Some (Some (refreshError err))"
    and "refreshSchedule c' = zeroSchedule" and "config c' = config c"
    and "refreshAttempt c' = (if refreshAttempt c = Some p then None else refreshAttempt c)"
proof -
  from assms(4) obtain v where v: "verifier c = Some v" by auto
  have rv: "stateRevision c = at_revision att" using assms(7) by (simp add: refusalStands_def)
  have perf: "performRefresh ops env (at_snapshot att) (at_revision att) c =
      ((zeroTokenState, False, Some (refreshError err)), c)"
    using performRefresh_network_failure [OF assms(3) v assms(5), of ops] assms(1) rv
    by (simp add: quietRefresh_def refreshError_def)
  obtain d c2 where cr: "commitCredentialRefusal ops att (Some (refreshError err)) (re_nowRefusal env)
      (re_beforeRefusal env c) = (d, c2)" by fastforce
  with assms(1) have cr': "commitCredentialRefusal ops att (Some (refreshError err))
      (re_nowRefusal env) c = (d, c2)" by (simp add: quietRefresh_def)
  note r = commitCredentialRefusal_commits [OF assms(6,7) cr']
  have id2: "re_beforeFinish env c2 = c2" using assms(1) by (simp add: quietRefresh_def)
  have at2: "attempts c2 p = Some att" using r(6) assms(2) by simp
  note f = runRefreshAttempt_error [OF assms(2,3) v perf cr id2 at2 assms(8)]
  have stale: "stateRevision c2 \<noteq> at_revision att" using r(2) rv by simp
  have "\<not> isSessionIntegrityError (refreshError err)"
    using assms(6) integrity_not_refused by blast
  with stale refused_permanent [OF assms(6)]
  have "markOutcome att (Some (refreshError err)) (re_nowFinish env) c2 = c2"
    by (simp add: markOutcome_def blockPermanent_stale)
  with f r show "state c' = refusedState (at_snapshot att)" "stateRevision c' = stateRevision c + 1"
    "store c' = snd (Save ops (refusedState (at_snapshot att)) (store c))"
    "eventHistory c' = eventHistory c @ [nilEvent EventSessionExpired]"
    "map_option at_err (attempts c' p) = Some (Some (refreshError err))"
    "refreshSchedule c' = zeroSchedule" "config c' = config c"
    "refreshAttempt c' = (if refreshAttempt c = Some p then None else refreshAttempt c)"
    by simp_all
qed

text \<open>
  What a restart makes of a stored refused generation, for every store that keeps the
  contract.
\<close>

context persistence_contract
begin

lemma refused_survives_restart:
  assumes "wfs s" and "storable (refusedState st)" and "Save ops (refusedState st) s = (None, s')" and "0 \<le> t_ns now"
  shows "\<not> CanUseApp (AuthStatus now (snd (RestoreSession ops (newClient cfg s'))))"
proof (cases "Load ops s'")
  case (Inl e)
  then show ?thesis
    by (simp add: RestoreSession_def newClient_def AuthStatus_def zeroAuthStatus_def)
next
  case (Inr ts)
  from save_load [OF assms(1,2,3) Inr] have "t_ns (ExpiresAt ts) = 0" "t_ns (LastAuthAt ts) = 0"
    by (simp_all add: sameTokenState_def)
  moreover have "state (snd (RestoreSession ops (newClient cfg s'))) \<in> {ts, zeroTokenState}"
    using Inr by (simp add: RestoreSession_def newClient_def setStateLocked_def)
  ultimately show ?thesis using assms(4) refused_unusable(1) by fastforce
qed

end

text \<open>
  C1: when the provider refuses the refresh token, the call returns no token, the session
  stops being usable at once, keeps only its ID token, is stored in that form and announced,
  and it stays unusable after a restart from the store, whatever the grace period is.
\<close>

theorem refused_session_unusable:
  assumes "persistence_contract ops wfs storable" and "wfs (store c)"
    and "quietAccess env" and "mayRefresh (ae_now env) c" and "oauth2 c = Some oc"
    and "re_token (ae_refresh env) oc (RefreshToken (state c)) =
           Inl (RetrieveError ''invalid_grant'' desc status body)"
    and "refusalStands ops (newAttempt (stateRevision c) (state c)) c"
    and "Save ops (refusedState (state c)) (store c) = (None, s)"
    and "0 \<le> t_ns (ae_nowUsable env)"
    and "accessToken ops env c = (tok, c')"
    and "storable (refusedState (state c))"
  shows "tok = Some '''' \<and> state c' = refusedState (state c) \<and>
         stateRevision c' = stateRevision c + 1 \<and> store c' = s \<and>
         eventHistory c' = eventHistory c @ [nilEvent EventSessionExpired] \<and>
         (\<forall>now. 0 \<le> t_ns now \<longrightarrow> \<not> CanUseApp (AuthStatus now c')) \<and>
         (\<forall>now cfg. 0 \<le> t_ns now \<longrightarrow>
            \<not> CanUseApp (AuthStatus now (snd (RestoreSession ops (newClient cfg s)))))"
proof -
  let ?err = "refreshError (RetrieveError ''invalid_grant'' desc status body)"
  let ?att = "newAttempt (stateRevision c) (state c)" and ?p = "nextPtr c"
  define c2 where "c2 = runRefreshAttempt ops (ae_refresh env) ?p (leadAttempt c)"
  have quiet: "quietRefresh (ae_refresh env)" using assms(3) by (simp add: quietAccess_def)
  have att: "attempts (leadAttempt c) ?p = Some ?att" by simp
  have oc: "oauth2 (leadAttempt c) = Some oc" using assms(5) by simp
  have ver: "verifier (leadAttempt c) \<noteq> None" using assms(4) by (simp add: mayRefresh_def)
  have snap: "at_snapshot ?att = state c" "at_revision ?att = stateRevision c"
    by (simp_all add: newAttempt_def)
  have stands: "refusalStands ops ?att (leadAttempt c)"
    using assms(7) by (simp add: refusalStands_def refreshInconclusiveLocked_def)
  have token: "re_token (ae_refresh env) oc (RefreshToken (at_snapshot ?att)) =
      Inl (RetrieveError ''invalid_grant'' desc status body)" using assms(6) snap by simp
  have refused: "isCredentialRefusedError ?err" by simp
  note r = run_refused [OF quiet att oc ver token refused stands c2_def]
  from r(5) obtain a where a: "attempts c2 ?p = Some a" "at_err a = Some ?err" by auto
  let ?c3 = "releaseRefreshParticipant ?p c2"
  have rv3: "stateRevision ?c3 \<noteq> stateRevision c" using r(2) by simp
  have acc: "accessToken ops env c = (Some (usableAccessToken (ae_nowUsable env) ?c3), ?c3)"
    using accessToken_leads [OF assms(3,4) c2_def refl a] rv3
    by (simp add: blockPermanent_stale Let_def)
  then have c': "c' = ?c3" and tok: "tok = Some (usableAccessToken (ae_nowUsable env) ?c3)"
    using assms(10) by simp_all
  have st: "state ?c3 = refusedState (state c)" using r(1) snap by simp
  have zero: "t_ns (ExpiresAt (state ?c3)) = 0 \<and> t_ns (LastAuthAt (state ?c3)) = 0"
    unfolding st by simp
  have "tok = Some ''''" using refused_unusable(2) [OF disjI2 [OF zero] assms(9)] tok by simp
  moreover have "\<not> CanUseApp (AuthStatus now c')" if "0 \<le> t_ns now" for now
    using refused_unusable(1) [OF disjI2 [OF zero] that] c' by simp
  ultimately show ?thesis
    using r(2-4) st snap assms(8) c'
      persistence_contract.refused_survives_restart [OF assms(1,2,11,8)] by simp
qed

definition sampleAccessEnv :: "(goerror + oauth2_token) \<Rightarrow> int \<Rightarrow> token_state accessEnv" where
  "sampleAccessEnv answer s =
     \<lparr>ae_now = atSec s, ae_beforeInit = id, ae_beforeBegin = id, ae_ctxErr = None,
      ae_nowBegin = atSec s, ae_waits = [], ae_outcome = AttemptClosed, ae_others = id,
      ae_refresh = (sampleEnv answer)\<lparr>re_during := id, re_beforeRefusal := id, re_beforeFinish := id\<rparr>,
      ae_beforeBlock = id, ae_nowBlock = atSec s, ae_beforeUsable = id, ae_nowUsable = atSec s\<rparr>"

lemma sampleAccessEnv_simps [simp]:
  "quietAccess (sampleAccessEnv answer s)"
  "ae_now (sampleAccessEnv answer s) = atSec s" "ae_nowUsable (sampleAccessEnv answer s) = atSec s"
  "re_token (ae_refresh (sampleAccessEnv answer s)) oc rt = answer"
  by (simp_all add: sampleAccessEnv_def sampleEnv_def quietAccess_def quietRefresh_def)

lemma sampleClient_simps [simp]:
  "oauth2 sampleClient = Some sampleOAuth2" "verifier sampleClient = Some 0"
  "provider sampleClient = Some 0" "state sampleClient = sampleState"
  "store sampleClient = sampleState" "config sampleClient = sampleConfig"
  "stateRevision sampleClient = 7" "refreshSchedule sampleClient = zeroSchedule"
  "refreshAttempt sampleClient = None" "persistenceRetry sampleClient = zeroPersistenceRetry"
  "restoreBlocked sampleClient = False"
  by (simp_all add: sampleClient_def newClient_def)

lemma sampleClient_mayRefresh: "mayRefresh (atSec 2500) sampleClient"
  by code_simp

abbreviation sampleRefusal :: goerror where
  "sampleRefusal \<equiv> RetrieveError ''invalid_grant'' ''revoked'' None ''''"

theorem refused_session_unusable_witness:
  "fst (accessToken memoryStore (sampleAccessEnv (Inl sampleRefusal) 2500) sampleClient) = Some '''' \<and>
   CanUseApp (AuthStatus (atSec 2500) sampleClient) \<and>
   \<not> CanUseApp (AuthStatus (atSec 2500)
      (snd (accessToken memoryStore (sampleAccessEnv (Inl sampleRefusal) 2500) sampleClient)))"
proof -
  let ?env = "sampleAccessEnv (Inl sampleRefusal) 2500"
  have 1: "mayRefresh (ae_now ?env) sampleClient" by (simp add: sampleClient_mayRefresh)
  have 2: "refusalStands memoryStore (newAttempt (stateRevision sampleClient) (state sampleClient)) sampleClient"
    by code_simp
  have 3: "re_token (ae_refresh ?env) sampleOAuth2 (RefreshToken (state sampleClient)) = Inl sampleRefusal"
    by simp
  have 4: "0 \<le> t_ns (ae_nowUsable ?env)" by (simp add: second_def)
  have 5: "0 \<le> t_ns (atSec 2500)" by (simp add: second_def)
  have 6: "CanUseApp (AuthStatus (atSec 2500) sampleClient)" by code_simp
  from refused_session_unusable [OF memory.persistence_contract_axioms TrueI
      sampleAccessEnv_simps(1) 1 sampleClient_simps(1) 3 2 memoryStore_simps(1) 4 prod.collapse [symmetric] TrueI]
  show ?thesis using 5 6 by blast
qed

section \<open>Failures that leave the generation in place\<close>

lemma run_failed:
  assumes "quietRefresh env" and "attempts c p = Some att" and "oauth2 c = Some oc"
    and "verifier c = Some v"
    and "performRefresh ops env (at_snapshot att) (at_revision att) c = ((st, drain, Some e), c)"
    and "\<not> isCredentialRefusedError e" and "c' = runRefreshAttempt ops env p c"
  shows "state c' = state c" and "stateRevision c' = stateRevision c" and "store c' = store c"
    and "config c' = config c" and "eventHistory c' = eventHistory c"
    and "refreshSchedule c' = refreshSchedule (markOutcome att (Some e) (re_nowFinish env) c)"
    and "map_option at_err (attempts c' p) = Some (Some e)"
    and "refreshAttempt c' = (if refreshAttempt c = Some p then None else refreshAttempt c)"
proof -
  have skip: "commitCredentialRefusal ops att (Some e) (re_nowRefusal env) (re_beforeRefusal env c) =
      (False, c)"
    using assms(1,6) by (simp add: commitCredentialRefusal_skips quietRefresh_def)
  have idf: "re_beforeFinish env c = c" using assms(1) by (simp add: quietRefresh_def)
  note f = runRefreshAttempt_error [OF assms(2-5) skip idf assms(2,7)]
  show "state c' = state c" "stateRevision c' = stateRevision c" "store c' = store c"
    "config c' = config c" "eventHistory c' = eventHistory c"
    "refreshSchedule c' = refreshSchedule (markOutcome att (Some e) (re_nowFinish env) c)"
    "map_option at_err (attempts c' p) = Some (Some e)"
    "refreshAttempt c' = (if refreshAttempt c = Some p then None else refreshAttempt c)"
    by (simp_all add: f)
qed

lemma permanent_block_schedule:
  assumes "stateRevision c = rv" and "disposition (effectiveSchedule c) \<noteq> refreshLoopBlockedIntegrity"
  shows "refreshPermanentlyBlockedLocked (blockRefreshPermanentLocked rv st t c)"
    and "\<not> refreshIntegrityBlockedLocked (blockRefreshPermanentLocked rv st t c)"
  using assms
  by (simp_all add: blockRefreshPermanentLocked_def Let_def effectiveSchedule_def
      refreshPermanentlyBlockedLocked_def refreshIntegrityBlockedLocked_def)

lemma effective_not_integrity:
  "\<not> refreshIntegrityBlockedLocked c \<Longrightarrow> disposition (effectiveSchedule c) \<noteq> refreshLoopBlockedIntegrity"
  by (auto simp: refreshIntegrityBlockedLocked_def effectiveSchedule_def refreshScheduleLocked_def
      freshSchedule_def)

text \<open>
  C23: a refusal of the client registration keeps grace: the generation is left as it was,
  nothing is stored or announced, the expired token is still handed out within the grace
  period, and the generation is parked so that no later call contacts the provider again.
\<close>

theorem registration_refusal_keeps_grace:
  assumes "quietAccess env" and "mayRefresh (ae_now env) c" and "oauth2 c = Some oc"
    and "re_token (ae_refresh env) oc (RefreshToken (state c)) = Inl (RetrieveError code desc status body)"
    and "code \<in> {''invalid_client'', ''unauthorized_client''}"
    and "accessToken ops env c = (tok, c')"
  shows "state c' = state c \<and> stateRevision c' = stateRevision c \<and> store c' = store c \<and>
         eventHistory c' = eventHistory c \<and> refreshPermanentlyBlockedLocked c' \<and>
         refreshAttempt c' = None \<and>
         tok = Some (if CanUseApp (AuthStatus (ae_nowUsable env) c) then AccessToken (state c) else '''') \<and>
         fst (beginRefreshAttempt_pass (state c) None 0 t c') =
           BeginReturn (state c) (Some errRefreshPermanentlyBlocked)"
proof -
  let ?err = "refreshError (RetrieveError code desc status body)"
  let ?att = "newAttempt (stateRevision c) (state c)" and ?p = "nextPtr c"
  define c2 where "c2 = runRefreshAttempt ops (ae_refresh env) ?p (leadAttempt c)"
  let ?c3 = "releaseRefreshParticipant ?p c2"
  let ?c4 = "blockRefreshPermanentLocked (stateRevision c) (state c) (ae_nowBlock env) ?c3"
  have quiet: "quietRefresh (ae_refresh env)" using assms(1) by (simp add: quietAccess_def)
  obtain v where ver: "verifier (leadAttempt c) = Some v" using assms(2) by (auto simp: mayRefresh_def)
  have snap: "at_snapshot ?att = state c" "at_revision ?att = stateRevision c"
    by (simp_all add: newAttempt_def)
  have oc: "oauth2 (leadAttempt c) = Some oc" using assms(3) by simp
  have perf: "performRefresh ops (ae_refresh env) (at_snapshot ?att) (at_revision ?att) (leadAttempt c) =
      ((zeroTokenState, False, Some ?err), leadAttempt c)"
    using performRefresh_network_failure [OF oc ver, of "ae_refresh env" "state c"] assms(4) quiet snap
    by (simp add: quietRefresh_def refreshError_def)
  have kind: "\<not> isCredentialRefusedError ?err" "\<not> isSessionIntegrityError ?err" "IsPermanentError ?err"
    using assms(5) by auto
  note f = run_failed [OF quiet leadAttempt_simps(9) oc ver perf kind(1) c2_def]
  from f(7) obtain a where a: "attempts c2 ?p = Some a" "at_err a = Some ?err" by auto
  have acc: "tok = Some (usableAccessToken (ae_nowUsable env) ?c4)" "c' = ?c4"
    using accessToken_leads [OF assms(1,2) c2_def refl a] kind assms(6) by (simp_all add: Let_def)
  have notInt: "\<not> refreshIntegrityBlockedLocked (leadAttempt c)"
    using assms(2) by (simp add: mayRefresh_def refreshIntegrityBlockedLocked_def)
  have "\<not> refreshIntegrityBlockedLocked (blockRefreshPermanentLocked (stateRevision c) (state c)
      (re_nowFinish (ae_refresh env)) (leadAttempt c))"
    by (rule permanent_block_schedule(2)) (simp_all add: effective_not_integrity [OF notInt])
  then have "\<not> refreshIntegrityBlockedLocked ?c3"
    using f(2,6) kind snap by (simp add: markOutcome_def refreshIntegrityBlockedLocked_def)
  have frame: "state c' = state c" "stateRevision c' = stateRevision c" "store c' = store c"
    "eventHistory c' = eventHistory c" "refreshAttempt c' = None" "config c' = config c"
    using f unfolding acc(2) by simp_all
  have perm: "refreshPermanentlyBlockedLocked c'" "\<not> refreshIntegrityBlockedLocked c'"
    unfolding acc(2) using f(2) \<open>\<not> refreshIntegrityBlockedLocked ?c3\<close>
    by (simp_all add: permanent_block_schedule effective_not_integrity)
  have "AuthStatus now c' = AuthStatus now c" for now
    using frame perm(2) assms(2) by (simp add: AuthStatus_def mayRefresh_def)
  then have "tok = Some (if CanUseApp (AuthStatus (ae_nowUsable env) c) then AccessToken (state c) else '''')"
    using acc frame(1) usableAccessToken_eq [of "ae_nowUsable env" c'] by simp
  with frame perm show ?thesis by (simp add: beginRefreshAttempt_pass_def)
qed

theorem registration_refusal_keeps_grace_witness:
  "fst (accessToken memoryStore
     (sampleAccessEnv (Inl (RetrieveError ''invalid_client'' ''unknown'' None '''')) 2500) sampleClient) =
     Some ''at1'' \<and>
   refreshPermanentlyBlockedLocked (snd (accessToken memoryStore
     (sampleAccessEnv (Inl (RetrieveError ''invalid_client'' ''unknown'' None '''')) 2500) sampleClient))"
proof -
  let ?env = "sampleAccessEnv (Inl (RetrieveError ''invalid_client'' ''unknown'' None '''')) 2500"
  have 1: "mayRefresh (ae_now ?env) sampleClient" by (simp add: sampleClient_mayRefresh)
  have 2: "re_token (ae_refresh ?env) sampleOAuth2 (RefreshToken (state sampleClient)) =
      Inl (RetrieveError ''invalid_client'' ''unknown'' None '''')" by simp
  have 3: "CanUseApp (AuthStatus (atSec 2500) sampleClient)" by code_simp
  have 4: "AccessToken sampleState = ''at1''" by (simp add: sampleState_def)
  from registration_refusal_keeps_grace [OF sampleAccessEnv_simps(1) 1 sampleClient_simps(1) 2 _
      prod.collapse [symmetric], of memoryStore] 3 4
  show ?thesis by simp
qed


definition sampleOtherSubject :: "token_state accessEnv" where
  "sampleOtherSubject =
     (let env = sampleAccessEnv (Inr sampleToken) 2500
      in env\<lparr>ae_refresh := (ae_refresh env)\<lparr>re_verify := (\<lambda>_ _. Inr (sampleIDToken\<lparr>it_Subject := ''mallory''\<rparr>))\<rparr>\<rparr>)"


section \<open>Restart\<close>

lemma AuthStatus_sameTokenState:
  assumes "sameTokenState (state c) (state d)" and "config c = config d"
    and "\<not> refreshIntegrityBlockedLocked c" and "\<not> refreshIntegrityBlockedLocked d"
  shows "AuthStatus now c = AuthStatus now d"
proof -
  have "tokenValid now (state c) = tokenValid now (state d)"
    and "time_isZero (LastAuthAt (state c)) = time_isZero (LastAuthAt (state d))"
    and "time_before now (time_add (LastAuthAt (state c)) g) = time_before now (time_add (LastAuthAt (state d)) g)"
    and "time_sub (time_add (LastAuthAt (state c)) g) now = time_sub (time_add (LastAuthAt (state d)) g) now" for g
    using assms(1)
    by (simp_all add: tokenValid_def time_before_def time_isZero_def time_sub_def sameTokenState_def)
  with assms show ?thesis
    by (simp add: AuthStatus_def sameTokenState_IsZero [OF assms(1)] Let_def)
qed

lemma RestoreSession_fresh:
  assumes "Load ops s = Inr ts" and "RestoreSession ops (newClient cfg s) = ((restored, err), c')"
  shows "err = None" and "restored = (\<not> TokenState_IsZero ts)"
    and "restored \<Longrightarrow> state c' = ts" and "\<not> restored \<Longrightarrow> c' = newClient cfg s"
    and "config c' = cfg" and "\<not> refreshIntegrityBlockedLocked c'"
  using assms
  by (auto simp: RestoreSession_def setStateLocked_def newClient_def refreshIntegrityBlockedLocked_def
      split: if_splits)

text \<open>Restoring what a store returned for a generation with the same tokens and instants.\<close>

lemma RestoreSession_same:
  assumes "Load ops s = Inr ts" and "sameTokenState (state c) ts" and "\<not> refreshIntegrityBlockedLocked c"
    and "RestoreSession ops (newClient (config c) s) = ((restored, err), c')"
  shows "err = None \<and> (restored \<longleftrightarrow> \<not> TokenState_IsZero (state c)) \<and>
         (restored \<longrightarrow> sameTokenState (state c) (state c')) \<and>
         AuthStatus now c' = AuthStatus now c"
proof -
  note r = RestoreSession_fresh [OF assms(1,4)]
  have restored: "restored \<longleftrightarrow> \<not> TokenState_IsZero (state c)"
    using r(2) sameTokenState_IsZero [OF assms(2)] by simp
  moreover have "AuthStatus now c' = AuthStatus now c"
  proof (cases restored)
    case True
    then have "sameTokenState (state c) (state c')" using r(3) assms(2) by simp
    with AuthStatus_sameTokenState [of c c' "now"] r(5,6) assms(3) show ?thesis by simp
  next
    case False
    then have "state c' = zeroTokenState" using r(4) by (simp add: newClient_def)
    with False restored show ?thesis by (simp add: AuthStatus_def)
  qed
  ultimately show ?thesis using r(1,3) assms(2) by simp
qed

text \<open>
  C29: a session survives a restart. When the generation in memory was saved without an
  error and the store answers, a new client over that store restores a session exactly when
  there was one, and reports the same status at every time, unless the old client had
  blocked its session after an integrity failure.
\<close>

theorem restore_after_restart:
  assumes "persistence_contract ops wfs storable" and "wfs s" and "storable (state c)"
    and "Save ops (state c) s = (None, s')"
    and "Load ops s' = Inr ts" and "\<not> refreshIntegrityBlockedLocked c"
    and "RestoreSession ops (newClient (config c) s') = ((restored, err), c')"
  shows "err = None \<and> (restored \<longleftrightarrow> \<not> TokenState_IsZero (state c)) \<and>
         (restored \<longrightarrow> sameTokenState (state c) (state c')) \<and>
         AuthStatus now c' = AuthStatus now c"
  using persistence_contract.save_load [OF assms(1-5)] by (rule RestoreSession_same [OF assms(5) _ assms(6,7)])

theorem restore_after_restart_witness:
  "fst (RestoreSession memoryStore (newClient sampleConfig sampleState)) = (True, None) \<and>
   AuthStatus (atSec 2500) (snd (RestoreSession memoryStore (newClient sampleConfig sampleState))) =
     AuthStatus (atSec 2500) sampleClient"
proof -
  let ?r = "RestoreSession memoryStore (newClient sampleConfig sampleState)"
  have 1: "Save memoryStore (state sampleClient) sampleState = (None, sampleState)" by simp
  have 2: "\<not> refreshIntegrityBlockedLocked sampleClient" by code_simp
  have 3: "RestoreSession memoryStore (newClient (config sampleClient) sampleState) =
      ((fst (fst ?r), snd (fst ?r)), snd ?r)" by simp
  have 4: "\<not> TokenState_IsZero (state sampleClient)" by code_simp
  from restore_after_restart [OF memory.persistence_contract_axioms TrueI TrueI 1 memoryStore_simps(2) 2 3] 4
  show ?thesis by (metis prod.collapse)
qed

text \<open>
  C38: restoring never damages the session in memory. A failing \<open>Load\<close> leaves the client
  untouched and returns an error that wraps the cause but whose text does not depend on it;
  a generation that is still waiting to be saved is kept; a logged-out client restores
  nothing; and a successful restore of the tokens already held changes nothing.
\<close>

theorem restore_safe:
  assumes "RestoreSession ops c = ((restored, err), c')"
  shows "(\<forall>e. err = Some e \<longrightarrow>
            c' = c \<and> \<not> restored \<and> (\<exists>cause. Load ops (store c) = Inl cause \<and> errors_is e cause) \<and>
            errorText e = ''pkceflow: failed to restore persisted session'') \<and>
         (pr_valid (persistenceRetry c) \<and> pr_revision (persistenceRetry c) = stateRevision c \<longrightarrow> c' = c) \<and>
         (restoreBlocked c \<longrightarrow> c' = c \<and> \<not> restored) \<and>
         (Load ops (store c) = Inr (state c) \<longrightarrow> c' = c) \<and>
         (restored \<longrightarrow> \<not> TokenState_IsZero (state c')) \<and> (c' \<noteq> c \<longrightarrow> restored) \<and>
         store c' = store c \<and> eventHistory c' = eventHistory c"
proof -
  have refl: "errors_is e e" for e by (cases e) simp_all
  show ?thesis
    using assms refl
    by (auto simp: RestoreSession_def setStateLocked_def split: if_splits sum.splits)
qed

theorem restore_safe_witness:
  "snd (RestoreSession \<lparr>Save = (\<lambda>_ _. (None, ())), Load = (\<lambda>_. Inl (OtherError ''secret path'')),
          Delete = (\<lambda>_. (None, ()))\<rparr> (newClient sampleConfig ())) = newClient sampleConfig () \<and>
   errorText (RestoreSessionError (OtherError ''secret path'')) =
     ''pkceflow: failed to restore persisted session''"
proof -
  let ?ops = "\<lparr>Save = (\<lambda>_ _. (None, ())), Load = (\<lambda>_. Inl (OtherError ''secret path'')),
      Delete = (\<lambda>_. (None, ()))\<rparr> :: unit token_persistence"
  have "RestoreSession ?ops (newClient sampleConfig ()) =
      ((False, Some (RestoreSessionError (OtherError ''secret path''))),
       snd (RestoreSession ?ops (newClient sampleConfig ())))"
    by (simp add: RestoreSession_def newClient_def)
  from restore_safe [OF this] show ?thesis by blast
qed


section \<open>An integrity block that does not last\<close>

text \<open>
  The block after an integrity failure leaves the scheduler's claim in place, and finishing
  that claim writes the disposition whatever it is. When a scheduled attempt was refused
  because the token had expired, and an on-demand attempt fails the integrity check before
  the loop records that refusal, the record replaces the block: the status returns to grace.
\<close>

definition claimedClient :: "token_state client" where
  "claimedClient = snd (nextRefreshLoopAction (atSec 1999) sampleClient)"

lemma integrity_block_overwritten:
  "let action = fst (nextRefreshLoopAction (atSec 1999) sampleClient);
       blocked = blockRefreshIntegrityLocked 7 (atSec 2001) claimedClient;
       finished = finishRefreshLoopAttempt action refreshLoopAttemptExpiredBeforeStart (atSec 2002) blocked
   in a_kind action = refreshLoopAttempt \<and> \<not> CanUseApp (AuthStatus (atSec 2003) blocked) \<and>
      GraceMode (AuthStatus (atSec 2003) finished) \<and> CanUseApp (AuthStatus (atSec 2003) finished)"
  by code_simp

end
