(* ===== verification/Go_Url_Roundtrip.thy ===== *)
theory Go_Url_Roundtrip
  imports Go_Url
begin

text \<open>
  Printing and parsing a URL: for hierarchical URLs with a host and without user
  information, \<open>Parse\<close> reads back what \<open>String\<close> wrote, whatever bytes the path holds and
  whatever query was set.
\<close>

definition validScheme :: "string \<Rightarrow> bool" where
  "validScheme s \<longleftrightarrow>
     s \<noteq> [] \<and> isAlnum (hd s) \<and> \<not> isDigit (hd s) \<and>
     list_all (\<lambda>ch. isAlnum ch \<or> ch \<in> set ''+-.'') s \<and> toLower s = s"

definition plainHost :: "string \<Rightarrow> bool" where
  "plainHost h \<longleftrightarrow>
     h \<noteq> [] \<and> list_all (\<lambda>ch. isAlnum ch \<or> ch \<in> set ''-._~:[]'') h \<and> parseHost h = Some h"

definition plainURL :: "url \<Rightarrow> bool" where
  "plainURL u \<longleftrightarrow>
     validScheme (u_Scheme u) \<and> u_Opaque u = '''' \<and> u_User u = None \<and> plainHost (u_Host u) \<and>
     (u_Path u = '''' \<or> hd (u_Path u) = CHR ''/'') \<and> u_RawPath u = '''' \<and> \<not> u_OmitHost u \<and>
     \<not> u_ForceQuery u \<and> u_Fragment u = '''' \<and> u_RawFragment u = ''''"

text \<open>Printable ASCII without the characters that end a path or a query.\<close>

definition urlSafe :: "char \<Rightarrow> bool" where
  "urlSafe ch \<longleftrightarrow> 32 < byteOf ch \<and> byteOf ch < 127 \<and> ch \<noteq> CHR ''#''"

lemma isAlnum_urlSafe:
  assumes "isAlnum ch" shows "urlSafe ch \<and> ch \<notin> set ''/?#:@%''"
proof -
  have "list_all (\<lambda>x. \<not> isAlnum x) ''/?#:@%''" by code_simp
  with assms have "ch \<notin> set ''/?#:@%''" unfolding list_all_iff by blast
  then show ?thesis using assms by (auto simp: urlSafe_def isAlnum_def)
qed

lemma urlSafe_unsafe_escaped: "\<not> urlSafe ch \<Longrightarrow> mode \<in> {encodePath, encodeQueryComponent} \<Longrightarrow> shouldEscape ch mode"
proof -
  assume "\<not> urlSafe ch" and mode: "mode \<in> {encodePath, encodeQueryComponent}"
  then have alnum: "\<not> isAlnum ch" using isAlnum_urlSafe by blast
  have "list_all urlSafe ''-_.~''" "list_all urlSafe ''$&+,/:;=?@''" by code_simp+
  with \<open>\<not> urlSafe ch\<close> have sep: "ch \<notin> set ''-_.~''" "ch \<notin> set ''$&+,/:;=?@''"
    unfolding list_all_iff by blast+
  have host: "(mode \<in> {encodeHost, encodeZone}) = False" "(mode = encodeFragment) = False" using mode by auto
  show ?thesis unfolding shouldEscape_def host using alnum sep by (simp only: if_False simp_thms)
qed

lemma upperhex_urlSafe: "n < 16 \<Longrightarrow> urlSafe (upperhex n) \<and> upperhex n \<notin> set ''?/''"
proof -
  assume "n < 16"
  then have "n \<in> set [0..<16]" by simp
  moreover have "\<forall>n \<in> set [0..<16]. urlSafe (upperhex n) \<and> upperhex n \<notin> set ''?/''" by code_simp
  ultimately show ?thesis by blast
qed

lemma escapeChar_urlSafe:
  assumes "mode \<in> {encodePath, encodeQueryComponent}"
  shows "list_all (\<lambda>ch. urlSafe ch \<and> ch \<noteq> CHR ''?'') (escapeChar mode ch)"
proof -
  have "byteOf ch div 16 < 16" using byteOf_less [of ch] by linarith
  then have "urlSafe (upperhex (byteOf ch div 16))" "urlSafe (upperhex (byteOf ch mod 16))"
    "upperhex (byteOf ch div 16) \<noteq> CHR ''?''" "upperhex (byteOf ch mod 16) \<noteq> CHR ''?''"
    using upperhex_urlSafe by simp_all
  moreover have "urlSafe (CHR ''%'')" "urlSafe (CHR ''+'')" by code_simp+
  moreover have "shouldEscape (CHR ''?'') encodePath" "shouldEscape (CHR ''?'') encodeQueryComponent"
    by code_simp+
  ultimately show ?thesis
    using urlSafe_unsafe_escaped [of ch mode] assms by (auto simp: escapeChar_def)
qed

lemma escape_urlSafe:
  "mode \<in> {encodePath, encodeQueryComponent} \<Longrightarrow>
   list_all (\<lambda>ch. urlSafe ch \<and> ch \<noteq> CHR ''?'') (escape mode s)"
  using escapeChar_urlSafe [of mode] by (induction s) (auto simp: escape_def)

lemma joinWith_all:
  "(\<And>s. s \<in> set ss \<Longrightarrow> list_all P s) \<Longrightarrow> list_all P sep \<Longrightarrow> list_all P (joinWith sep ss)"
  by (induction sep ss rule: joinWith.induct) auto

lemma Encode_urlSafe: "list_all urlSafe (Values_Encode q)"
proof -
  have safe: "list_all urlSafe (escape encodeQueryComponent s)" for s
    using escape_urlSafe [of encodeQueryComponent s] by (auto simp: list_all_iff)
  have "urlSafe (CHR ''='')" "urlSafe (CHR ''&'')" by code_simp+
  then show ?thesis
    unfolding Values_Encode_alt by (intro joinWith_all) (auto simp: encodePair_def safe)
qed

lemma Encode_nonempty: "q \<noteq> [] \<Longrightarrow> Values_Encode q \<noteq> ''''"
proof -
  assume "q \<noteq> []"
  then obtain k v where "(k, v) \<in> set q" by (cases q) auto
  then have "valuesOf q k \<noteq> []" by (force simp: valuesOf_def filter_empty_conv)
  then have "valuesOf (encodeOrder q) k \<noteq> []" by simp
  then obtain a as where "encodeOrder q = a # as" by (cases "encodeOrder q") (auto simp: valuesOf_def)
  then show ?thesis
    unfolding Values_Encode_alt by (cases as) (auto simp: encodePair_def split: prod.splits)
qed

lemma getSchemeAux_scheme:
  "list_all (\<lambda>ch. isAlnum ch \<or> ch \<in> set ''+-.'') s \<Longrightarrow>
   seen \<noteq> [] \<or> s \<noteq> [] \<and> isAlnum (hd s) \<and> \<not> isDigit (hd s) \<Longrightarrow>
   getSchemeAux raw seen (s @ CHR '':'' # rest) = Some (rev seen @ s, rest)"
proof (induction s arbitrary: seen)
  case Nil
  have "\<not> isAlnum (CHR '':'')" "\<not> isDigit (CHR '':'')" by code_simp+
  with Nil show ?case by simp
next
  case (Cons ch s)
  then show ?case by (auto simp: list_all_iff)
qed

lemma lastIndexSplit_None: "ch \<notin> set s \<Longrightarrow> lastIndexSplit ch s = None"
  by (simp add: lastIndexSplit_def)

lemma cutAt_none: "ch \<notin> set s \<Longrightarrow> cutAt ch s = (s, '''')"
  by (induction s) (auto simp: cutAt_def)

lemma escape_path_hd: "p = '''' \<or> hd p = CHR ''/'' \<Longrightarrow> escape encodePath p = '''' \<or> hd (escape encodePath p) = CHR ''/''"
proof (cases p)
  case (Cons ch p')
  assume "p = '''' \<or> hd p = CHR ''/''"
  moreover have "escapeChar encodePath (CHR ''/'') = ''/''" by code_simp
  ultimately show ?thesis using Cons by (simp add: escape_def)
qed (simp add: escape_def)

lemma plainHost_chars:
  assumes "plainHost h"
  shows "list_all urlSafe h" and "set ''/?#@'' \<inter> set h = {}" and "escape encodeHost h = h"
proof -
  have ch: "urlSafe ch \<and> ch \<notin> set ''/?#@'' \<and> \<not> shouldEscape ch encodeHost" if "ch \<in> set h" for ch
  proof (cases "isAlnum ch")
    case True
    then show ?thesis using isAlnum_urlSafe [OF True] by (simp add: shouldEscape_def)
  next
    case False
    with assms that have "ch \<in> set ''-._~:[]''" by (auto simp: plainHost_def list_all_iff)
    moreover have "list_all (\<lambda>ch. urlSafe ch \<and> ch \<notin> set ''/?#@'' \<and> \<not> shouldEscape ch encodeHost) ''-._~:[]''"
      by code_simp
    ultimately show ?thesis unfolding list_all_iff by blast
  qed
  then show "list_all urlSafe h" "set ''/?#@'' \<inter> set h = {}" by (auto simp: list_all_iff)
  have "escapeChar encodeHost c = [c]" if "c \<in> set h" for c
    using ch [OF that] by (simp add: escapeChar_def)
  then have "map (escapeChar encodeHost) h = map (\<lambda>c. [c]) h" by simp
  then show "escape encodeHost h = h" unfolding escape_def by (simp only: concat_map_singleton map_ident)
qed

lemma URL_String_plain_any:
  assumes "plainURL u"
  shows "URL_String (u\<lparr>u_RawQuery := q\<rparr>) =
           u_Scheme u @ ''://'' @ u_Host u @ escape encodePath (u_Path u) @ (if q = '''' then '''' else ''?'' @ q)"
proof -
  have host: "escape encodeHost (u_Host u) = u_Host u" "u_Host u \<noteq> ''''"
    using assms plainHost_chars(3) by (auto simp: plainURL_def plainHost_def)
  have "u_Path u \<noteq> ''*''" using assms by (auto simp: plainURL_def)
  then have path: "EscapedPath (u\<lparr>u_RawQuery := q\<rparr>) = escape encodePath (u_Path u)"
    using assms by (simp add: EscapedPath_def plainURL_def)
  have hd: "escape encodePath (u_Path u) = '''' \<or> hd (escape encodePath (u_Path u)) = CHR ''/''"
    using assms escape_path_hd [of "u_Path u"] by (auto simp: plainURL_def)
  show ?thesis
    using assms host hd unfolding URL_String_def path
    by (simp add: plainURL_def validScheme_def Let_def)
qed

lemma URL_String_plain:
  assumes "plainURL u" and "q \<noteq> ''''"
  shows "URL_String (u\<lparr>u_RawQuery := q\<rparr>) =
           u_Scheme u @ ''://'' @ u_Host u @ escape encodePath (u_Path u) @ ''?'' @ q"
  using URL_String_plain_any [OF assms(1), of q] assms(2) by simp

text \<open>What \<open>String\<close> writes for such a URL, \<open>Parse\<close> reads back.\<close>

lemma urlSafe_text:
  "list_all urlSafe s \<Longrightarrow> CHR ''#'' \<notin> set s \<and> \<not> list_ex isCTL s \<and> list_all (\<lambda>ch. byteOf ch < 128) s"
  by (induction s) (auto simp: urlSafe_def isCTL_def)

lemma span_at_sep:
  "sep \<notin> set h \<Longrightarrow> p = [] \<or> hd p = sep \<Longrightarrow>
   takeWhile (\<lambda>ch. ch \<noteq> sep) (h @ p) = h \<and> dropWhile (\<lambda>ch. ch \<noteq> sep) (h @ p) = p"
  by (induction h) (cases p; auto)+

lemma plain_text_safe:
  assumes "plainURL u" and "list_all urlSafe q"
  shows "list_all urlSafe (u_Scheme u @ ''://'' @ u_Host u @ escape encodePath (u_Path u) @ ''?'' @ q)"
proof -
  have "list_all urlSafe ''+-.''" by code_simp
  then have "list_all urlSafe (u_Scheme u)"
    using assms isAlnum_urlSafe unfolding plainURL_def validScheme_def list_all_iff by blast
  moreover have "list_all urlSafe (u_Host u)" using assms plainHost_chars(1) by (simp add: plainURL_def)
  moreover have "list_all urlSafe (escape encodePath (u_Path u))"
    using escape_urlSafe [of encodePath "u_Path u"] by (auto simp: list_all_iff)
  moreover have "list_all urlSafe ''://''" "list_all urlSafe ''?''" by code_simp+
  ultimately show ?thesis using assms by (simp only: list_all_append simp_thms)
qed

lemma parseHierarchy_plain:
  assumes "plainURL u"
  shows "parseHierarchy (''//'' @ u_Host u @ escape encodePath (u_Path u))
           (emptyURL\<lparr>u_Scheme := u_Scheme u, u_RawQuery := q\<rparr>) = Some (u\<lparr>u_RawQuery := q\<rparr>)"
proof -
  let ?h = "u_Host u" and ?p = "escape encodePath (u_Path u)"
  have h: "plainHost ?h" using assms by (simp add: plainURL_def)
  then have slash: "CHR ''/'' \<notin> set ?h" and at: "CHR ''@'' \<notin> set ?h" using plainHost_chars(2) by auto
  have p: "?p = '''' \<or> hd ?p = CHR ''/''"
    using assms escape_path_hd [of "u_Path u"] by (auto simp: plainURL_def)
  have "takeWhile (\<lambda>ch. ch \<noteq> CHR ''/'') (?h @ ?p) = ?h" "dropWhile (\<lambda>ch. ch \<noteq> CHR ''/'') (?h @ ?p) = ?p"
    using span_at_sep [OF slash p] by blast+
  moreover have "parseAuthority ?h = Some (None, ?h)"
    using h at by (simp add: parseAuthority_def lastIndexSplit_None plainHost_def)
  moreover have "unescape encodePath ?p = Some (u_Path u)" by (rule unescape_escape) simp
  moreover have "u_Scheme u \<noteq> ''''" using assms by (simp add: plainURL_def validScheme_def)
  ultimately show ?thesis
    using assms by (simp add: parseHierarchy_def hasPrefix_def setPath_def emptyURL_def plainURL_def)
qed

lemma Parse_URL_String_plain:
  assumes "plainURL u" and "q \<noteq> ''''" and "list_all urlSafe q"
  shows "Parse (URL_String (u\<lparr>u_RawQuery := q\<rparr>)) = Inr (u\<lparr>u_RawQuery := q\<rparr>)"
proof -
  let ?rest = "''//'' @ u_Host u @ escape encodePath (u_Path u)"
  let ?raw = "u_Scheme u @ CHR '':'' # ?rest @ CHR ''?'' # q"
  have str: "URL_String (u\<lparr>u_RawQuery := q\<rparr>) = ?raw"
    using URL_String_plain [OF assms(1,2)] by simp
  have safe: "list_all urlSafe ?raw" using plain_text_safe [OF assms(1,3)] by simp
  then have hash: "CHR ''#'' \<notin> set ?raw" and ctl: "\<not> list_ex isCTL ?raw"
    using urlSafe_text by blast+
  have frag: "cutAt (CHR ''#'') ?raw = (?raw, '''')" by (rule cutAt_none [OF hash])
  have scheme: "getScheme ?raw = Some (u_Scheme u, ?rest @ CHR ''?'' # q)"
    using assms(1) getSchemeAux_scheme [of "u_Scheme u" "[]" ?raw "?rest @ CHR ''?'' # q"]
    by (simp add: getScheme_def plainURL_def validScheme_def)
  have "CHR ''?'' \<notin> set ?rest"
    using assms(1) plainHost_chars(2) [of "u_Host u"] escape_urlSafe [of encodePath "u_Path u"]
    by (auto simp: plainURL_def list_all_iff)
  then have cut: "cutAt (CHR ''?'') (?rest @ CHR ''?'' # q) = (?rest, q)" by (rule cutAt_sep)
  have force: "\<not> (hasSuffix (?rest @ CHR ''?'' # q) ''?'' \<and>
      length (filter (\<lambda>ch. ch = CHR ''?'') (?rest @ CHR ''?'' # q)) = 1)"
  proof
    assume one: "hasSuffix (?rest @ CHR ''?'' # q) ''?'' \<and>
      length (filter (\<lambda>ch. ch = CHR ''?'') (?rest @ CHR ''?'' # q)) = 1"
    obtain q' ch where q: "q = q' @ [ch]" using assms(2) by (cases q rule: rev_cases) auto
    with one have "ch = CHR ''?''" by (simp add: hasSuffix_def)
    with one q show False by simp
  qed
  have "u_Scheme u \<noteq> ''''" "toLower (u_Scheme u) = u_Scheme u"
    using assms(1) by (simp_all add: plainURL_def validScheme_def)
  then have "?raw \<noteq> ''*''" by (cases "u_Scheme u") auto
  then have "parseNoFragment ?raw = Some (u\<lparr>u_RawQuery := q\<rparr>)"
    unfolding parseNoFragment_def scheme
    using ctl force cut \<open>toLower (u_Scheme u) = u_Scheme u\<close> parseHierarchy_plain [OF assms(1), of q]
    by (simp add: Let_def) blast
  then show ?thesis unfolding str Parse_def frag by simp
qed

lemma Parse_with_query:
  assumes "plainURL u" and "q \<noteq> []"
  shows "Parse (URL_String (u\<lparr>u_RawQuery := Values_Encode q\<rparr>)) = Inr (u\<lparr>u_RawQuery := Values_Encode q\<rparr>)"
  by (rule Parse_URL_String_plain [OF assms(1) Encode_nonempty [OF assms(2)] Encode_urlSafe])

lemma plain_String_ascii:
  assumes "plainURL u" and "q \<noteq> []"
  shows "list_all (\<lambda>ch. byteOf ch < 128) (URL_String (u\<lparr>u_RawQuery := Values_Encode q\<rparr>))"
proof -
  have "list_all urlSafe (URL_String (u\<lparr>u_RawQuery := Values_Encode q\<rparr>))"
    unfolding URL_String_plain [OF assms(1) Encode_nonempty [OF assms(2)]]
    by (rule plain_text_safe [OF assms(1) Encode_urlSafe])
  then show ?thesis using urlSafe_text by blast
qed


lemma Parse_URL_String_bare:
  assumes "plainURL u" and "u_RawQuery u = ''''"
  shows "Parse (URL_String u) = Inr u"
proof -
  let ?rest = "''//'' @ u_Host u @ escape encodePath (u_Path u)"
  let ?raw = "u_Scheme u @ CHR '':'' # ?rest"
  have u: "u\<lparr>u_RawQuery := ''''\<rparr> = u" using assms(2) by simp
  have str: "URL_String u = ?raw" using URL_String_plain_any [OF assms(1), of "''''"] u by simp
  have "list_all urlSafe (?raw @ ''?'')" using plain_text_safe [OF assms(1), of "''''"] by simp
  then have hash: "CHR ''#'' \<notin> set ?raw" and ctl: "\<not> list_ex isCTL ?raw"
    using urlSafe_text [of "?raw @ ''?''"] by simp_all
  have scheme: "getScheme ?raw = Some (u_Scheme u, ?rest)"
    using assms(1) getSchemeAux_scheme [of "u_Scheme u" "[]" ?raw ?rest]
    by (simp add: getScheme_def plainURL_def validScheme_def)
  have mark: "CHR ''?'' \<notin> set ?rest"
    using assms(1) plainHost_chars(2) [of "u_Host u"] escape_urlSafe [of encodePath "u_Path u"]
    by (auto simp: plainURL_def list_all_iff)
  then have force: "\<not> hasSuffix ?rest ''?''"
    unfolding hasSuffix_def by (metis append_take_drop_id list.set_intros(1) Un_iff set_append)
  have "u_Scheme u \<noteq> ''''" "toLower (u_Scheme u) = u_Scheme u"
    using assms(1) by (simp_all add: plainURL_def validScheme_def)
  then have "?raw \<noteq> ''*''" by (cases "u_Scheme u") auto
  then have "parseNoFragment ?raw = Some u"
    unfolding parseNoFragment_def scheme
    using ctl force cutAt_none [OF mark] \<open>toLower (u_Scheme u) = u_Scheme u\<close> parseHierarchy_plain [OF assms(1), of "''''"] u
    by (simp add: Let_def)
  then show ?thesis unfolding str Parse_def cutAt_none [OF hash] by simp
qed

text \<open>A host of letters, digits and dots with a decimal port.\<close>

lemma lastIndexSplit_last:
  assumes "ch \<notin> set t" shows "lastIndexSplit ch (s @ ch # t) = Some (s, ch # t)"
proof -
  have "takeWhile (\<lambda>x. x \<noteq> ch) (rev (s @ ch # t)) = rev t" using assms by (auto simp: takeWhile_tail)
  then show ?thesis by (simp add: lastIndexSplit_def)
qed

lemma unescape_host_literal:
  "list_all (\<lambda>ch. isAlnum ch \<or> ch \<in> set ''-._~:[]'') h \<Longrightarrow> unescape encodeHost h = Some h"
proof (induction h)
  case (Cons ch h)
  have "list_all (\<lambda>ch. ch \<noteq> CHR ''%'' \<and> \<not> shouldEscape ch encodeHost) ''-._~:[]''" by code_simp
  then have "ch \<noteq> CHR ''%'' \<and> \<not> shouldEscape ch encodeHost"
    using Cons.prems isAlnum_urlSafe [of ch] by (auto simp: list_all_iff shouldEscape_def)
  with Cons show ?case by (simp add: literalAllowed_def)
qed simp

lemma plainHost_port:
  assumes "list_all (\<lambda>ch. isAlnum ch \<or> ch = CHR ''.'') h" and "h \<noteq> ''''" and "list_all isDigit port"
  shows "plainHost (h @ '':'' @ port)" and "splitHostPort (h @ '':'' @ port) = (h, port)"
proof -
  have "list_all (\<lambda>ch. \<not> isDigit ch) '':[''" by code_simp
  then have port: "CHR '':'' \<notin> set port" using assms(3) by (auto simp: list_all_iff)
  note split = lastIndexSplit_last [OF this, of h]
  have "list_all (\<lambda>ch. \<not> isAlnum ch) ''[''" by code_simp
  then have br: "\<not> hasPrefix (h @ s) ''[''" for s
    using assms(1,2) by (cases h) (auto simp: hasPrefix_def)
  have "isDigit ch \<Longrightarrow> isAlnum ch" for ch by (simp add: isDigit_def isAlnum_def)
  then have "list_all (\<lambda>ch. isAlnum ch \<or> ch \<in> set ''-._~:[]'') (h @ '':'' @ port)"
    using assms(1,3) by (auto simp: list_all_iff)
  then show "plainHost (h @ '':'' @ port)"
    using unescape_host_literal [of "h @ '':'' @ port"] split br [of "'':'' @ port"] assms(3)
    by (simp add: plainHost_def parseHost_def validOptionalPort_def)
  show "splitHostPort (h @ '':'' @ port) = (h, port)"
    using split br [of "''''"] assms(3) by (simp add: splitHostPort_def validOptionalPort_def)
qed

end
