(* ===== verification/Logout.thy ===== *)
theory Logout
  imports Login Access_Token Go_Url_Roundtrip
begin

text \<open>
  Logout (\<open>logout.go\<close>): the local commit, the revocation of the refresh token, and
  RP-initiated logout. The HTTP exchange of the revocation and the flow handler are
  parameters; a request the code makes is a value the model returns. Log messages are
  returned as an outcome where the code distinguishes cases by them only.
\<close>

section \<open>Budget and local commit\<close>

definition revocationTimeout :: duration where "revocationTimeout = 3 * second"

text \<open>The timeout \<open>Logout\<close> puts on its context, if any.\<close>

definition logoutBudget :: "'s client \<Rightarrow> duration option" where
  "logoutBudget c =
     (if LogoutTimeout (config c) > 0
      then let revoking = (revocationEndpoint c \<noteq> '''' \<and> RefreshToken (state c) \<noteq> '''')
           in Some (if revoking then dur_add (LogoutTimeout (config c)) revocationTimeout
                    else LogoutTimeout (config c))
      else None)"

record logoutSnapshot =
  ls_operation :: nat
  ls_idToken :: string
  ls_refreshToken :: string
  ls_endSessionEndpoint :: string
  ls_revocationEndpoint :: string

definition logoutInProgress :: "'s client \<Rightarrow> bool" where
  "logoutInProgress c \<longleftrightarrow>
     (case lifecycleOperation c of
        None \<Rightarrow> False
      | Some p \<Rightarrow> (case operations c p of None \<Rightarrow> False | Some op \<Rightarrow> op_kind op = lifecycleLogout))"

text \<open>The section under \<open>lifecycleMu\<close>, with the drain that follows it.\<close>

definition logoutCommit ::
  "'s token_persistence \<Rightarrow> ctx_err option \<Rightarrow> 's client \<Rightarrow> logoutSnapshot option \<times> 's client" where
  "logoutCommit ops parentErr c =
     (if logoutInProgress c then (None, c)
      else let (p, c) = beginLifecycleOperationLocked parentErr lifecycleLogout c;
               snapshot = \<lparr>ls_operation = p, ls_idToken = IDToken (state c),
                           ls_refreshToken = RefreshToken (state c),
                           ls_endSessionEndpoint = endSessionEndpoint c,
                           ls_revocationEndpoint = revocationEndpoint c\<rparr>;
               c = setStateLocked zeroTokenState c;
               c = signalRefreshLoopLocked
                     (c\<lparr>persistenceRetry := zeroPersistenceRetry, restoreBlocked := True\<rparr>);
               (persistErr, s) = Delete ops (store c);
               (shouldDrain, c) = enqueueEvent (nilEvent EventLoggedOut) (c\<lparr>store := s\<rparr>)
           in (Some snapshot, drainIf shouldDrain c))"

section \<open>Revocation\<close>

record revocationRequest =
  rr_url :: string
  rr_body :: string
  rr_followRedirects :: bool

definition revocationEndpointAllowed :: "string \<Rightarrow> string \<Rightarrow> bool" where
  "revocationEndpointAllowed issuerURL endpoint \<longleftrightarrow>
     (case Parse endpoint of
        Inl _ \<Rightarrow> False
      | Inr u \<Rightarrow>
          if \<not> IsAbs u \<or> u_Host u = '''' \<or> u_User u \<noteq> None \<or> u_Fragment u \<noteq> '''' then False
          else if u_Scheme u = ''https'' then True
          else if u_Scheme u = ''http'' \<and> hasPrefix issuerURL ''http://'' then True
          else False)"

definition revocationForm :: "string \<Rightarrow> string \<Rightarrow> url_values" where
  "revocationForm refreshToken clientID =
     [(''token'', refreshToken), (''token_type_hint'', ''refresh_token''), (''client_id'', clientID)]"

text \<open>The request \<open>revokeRefreshToken\<close> sends, if any; every answer to it is swallowed.\<close>

definition revokeRefreshToken :: "nat \<Rightarrow> string \<Rightarrow> string \<Rightarrow> 's client \<Rightarrow> revocationRequest option" where
  "revokeRefreshToken p endpoint refreshToken c =
     (if endpoint = '''' \<or> refreshToken = '''' then None
      else if \<not> lifecycleOperationOwned p c then None
      else if \<not> revocationEndpointAllowed (IssuerURL (config c)) endpoint then None
      else Some \<lparr>rr_url = endpoint,
                 rr_body = Values_Encode (revocationForm refreshToken (ClientID (config c))),
                 rr_followRedirects = False\<rparr>)"

section \<open>RP-initiated logout\<close>

definition buildLogoutURL :: "string \<Rightarrow> string \<Rightarrow> string \<Rightarrow> string \<Rightarrow> string result" where
  "buildLogoutURL endpoint idToken postLogoutRedirectURI st =
     (case Parse endpoint of
        Inl err \<Rightarrow> Inl (Errorf [Txt ''pkceflow: invalid end_session_endpoint: '', Wrapped err])
      | Inr u \<Rightarrow>
          (let q = Query u;
               q = Values_Set q ''id_token_hint'' idToken;
               q = Values_Set q ''state'' st;
               q = (if postLogoutRedirectURI \<noteq> ''''
                    then Values_Set q ''post_logout_redirect_uri'' postLogoutRedirectURI else q)
           in Inr (URL_String (u\<lparr>u_RawQuery := Values_Encode q\<rparr>))))"

text \<open>
  The flow handler: its login redirect URI and flow and, when it implements
  \<open>LogoutFlowHandler\<close>, its post-logout URI and flow.
\<close>

record 's logoutEnv =
  lo_parentErr :: "ctx_err option"
  lo_afterCommit :: "'s client \<Rightarrow> 's client"
  lo_duringRevocation :: "'s client \<Rightarrow> 's client"
  lo_redirectURI :: string
  lo_authFlow :: "string \<Rightarrow> 's flowEnv"
  lo_logoutHandler :: "(string \<times> (string \<Rightarrow> 's flowEnv)) option"
  lo_random :: "goerror + string"

datatype rpLogoutOutcome =
    RPNotCurrent
  | RPNoState
  | RPBadEndpoint
  | RPFlowFailed
  | RPCancelled
  | RPNoCallback
  | RPBadCallback
  | RPBadQuery
  | RPStateAbsent
  | RPStateMismatch
  | RPStateMatched

definition checkLogoutCallback :: "string \<Rightarrow> string \<Rightarrow> rpLogoutOutcome" where
  "checkLogoutCallback st callbackURL =
     (if callbackURL = '''' then RPNoCallback
      else case Parse callbackURL of
        Inl _ \<Rightarrow> RPBadCallback
      | Inr parsed \<Rightarrow>
          if \<not> IsAbs parsed then RPBadCallback
          else (case ParseQuery (u_RawQuery parsed) of
                  Inl _ \<Rightarrow> RPBadQuery
                | Inr query \<Rightarrow>
                    if \<not> present query ''state'' then RPStateAbsent
                    else let states = valuesOf query ''state''
                         in if length states \<noteq> 1 \<or> states ! 0 = '''' \<or> \<not> constantTimeEqual st (states ! 0)
                            then RPStateMismatch else RPStateMatched))"

definition doRPLogout ::
  "'s logoutEnv \<Rightarrow> nat \<Rightarrow> string \<Rightarrow> string \<Rightarrow> 's client \<Rightarrow> rpLogoutOutcome returned \<times> 's client" where
  "doRPLogout env p endpoint idToken c =
     (if \<not> lifecycleOperationCurrentLocked p c then (Some RPNotCurrent, c)
      else let postLogoutURI = (case lo_logoutHandler env of
                                  Some (uri, _) \<Rightarrow> if uri \<noteq> '''' then uri else lo_redirectURI env
                                | None \<Rightarrow> lo_redirectURI env);
               startFlow = (case lo_logoutHandler env of Some (_, f) \<Rightarrow> f | None \<Rightarrow> lo_authFlow env)
           in (case randomState (lo_random env) of
                 Inl _ \<Rightarrow> (Some RPNoState, c)
               | Inr st \<Rightarrow>
                   (case buildLogoutURL endpoint idToken postLogoutURI st of
                      Inl _ \<Rightarrow> (Some RPBadEndpoint, c)
                    | Inr logoutURL \<Rightarrow>
                        (case runLifecycleFlow p (startFlow logoutURL) c of
                           (None, c) \<Rightarrow> (None, c)
                         | (Some (Inl err), c) \<Rightarrow>
                             (Some (if errors_is err ErrFlowCancelled then RPCancelled else RPFlowFailed), c)
                         | (Some (Inr callbackURL), c) \<Rightarrow>
                             (Some (checkLogoutCallback st callbackURL), c)))))"

section \<open>Logout\<close>

text \<open>
  The whole call: the requests made, the outcome of the browser round trip, and the client.
  The returned error is always nil; \<open>None\<close> is a call whose browser flow has not ended.
\<close>

record logoutReport =
  lr_request :: "revocationRequest option"
  lr_outcome :: "rpLogoutOutcome option"

definition Logout ::
  "'s token_persistence \<Rightarrow> 's logoutEnv \<Rightarrow> 's client \<Rightarrow> logoutReport returned \<times> 's client" where
  "Logout ops env c =
     (case logoutCommit ops (lo_parentErr env) c of
        (None, c) \<Rightarrow> (Some \<lparr>lr_request = None, lr_outcome = None\<rparr>, c)
      | (Some snapshot, c) \<Rightarrow>
          (let p = ls_operation snapshot;
               c = lo_afterCommit env c;
               request = revokeRefreshToken p (ls_revocationEndpoint snapshot) (ls_refreshToken snapshot) c;
               c = lo_duringRevocation env c
           in if ls_endSessionEndpoint snapshot \<noteq> '''' \<and> ls_idToken snapshot \<noteq> ''''
              then (case doRPLogout env p (ls_endSessionEndpoint snapshot) (ls_idToken snapshot) c of
                      (None, c) \<Rightarrow> (None, c)
                    | (Some outcome, c) \<Rightarrow>
                        (Some \<lparr>lr_request = request, lr_outcome = Some outcome\<rparr>, finishLifecycleOperation p c))
              else (Some \<lparr>lr_request = request, lr_outcome = None\<rparr>, finishLifecycleOperation p c)))"

section \<open>What logout leaves behind\<close>

lemma logoutCommit_Some:
  assumes "logoutCommit ops e c = (Some snapshot, c')"
  shows "state c' = zeroTokenState" and "restoreBlocked c'" and "\<not> pr_valid (persistenceRetry c')"
    and "store c' = snd (Delete ops (store c))"
    and "eventHistory c' = eventHistory c @ [nilEvent EventLoggedOut]"
    and "stateRevision c' = (if state c = zeroTokenState then stateRevision c else stateRevision c + 1)"
    and "ls_refreshToken snapshot = RefreshToken (state c)" and "ls_idToken snapshot = IDToken (state c)"
    and "ls_operation snapshot = nextPtr c" and "lifecycleOperation c' = Some (nextPtr c)"
proof -
  let ?d = "snd (beginLifecycleOperationLocked e lifecycleLogout c)"
  let ?s = "signalRefreshLoopLocked ((setStateLocked zeroTokenState ?d)
      \<lparr>persistenceRetry := zeroPersistenceRetry, restoreBlocked := True\<rparr>)"
  have d: "state ?d = state c" "stateRevision ?d = stateRevision c" "store ?d = store c"
    "eventHistory ?d = eventHistory c"
    using sameSession_begin [of e lifecycleLogout c] by (simp_all add: sameSession_def)
  have op: "lifecycleOperation ?d = Some (nextPtr c)" "fst (beginLifecycleOperationLocked e lifecycleLogout c) = nextPtr c"
    by (simp_all add: beginLifecycleOperationLocked_def Let_def)
  have eq: "c' = drainIf (fst (enqueueEvent (nilEvent EventLoggedOut) (?s\<lparr>store := snd (Delete ops (store ?s))\<rparr>)))
        (snd (enqueueEvent (nilEvent EventLoggedOut) (?s\<lparr>store := snd (Delete ops (store ?s))\<rparr>)))"
    and snap: "snapshot = \<lparr>ls_operation = nextPtr c, ls_idToken = IDToken (state ?d),
        ls_refreshToken = RefreshToken (state ?d), ls_endSessionEndpoint = endSessionEndpoint ?d,
        ls_revocationEndpoint = revocationEndpoint ?d\<rparr>"
    using assms op by (auto simp: logoutCommit_def Let_def case_prod_beta split: if_splits)
  show "state c' = zeroTokenState" "restoreBlocked c'" "\<not> pr_valid (persistenceRetry c')"
    "store c' = snd (Delete ops (store c))" "lifecycleOperation c' = Some (nextPtr c)"
    "stateRevision c' = (if state c = zeroTokenState then stateRevision c else stateRevision c + 1)"
    using d op by (simp_all add: eq setStateLocked_def)
  show "eventHistory c' = eventHistory c @ [nilEvent EventLoggedOut]"
    using d by (simp add: eq setStateLocked_def)
  show "ls_refreshToken snapshot = RefreshToken (state c)" "ls_idToken snapshot = IDToken (state c)"
    "ls_operation snapshot = nextPtr c"
    using d by (simp_all add: snap)
qed



section \<open>Where the refresh token goes\<close>

lemma valuesOf_revocationForm:
  "valuesOf (revocationForm refreshToken clientID) k =
     (if k = ''token'' then [refreshToken] else if k = ''token_type_hint'' then [''refresh_token'']
      else if k = ''client_id'' then [clientID] else [])"
  by (simp add: revocationForm_def valuesOf_def)

lemma revocationEndpointAllowed_D:
  assumes "revocationEndpointAllowed issuerURL endpoint"
  shows "\<exists>u. Parse endpoint = Inr u \<and> u_Host u \<noteq> '''' \<and> u_User u = None \<and> u_Fragment u = '''' \<and>
           (u_Scheme u = ''https'' \<or> u_Scheme u = ''http'' \<and> hasPrefix issuerURL ''http://'')"
  using assms unfolding revocationEndpointAllowed_def
  by (cases "Parse endpoint") (auto simp del: not_None_eq split: if_splits)

text \<open>
  C32: the refresh token is posted only by an operation that still owns the client, only to
  an endpoint with a host, without user information or fragment, that is https, or http
  when the issuer itself is http; redirects are not followed; and the body decodes to
  exactly the token, its type and the client id, whatever bytes they hold.
\<close>

theorem revocation_request_safe:
  assumes "revokeRefreshToken p endpoint refreshToken c = Some req"
  shows "lifecycleOperation c = Some p \<and> rr_url req = endpoint \<and> \<not> rr_followRedirects req \<and>
         (\<exists>u. Parse endpoint = Inr u \<and> u_Host u \<noteq> '''' \<and> u_User u = None \<and> u_Fragment u = '''' \<and>
              (u_Scheme u = ''https'' \<or>
               u_Scheme u = ''http'' \<and> hasPrefix (IssuerURL (config c)) ''http://'')) \<and>
         (\<exists>q. ParseQuery (rr_body req) = Inr q \<and> valuesOf q ''token'' = [refreshToken] \<and>
              valuesOf q ''token_type_hint'' = [''refresh_token''] \<and>
              valuesOf q ''client_id'' = [ClientID (config c)] \<and>
              (\<forall>k. k \<notin> {''token'', ''token_type_hint'', ''client_id''} \<longrightarrow> valuesOf q k = []))"
proof -
  let ?form = "revocationForm refreshToken (ClientID (config c))"
  have req: "rr_body req = Values_Encode ?form" "lifecycleOperation c = Some p" "rr_url req = endpoint"
    "\<not> rr_followRedirects req" and allowed: "revocationEndpointAllowed (IssuerURL (config c)) endpoint"
    using assms by (auto simp: revokeRefreshToken_def lifecycleOperationOwned_def split: if_splits)
  have "ParseQuery (rr_body req) = Inr (encodeOrder ?form)" by (simp add: req(1) ParseQuery_Encode)
  then have "\<exists>q. ParseQuery (rr_body req) = Inr q \<and> valuesOf q ''token'' = [refreshToken] \<and>
      valuesOf q ''token_type_hint'' = [''refresh_token''] \<and>
      valuesOf q ''client_id'' = [ClientID (config c)] \<and>
      (\<forall>k. k \<notin> {''token'', ''token_type_hint'', ''client_id''} \<longrightarrow> valuesOf q k = [])"
    by (intro exI [of _ "encodeOrder ?form"]) (simp add: valuesOf_revocationForm)
  with req revocationEndpointAllowed_D [OF allowed] show ?thesis by blast
qed

theorem revocation_request_safe_witness:
  "\<exists>req. revokeRefreshToken 3 ''https://idp.example/revoke'' ''rt1&x'' (sampleClient\<lparr>lifecycleOperation := Some 3\<rparr>) =
     Some req \<and> (\<exists>q. ParseQuery (rr_body req) = Inr q \<and> valuesOf q ''token'' = [''rt1&x''])"
proof -
  let ?c = "sampleClient\<lparr>lifecycleOperation := Some 3\<rparr>"
  have "revokeRefreshToken 3 ''https://idp.example/revoke'' ''rt1&x'' ?c \<noteq> None" by code_simp
  then obtain req where "revokeRefreshToken 3 ''https://idp.example/revoke'' ''rt1&x'' ?c = Some req" by blast
  with revocation_request_safe [OF this] show ?thesis by blast
qed

text \<open>
  C37: the logout URL carries, whatever bytes they hold, exactly one ID-token hint, one
  state and, when there is one, one post-logout redirect URI, in place of any the endpoint
  had; every other parameter of the endpoint keeps its values, and scheme, host and path
  are the endpoint's. For an endpoint without user information, fragment or unusual escapes
  the URL parses back to exactly this.
\<close>

theorem logout_url_carries_parameters:
  assumes "Parse endpoint = Inr u"
  shows "\<exists>u' q. buildLogoutURL endpoint idToken uri st = Inr (URL_String u') \<and>
           u_Scheme u' = u_Scheme u \<and> u_Host u' = u_Host u \<and> u_Path u' = u_Path u \<and> u_User u' = u_User u \<and>
           (plainURL u \<longrightarrow> Parse (URL_String u') = Inr u') \<and> ParseQuery (u_RawQuery u') = Inr q \<and>
           valuesOf q ''id_token_hint'' = [idToken] \<and> valuesOf q ''state'' = [st] \<and>
           valuesOf q ''post_logout_redirect_uri'' =
             (if uri = '''' then valuesOf (Query u) ''post_logout_redirect_uri'' else [uri]) \<and>
           (\<forall>k. k \<notin> {''id_token_hint'', ''state'', ''post_logout_redirect_uri''} \<longrightarrow>
                valuesOf q k = valuesOf (Query u) k)"
proof -
  let ?q0 = "Values_Set (Values_Set (Query u) ''id_token_hint'' idToken) ''state'' st"
  let ?q = "if uri \<noteq> '''' then Values_Set ?q0 ''post_logout_redirect_uri'' uri else ?q0"
  let ?u = "u\<lparr>u_RawQuery := Values_Encode ?q\<rparr>"
  have "buildLogoutURL endpoint idToken uri st = Inr (URL_String ?u)"
    using assms by (simp add: buildLogoutURL_def Let_def)
  moreover have "ParseQuery (u_RawQuery ?u) = Inr (encodeOrder ?q)"
    by (simp add: ParseQuery_Encode)
  moreover have "?q \<noteq> []" by (simp add: Values_Set_def)
  then have "plainURL u \<longrightarrow> Parse (URL_String ?u) = Inr ?u" using Parse_with_query by blast
  ultimately show ?thesis
    by (intro exI [of _ ?u] exI [of _ "encodeOrder ?q"]) auto
qed

theorem logout_url_carries_parameters_witness:
  "\<exists>u'. buildLogoutURL ''https://idp.example/logout?state=old'' ''h.p.s'' '''' ''a&b'' = Inr (URL_String u') \<and>
     u_Host u' = ''idp.example'' \<and> (\<exists>q. ParseQuery (u_RawQuery u') = Inr q \<and> valuesOf q ''state'' = [''a&b''])"
proof -
  have "Parse ''https://idp.example/logout?state=old'' =
      Inr (emptyURL\<lparr>u_Scheme := ''https'', u_Host := ''idp.example'', u_Path := ''/logout'',
        u_RawQuery := ''state=old''\<rparr>)" by code_simp
  from logout_url_carries_parameters [OF this, of "''h.p.s''" "''''" "''a&b''"] show ?thesis by auto
qed

text \<open>
  \<open>LogoutTimeout\<close> is left whole for the browser round trip: with a revocation pending the
  budget is longer by exactly the time the revocation may take, as long as the sum is a
  representable duration.
\<close>

lemma logout_budget_adds_revocation:
  assumes "0 < LogoutTimeout (config c)" and "LogoutTimeout (config c) + revocationTimeout \<le> maxDuration"
  shows "logoutBudget c =
           Some (LogoutTimeout (config c) +
             (if revocationEndpoint c \<noteq> '''' \<and> RefreshToken (state c) \<noteq> '''' then 3 * second else 0))"
proof -
  have "dur_add (LogoutTimeout (config c)) revocationTimeout = LogoutTimeout (config c) + revocationTimeout"
    by (rule dur_add_exact) (use assms in \<open>simp_all add: minDuration_def revocationTimeout_def second_def\<close>)
  with assms show ?thesis by (simp add: logoutBudget_def revocationTimeout_def Let_def)
qed

end
