(* ===== verification/Client_System.thy ===== *)
theory Client_System
  imports Logout
begin

text \<open>
  The client as a whole: every locked section of the library as a step of one state machine,
  taken in any order by any number of goroutines, and the invariants all of them keep. The
  operations of the other theories are sequences of these steps.
\<close>

section \<open>The state machine\<close>

text \<open>
  \<open>ops\<close> is the store's code, \<open>wfs\<close> the backend states it considers well formed and \<open>storable\<close>
  the token states it can represent: what comes from a token response or from the store is
  assumed to be one of these.
\<close>

inductive clientReach ::
  "'s token_persistence \<Rightarrow> ('s \<Rightarrow> bool) \<Rightarrow> (token_state \<Rightarrow> bool) \<Rightarrow> 's client \<Rightarrow> bool"
  for ops wfs storable where
  new: "wfs s \<Longrightarrow> clientReach ops wfs storable (newClient cfg s)"
| restore: "clientReach ops wfs storable c \<Longrightarrow> (\<And>ts. Load ops (store c) = Inr ts \<Longrightarrow> storable ts) \<Longrightarrow>
    clientReach ops wfs storable (snd (RestoreSession ops c))"
| login: "clientReach ops wfs storable c \<Longrightarrow> storable st \<Longrightarrow>
    clientReach ops wfs storable (snd (commitLoginState ops p st id t c))"
| refreshed: "clientReach ops wfs storable c \<Longrightarrow> storable st \<Longrightarrow>
    clientReach ops wfs storable (snd (commitRefresh ops st rv t c))"
| refused: "clientReach ops wfs storable c \<Longrightarrow> storable (refusedState (at_snapshot att)) \<Longrightarrow>
    clientReach ops wfs storable (snd (commitCredentialRefusal ops att err t c))"
| logout: "clientReach ops wfs storable c \<Longrightarrow>
    clientReach ops wfs storable (snd (logoutCommit ops pe c))"
| retry: "clientReach ops wfs storable c \<Longrightarrow>
    clientReach ops wfs storable (retryPersistence ops ctxErr pa t c)"
| next_retry: "clientReach ops wfs storable c \<Longrightarrow>
    clientReach ops wfs storable (snd (nextPersistenceRetryAction t c))"
| next_action: "clientReach ops wfs storable c \<Longrightarrow>
    clientReach ops wfs storable (snd (nextRefreshLoopAction t c))"
| finish_action: "clientReach ops wfs storable c \<Longrightarrow>
    clientReach ops wfs storable (finishRefreshLoopAttempt a res t c)"
| begin_attempt: "clientReach ops wfs storable c \<Longrightarrow>
    clientReach ops wfs storable (snd (beginRefreshAttempt_pass snap erv claim t c))"
| finish_attempt: "clientReach ops wfs storable c \<Longrightarrow>
    clientReach ops wfs storable (finishRefreshAttempt p st e t c)"
| release: "clientReach ops wfs storable c \<Longrightarrow>
    clientReach ops wfs storable (releaseRefreshParticipant p c)"
| block_integrity: "clientReach ops wfs storable c \<Longrightarrow>
    clientReach ops wfs storable (blockRefreshIntegrityLocked rv t c)"
| block_permanent: "clientReach ops wfs storable c \<Longrightarrow>
    clientReach ops wfs storable (blockRefreshPermanentLocked rv st t c)"
| begin_lifecycle: "clientReach ops wfs storable c \<Longrightarrow> k \<noteq> initKind \<Longrightarrow>
    clientReach ops wfs storable (snd (beginLifecycleOperation pe k c))"
| finish_lifecycle: "clientReach ops wfs storable c \<Longrightarrow>
    clientReach ops wfs storable (finishLifecycleOperation p c)"
| begin_init: "clientReach ops wfs storable c \<Longrightarrow>
    clientReach ops wfs storable (snd (beginInitOperation pe c))"
| commit_init: "clientReach ops wfs storable c \<Longrightarrow>
    clientReach ops wfs storable (snd (commitInit p snapshot c))"
| fail_init: "clientReach ops wfs storable c \<Longrightarrow>
    clientReach ops wfs storable (snd (completeInitFailure p e c))"
| finish_init: "clientReach ops wfs storable c \<Longrightarrow>
    clientReach ops wfs storable (finishInitOperation p c)"
| start_loop: "clientReach ops wfs storable c \<Longrightarrow>
    clientReach ops wfs storable (snd (startRefreshLoop pe c))"
| stop_loop: "clientReach ops wfs storable c \<Longrightarrow>
    clientReach ops wfs storable (StopRefreshLoop c)"
| finish_loop: "clientReach ops wfs storable c \<Longrightarrow>
    clientReach ops wfs storable (finishRefreshRun p c)"
| enqueue: "clientReach ops wfs storable c \<Longrightarrow>
    clientReach ops wfs storable (snd (emitEventIfRevision rv name c))"
| pop: "clientReach ops wfs storable c \<Longrightarrow> popEvent c = (Some ev, c') \<Longrightarrow>
    clientReach ops wfs storable (emit ev c')"
| pop_last: "clientReach ops wfs storable c \<Longrightarrow> popEvent c = (None, c') \<Longrightarrow>
    clientReach ops wfs storable c'"

section \<open>Generations\<close>

text \<open>
  What the client keeps about a generation belongs to the current one, and an event that
  waits has a goroutine that will deliver it.
\<close>

definition retryCurrent :: "'s client \<Rightarrow> bool" where
  "retryCurrent c \<longleftrightarrow> (pr_valid (persistenceRetry c) \<longrightarrow> pr_revision (persistenceRetry c) = stateRevision c)"

definition scheduleCurrent :: "'s client \<Rightarrow> bool" where
  "scheduleCurrent c \<longleftrightarrow>
     (sc_valid (refreshSchedule c) \<longrightarrow> sc_revision (refreshSchedule c) = stateRevision c)"

definition eventsDrained :: "'s client \<Rightarrow> bool" where
  "eventsDrained c \<longleftrightarrow> (pendingEvents c \<noteq> [] \<longrightarrow> eventDispatching c)"

definition genInv :: "'s client \<Rightarrow> bool" where
  "genInv c \<longleftrightarrow> retryCurrent c \<and> scheduleCurrent c \<and> eventsDrained c"

text \<open>The part of a client these and the durability invariant speak of.\<close>

definition core ::
  "'s client \<Rightarrow> token_state \<times> uint64 \<times> 's \<times> persistenceRetryState \<times> (bool \<times> uint64) \<times> clientEvent list \<times> bool" where
  "core c = (state c, stateRevision c, store c, persistenceRetry c,
             (sc_valid (refreshSchedule c), sc_revision (refreshSchedule c)), pendingEvents c, eventDispatching c)"

lemma genInv_core: "core c' = core c \<Longrightarrow> genInv c' = genInv c"
  by (simp add: core_def genInv_def retryCurrent_def scheduleCurrent_def eventsDrained_def)

lemma core_signal [simp]: "core (signalRefreshLoopLocked c) = core c"
  by (simp add: core_def)

lemma core_updates [simp]:
  "core (c\<lparr>attempts := a\<rparr>) = core c" "core (c\<lparr>refreshAttempt := b\<rparr>) = core c"
  "core (c\<lparr>operations := x\<rparr>) = core c" "core (c\<lparr>nextPtr := n\<rparr>) = core c"
  "core (c\<lparr>initOperation := o1\<rparr>) = core c" "core (c\<lparr>lifecycleOperation := o2\<rparr>) = core c"
  "core (c\<lparr>handles := hs\<rparr>) = core c" "core (c\<lparr>refreshRun := rr\<rparr>) = core c"
  "core (c\<lparr>provider := pv\<rparr>) = core c" "core (c\<lparr>verifier := vf\<rparr>) = core c" "core (c\<lparr>oauth2 := oc\<rparr>) = core c"
  "core (c\<lparr>endSessionEndpoint := es\<rparr>) = core c" "core (c\<lparr>revocationEndpoint := re\<rparr>) = core c"
  "core (c\<lparr>initSeq := sq\<rparr>) = core c" "core (c\<lparr>lifecycleSeq := ls\<rparr>) = core c"
  by (simp_all add: core_def)

text \<open>The steps that leave this part alone.\<close>

lemma core_quiet [simp]:
  "core (updAttempt p f c) = core c"
  "core (snd (beginRefreshAttempt_pass snap erv claim t c)) = core c"
  "core (releaseRefreshParticipant p c) = core c"
  "core (cancelOperation q c) = core c"
  "core (snd (beginLifecycleOperationLocked pe k c)) = core c"
  "core (snd (beginLifecycleOperation pe k c)) = core c"
  "core (finishLifecycleOperation p c) = core c"
  "core (snd (beginInitOperation pe c)) = core c"
  "core (snd (commitInit p snapshot c)) = core c"
  "core (finishInitOperation p c) = core c"
  "core (cancelHandle q c) = core c"
  "core (snd (startRefreshLoop pe c)) = core c"
  "core (StopRefreshLoop c) = core c"
  "core (finishRefreshRun p c) = core c"
proof -
  show u: "core (updAttempt p f c) = core c" for p f and c :: "'a client"
    by (simp add: updAttempt_def)
  show "core (snd (beginRefreshAttempt_pass snap erv claim t c)) = core c"
    by (simp add: beginRefreshAttempt_pass_def Let_def u split: option.split)
  show "core (releaseRefreshParticipant p c) = core c"
    by (simp add: releaseRefreshParticipant_def Let_def u split: option.split)
  show x: "core (cancelOperation q c) = core c" for q and c :: "'a client"
    by (simp add: cancelOperation_def split: option.split)
  show l: "core (snd (beginLifecycleOperationLocked pe k c)) = core c"
    by (simp add: beginLifecycleOperationLocked_def Let_def x)
  show "core (snd (beginLifecycleOperation pe k c)) = core c"
    using l by (auto simp: beginLifecycleOperation_def case_prod_beta)
  show "core (finishLifecycleOperation p c) = core c"
    by (simp add: finishLifecycleOperation_def Let_def x)
  show "core (snd (beginInitOperation pe c)) = core c"
    by (simp add: beginInitOperation_def Let_def x)
  show "core (snd (commitInit p snapshot c)) = core c"
    by (simp add: commitInit_def)
  show "core (finishInitOperation p c) = core c"
    by (simp add: finishInitOperation_def Let_def x)
  show h: "core (cancelHandle q c) = core c" for q and c :: "'a client"
    by (simp add: cancelHandle_def split: option.split)
  show "core (snd (startRefreshLoop pe c)) = core c"
    by (simp add: startRefreshLoop_def Let_def h)
  show "core (StopRefreshLoop c) = core c"
    by (simp add: StopRefreshLoop_def h)
  show "core (finishRefreshRun p c) = core c"
    by (simp add: finishRefreshRun_def Let_def)
qed


text \<open>The steps of the supervisor and of an attempt touch at most the schedule, for the current generation.\<close>

definition scheduleStep :: "'s client \<Rightarrow> 's client \<Rightarrow> bool" where
  "scheduleStep c c' \<longleftrightarrow>
     state c' = state c \<and> stateRevision c' = stateRevision c \<and> store c' = store c \<and>
     persistenceRetry c' = persistenceRetry c \<and> pendingEvents c' = pendingEvents c \<and>
     eventDispatching c' = eventDispatching c \<and> (scheduleCurrent c \<longrightarrow> scheduleCurrent c')"

lemma scheduleStep_genInv: "scheduleStep c c' \<Longrightarrow> genInv c \<Longrightarrow> genInv c'"
  by (simp add: scheduleStep_def genInv_def retryCurrent_def eventsDrained_def)

lemma scheduleStep_core: "core c' = core c \<Longrightarrow> scheduleStep c c'"
  by (simp add: core_def scheduleStep_def scheduleCurrent_def)

lemma scheduleStep_trans: "scheduleStep c d \<Longrightarrow> scheduleStep d e \<Longrightarrow> scheduleStep c e"
  by (simp add: scheduleStep_def)

lemma block_steps:
  "scheduleStep c (blockRefreshIntegrityLocked rv t c)"
  "scheduleStep c (blockRefreshPermanentLocked rv st t c)"
  "scheduleStep c (markRefreshInconclusiveLocked rv c)"
  by (simp_all add: scheduleStep_def scheduleCurrent_def blockRefreshIntegrityLocked_def
      blockRefreshPermanentLocked_def markRefreshInconclusiveLocked_def Let_def)

lemma nextRefreshLoopAction_step: "scheduleStep c (snd (nextRefreshLoopAction t c))"
  by (simp add: scheduleStep_def scheduleCurrent_def nextRefreshLoopAction_def parkExpired_def
      blockedAction_def claimAttempt_def Let_def case_prod_beta split: refreshLoopDisposition.split)

lemma finishRefreshLoopAttempt_step: "scheduleStep c (finishRefreshLoopAttempt a res t c)"
  by (auto simp: scheduleStep_def scheduleCurrent_def finishRefreshLoopAttempt_def Let_def)

lemma finishRefreshAttempt_step: "scheduleStep c (finishRefreshAttempt p st e t c)"
proof (cases "attempts c p")
  case None
  then show ?thesis by (simp add: finishRefreshAttempt_def scheduleStep_core)
next
  case (Some att)
  have 1: "scheduleStep c (markOutcome att e t c)"
    using block_steps by (auto simp: markOutcome_def scheduleStep_core split: option.split)
  have "core (finishRefreshAttempt p st e t c) = core (markOutcome att e t c)"
    using Some by (simp add: finishRefreshAttempt_def markOutcome_def Let_def)
  then show ?thesis using 1 scheduleStep_core scheduleStep_trans by blast
qed

section \<open>Durability\<close>

text \<open>
  A session in memory is the one the store holds, if the store answers, or its save is on
  the retry list.
\<close>

definition stored :: "token_state \<Rightarrow> token_state result \<Rightarrow> bool" where
  "stored st loaded \<longleftrightarrow> (case loaded of Inl _ \<Rightarrow> True | Inr ts \<Rightarrow> sameTokenState st ts)"

definition durable :: "'s token_persistence \<Rightarrow> 's client \<Rightarrow> bool" where
  "durable ops c \<longleftrightarrow>
     TokenState_IsZero (state c) \<or>
     stored (state c) (Load ops (store c)) \<or>
     pr_valid (persistenceRetry c) \<and> pr_revision (persistenceRetry c) = stateRevision c"

definition sysInv :: "'s token_persistence \<Rightarrow> ('s \<Rightarrow> bool) \<Rightarrow> (token_state \<Rightarrow> bool) \<Rightarrow> 's client \<Rightarrow> bool" where
  "sysInv ops wfs storable c \<longleftrightarrow>
     genInv c \<and> durable ops c \<and> wfs (store c) \<and> (TokenState_IsZero (state c) \<or> storable (state c))"

lemma scheduleStep_sysInv:
  assumes "scheduleStep c c'" and "sysInv ops wfs storable c"
  shows "sysInv ops wfs storable c'"
  using assms scheduleStep_genInv [OF assms(1)]
  by (simp add: sysInv_def durable_def scheduleStep_def)

lemmas core_sysInv = scheduleStep_sysInv [OF scheduleStep_core]

lemma enqueue_drain_steps:
  assumes "enqueueEvent ev c = (b, c')"
  shows "genInv c \<Longrightarrow> genInv (drainIf b c')" and "genInv c \<Longrightarrow> genInv c'"
    and "state c' = state c" and "stateRevision c' = stateRevision c" and "store c' = store c"
    and "persistenceRetry c' = persistenceRetry c"
  using assms
  by (auto simp: enqueueEvent_def Let_def drainIf_def drainEvents_eq genInv_def retryCurrent_def
      scheduleCurrent_def eventsDrained_def split: if_splits)

lemma enqueue_sysInv:
  assumes "enqueueEvent ev c = (b, c')" and "sysInv ops wfs storable c"
  shows "sysInv ops wfs storable (drainIf b c')" and "sysInv ops wfs storable c'"
  using enqueue_drain_steps [OF assms(1)] assms(2) by (simp_all add: sysInv_def durable_def)

lemma pop_sysInv:
  assumes "popEvent c = (e, c')" and "sysInv ops wfs storable c"
  shows "sysInv ops wfs storable c'" and "sysInv ops wfs storable (emit ev c')"
  using assms
  by (auto simp: popEvent_def emit_def sysInv_def durable_def genInv_def retryCurrent_def
      scheduleCurrent_def eventsDrained_def split: list.splits)

context persistence_contract
begin

text \<open>Committing a generation: advance, save, and put a failed save on the retry list.\<close>

lemma commit_sysInv:
  assumes "sysInv ops wfs storable c" and "TokenState_IsZero st \<or> storable st"
    and "Save ops st (store c) = (err, s)"
  shows "sysInv ops wfs storable
           (recordPersistenceSaveResult (stateRevision c + 1) err t ((advanceStateLocked st c)\<lparr>store := s\<rparr>))"
proof -
  let ?c = "recordPersistenceSaveResult (stateRevision c + 1) err t ((advanceStateLocked st c)\<lparr>store := s\<rparr>)"
  have wf: "wfs (store c)" "wfs s" using assms(1) save_wf [of "store c" st] assms(3) by (simp_all add: sysInv_def)
  have gen: "genInv ?c"
    using assms(1)
    by (auto simp: sysInv_def genInv_def retryCurrent_def scheduleCurrent_def eventsDrained_def
        recordPersistenceSaveResult_def Let_def split: option.split)
  have "durable ops ?c"
  proof (cases err)
    case None
    have "sameTokenState st ts" if "storable st" "Load ops s = Inr ts" for ts
      using save_load [OF wf(1) that(1) _ that(2)] assms(3) None by simp
    then show ?thesis using None assms(2) by (auto simp: durable_def stored_def recordPersistenceSaveResult_def split: sum.split)
  next
    case (Some e)
    then show ?thesis by (simp add: durable_def recordPersistenceSaveResult_def Let_def)
  qed
  then show ?thesis using gen wf(2) assms(2) by (simp add: sysInv_def)
qed

lemma restore_sysInv:
  assumes "sysInv ops wfs storable c" and "\<And>ts. Load ops (store c) = Inr ts \<Longrightarrow> storable ts"
  shows "sysInv ops wfs storable (snd (RestoreSession ops c))"
  using assms
  by (auto simp: RestoreSession_def setStateLocked_def sysInv_def genInv_def retryCurrent_def
      scheduleCurrent_def eventsDrained_def durable_def stored_def split: sum.splits)

lemma login_sysInv:
  assumes "sysInv ops wfs storable c" and "storable st"
  shows "sysInv ops wfs storable (snd (commitLoginState ops p st id t c))"
proof (cases "lifecycleOperationCurrentLocked p c")
  case True
  obtain err s where sv: "Save ops st (store c) = (err, s)" by fastforce
  let ?c = "recordPersistenceSaveResult (stateRevision c + 1) err t ((advanceStateLocked st c)\<lparr>store := s\<rparr>)"
  obtain b c2 where en: "enqueueEvent (nilEvent EventLoggedIn) ?c = (b, c2)" by fastforce
  have "snd (commitLoginState ops p st id t c) = drainIf b c2"
    using True sv en by (simp add: commitLoginState_def Let_def)
  then show ?thesis using enqueue_sysInv(1) [OF en commit_sysInv [OF assms(1) _ sv]] assms(2) by simp
qed (use assms in \<open>simp add: commitLoginState_def\<close>)

lemma refresh_sysInv:
  assumes "sysInv ops wfs storable c" and "storable st"
  shows "sysInv ops wfs storable (snd (commitRefresh ops st rv t c))"
proof (cases "stateRevision c = rv")
  case True
  obtain err s where sv: "Save ops st (store c) = (err, s)" by fastforce
  let ?c = "recordPersistenceSaveResult (stateRevision c + 1) err t ((advanceStateLocked st c)\<lparr>store := s\<rparr>)"
  obtain b c2 where en: "enqueueEvent (nilEvent EventTokenRefreshed) ?c = (b, c2)" by fastforce
  have "snd (commitRefresh ops st rv t c) = c2"
    using True sv en by (simp add: commitRefresh_def Let_def)
  then show ?thesis using enqueue_sysInv(2) [OF en commit_sysInv [OF assms(1) _ sv]] assms(2) by simp
qed (use assms in \<open>simp add: commitRefresh_def\<close>)

lemma refusal_sysInv:
  assumes "sysInv ops wfs storable c" and "storable (refusedState (at_snapshot att))"
  shows "sysInv ops wfs storable (snd (commitCredentialRefusal ops att e t c))"
proof -
  let ?st = "refusedState (at_snapshot att)"
  obtain err s where sv: "Save ops ?st (store c) = (err, s)" by fastforce
  let ?c = "recordPersistenceSaveResult (stateRevision c + 1) err t ((advanceStateLocked ?st c)\<lparr>store := s\<rparr>)"
  obtain b c2 where en: "enqueueEvent (nilEvent EventSessionExpired) ?c = (b, c2)" by fastforce
  have "snd (commitCredentialRefusal ops att e t c) \<in> {c, c2}"
    using sv en by (auto simp: commitCredentialRefusal_def Let_def)
  then show ?thesis using enqueue_sysInv(2) [OF en commit_sysInv [OF assms(1) _ sv]] assms by auto
qed

lemma logout_sysInv:
  assumes "sysInv ops wfs storable c"
  shows "sysInv ops wfs storable (snd (logoutCommit ops pe c))"
proof (cases "logoutInProgress c")
  case False
  obtain p c1 where bg: "beginLifecycleOperationLocked pe lifecycleLogout c = (p, c1)" by fastforce
  have inv1: "sysInv ops wfs storable c1"
    using core_sysInv [OF _ assms] core_quiet(5) [of pe lifecycleLogout c] bg by simp
  let ?c2 = "signalRefreshLoopLocked ((setStateLocked zeroTokenState c1)
      \<lparr>persistenceRetry := zeroPersistenceRetry, restoreBlocked := True\<rparr>)"
  obtain err s where dl: "Delete ops (store ?c2) = (err, s)" by fastforce
  obtain b c3 where en: "enqueueEvent (nilEvent EventLoggedOut) (?c2\<lparr>store := s\<rparr>) = (b, c3)" by fastforce
  have st2: "store ?c2 = store c1" by (simp add: setStateLocked_def)
  have "wfs s" using delete_wf [of "store c1"] inv1 dl st2 by (simp add: sysInv_def)
  then have "sysInv ops wfs storable (?c2\<lparr>store := s\<rparr>)"
    using inv1
    by (auto simp: sysInv_def durable_def genInv_def retryCurrent_def scheduleCurrent_def eventsDrained_def
        setStateLocked_def)
  from enqueue_sysInv(1) [OF en this] show ?thesis
    using False bg dl en by (simp add: logoutCommit_def Let_def)
qed (use assms in \<open>simp add: logoutCommit_def\<close>)

lemma next_retry_sysInv:
  assumes "sysInv ops wfs storable c"
  shows "sysInv ops wfs storable (snd (nextPersistenceRetryAction t c))"
  using assms
  by (auto simp: nextPersistenceRetryAction_def Let_def case_prod_beta sysInv_def durable_def genInv_def
      retryCurrent_def scheduleCurrent_def eventsDrained_def)

lemma retry_sysInv:
  assumes "sysInv ops wfs storable c"
  shows "sysInv ops wfs storable (retryPersistence ops ctxErr pa t c)"
proof (cases "persistenceRetryMatchesLocked pa c \<and> ctxErr = None")
  case False
  then show ?thesis using assms
    by (auto simp: retryPersistence_def sysInv_def durable_def genInv_def retryCurrent_def scheduleCurrent_def
        eventsDrained_def)
next
  case True
  obtain err s where sv: "Save ops (state c) (store c) = (err, s)" by fastforce
  have wf: "wfs (store c)" "wfs s" using assms save_wf [of "store c" "state c"] sv by (simp_all add: sysInv_def)
  have m: "pr_valid (persistenceRetry c)" "pr_revision (persistenceRetry c) = stateRevision c"
    using True by (simp_all add: persistenceRetryMatchesLocked_def)
  let ?c = "retryPersistence ops ctxErr pa t c"
  have eq: "?c = finishPersistenceRetry pa err t (c\<lparr>store := s\<rparr>)" using True sv by (simp add: retryPersistence_def)
  have mt: "persistenceRetryMatchesLocked pa (c\<lparr>store := s\<rparr>)" using True by (simp add: persistenceRetryMatchesLocked_def)
  have gen: "genInv ?c" using assms m mt unfolding eq
    by (auto simp: finishPersistenceRetry_def Let_def sysInv_def genInv_def retryCurrent_def scheduleCurrent_def
        eventsDrained_def split: option.split)
  have "durable ops ?c"
  proof (cases err)
    case None
    have "sameTokenState (state c) ts" if "storable (state c)" "Load ops s = Inr ts" for ts
      using save_load [OF wf(1) that(1) _ that(2)] sv None by simp
    then show ?thesis using assms mt None unfolding eq
      by (auto simp: finishPersistenceRetry_def durable_def stored_def sysInv_def split: sum.split)
  next
    case (Some e)
    then show ?thesis using m mt unfolding eq by (simp add: finishPersistenceRetry_def durable_def Let_def)
  qed
  moreover have "store ?c = s" "state ?c = state c" using mt unfolding eq by (simp_all add: finishPersistenceRetry_def Let_def split: option.split)
  ultimately show ?thesis using gen wf(2) assms by (simp add: sysInv_def)
qed

lemma reach_sysInv: "clientReach ops wfs storable c \<Longrightarrow> sysInv ops wfs storable c"
proof (induction rule: clientReach.induct)
  case (new s cfg)
  then show ?case
    by (simp add: sysInv_def genInv_def retryCurrent_def scheduleCurrent_def eventsDrained_def durable_def
        newClient_def)
next
  case (restore c)
  then show ?case by (blast intro: restore_sysInv)
next
  case (enqueue c rv name)
  obtain b c' where en: "enqueueEvent (nilEvent name) c = (b, c')" by fastforce
  show ?case using enqueue_sysInv(1) [OF en enqueue.IH] enqueue.IH en
    by (simp add: emitEventIfRevision_def Let_def)
next
  case (fail_init c p e)
  obtain b c' where en: "enqueueEvent (nilEvent EventInitFailed) c = (b, c')" by fastforce
  show ?case using enqueue_sysInv(1) [OF en fail_init.IH] fail_init.IH en
    by (simp add: completeInitFailure_def Let_def)
qed (auto intro: login_sysInv refresh_sysInv refusal_sysInv logout_sysInv retry_sysInv next_retry_sysInv
      core_sysInv core_quiet pop_sysInv scheduleStep_sysInv [OF nextRefreshLoopAction_step]
      scheduleStep_sysInv [OF finishRefreshLoopAttempt_step] scheduleStep_sysInv [OF finishRefreshAttempt_step]
      scheduleStep_sysInv [OF block_steps(1)] scheduleStep_sysInv [OF block_steps(2)])

end

text \<open>
  C7: in whatever order the library's locked sections run, a session in memory is never lost:
  if the store answers, it holds the current generation, or the current generation is on the
  retry list. What is on the retry list and on the refresh schedule belongs to the current
  generation, and an event that waits has a goroutine bound to deliver it.
\<close>

theorem session_durable_or_pending:
  assumes "persistence_contract ops wfs storable" and "clientReach ops wfs storable c"
  shows "wfs (store c) \<and>
         (\<not> TokenState_IsZero (state c) \<and> Load ops (store c) = Inr ts \<longrightarrow>
            sameTokenState (state c) ts \<or> pr_valid (persistenceRetry c)) \<and>
         (pr_valid (persistenceRetry c) \<longrightarrow> pr_revision (persistenceRetry c) = stateRevision c) \<and>
         (sc_valid (refreshSchedule c) \<longrightarrow> sc_revision (refreshSchedule c) = stateRevision c) \<and>
         (pendingEvents c \<noteq> [] \<longrightarrow> eventDispatching c)"
  using persistence_contract.reach_sysInv [OF assms]
  by (auto simp: sysInv_def durable_def stored_def genInv_def retryCurrent_def scheduleCurrent_def
      eventsDrained_def)

definition failingStore :: "token_state token_persistence" where
  "failingStore = memoryStore\<lparr>Save := (\<lambda>_ s. (Some (OtherError ''disk full''), s))\<rparr>"

lemma failingStore_contract: "persistence_contract failingStore (\<lambda>_. True) (\<lambda>_. True)"
  by unfold_locales (simp_all add: failingStore_def)

definition sampleLoggedIn :: "token_state client" where
  "sampleLoggedIn =
     snd (commitLoginState failingStore 0 sampleState id (atSec 1001)
       (snd (beginLifecycleOperation None lifecycleLogin (newClient sampleConfig zeroTokenState))))"

theorem session_durable_or_pending_witness:
  "\<not> TokenState_IsZero (state sampleLoggedIn) \<and> pr_valid (persistenceRetry sampleLoggedIn) \<and>
   pr_revision (persistenceRetry sampleLoggedIn) = stateRevision sampleLoggedIn"
proof -
  have "clientReach failingStore (\<lambda>_. True) (\<lambda>_. True) sampleLoggedIn"
    unfolding sampleLoggedIn_def
    by (intro clientReach.login clientReach.begin_lifecycle clientReach.new) simp_all
  note inv = session_durable_or_pending [OF failingStore_contract this]
  have 1: "\<not> TokenState_IsZero (state sampleLoggedIn)" by code_simp
  have 2: "Load failingStore (store sampleLoggedIn) = Inr zeroTokenState" by code_simp
  have 3: "\<not> sameTokenState (state sampleLoggedIn) zeroTokenState" by code_simp
  show ?thesis using inv [of zeroTokenState] 1 2 3 by blast
qed

end
