(* ===== verification/Client_Heap.thy ===== *)
theory Client_Heap
  imports Client_System
begin

text \<open>
  The objects a client points to: refresh attempts, supervisors and operations. Every pointer
  of a reachable client names a live object of its kind, and of each kind at most one object
  is live: whatever the client no longer points to has been told to stop.
\<close>

section \<open>The invariant\<close>

definition attemptsInv :: "'s client \<Rightarrow> bool" where
  "attemptsInv c \<longleftrightarrow>
     (\<forall>p. refreshAttempt c = Some p \<longrightarrow> attempts c p \<noteq> None) \<and>
     (\<forall>p a. attempts c p = Some a \<longrightarrow> p < nextPtr c \<and> (at_done a \<longleftrightarrow> refreshAttempt c \<noteq> Some p))"

definition loopsInv :: "'s client \<Rightarrow> bool" where
  "loopsInv c \<longleftrightarrow>
     (\<forall>h. refreshRun c = Some h \<longrightarrow> handles c h \<noteq> None) \<and>
     (\<forall>h x. handles c h = Some x \<longrightarrow>
        h < nextPtr c \<and> (if refreshRun c = Some h then \<not> h_done x else h_cancelled x \<or> h_done x))"

definition operationsInv :: "'s client \<Rightarrow> bool" where
  "operationsInv c \<longleftrightarrow>
     (\<forall>p. lifecycleOperation c = Some p \<longrightarrow>
        (\<exists>op. operations c p = Some op \<and> op_kind op \<noteq> initKind \<and> op_id op = lifecycleSeq c)) \<and>
     (\<forall>p. initOperation c = Some p \<longrightarrow>
        (\<exists>op. operations c p = Some op \<and> op_kind op = initKind \<and> op_id op = initSeq c)) \<and>
     (\<forall>p op. operations c p = Some op \<longrightarrow>
        p < nextPtr c \<and>
        (op_kind op = initKind \<longrightarrow> op_cancelled op \<or> initOperation c = Some p) \<and>
        (op_kind op \<noteq> initKind \<longrightarrow> op_cancelled op \<or> lifecycleOperation c = Some p))"

definition heapInv :: "'s client \<Rightarrow> bool" where
  "heapInv c \<longleftrightarrow> attemptsInv c \<and> loopsInv c \<and> operationsInv c"

lemmas heap_defs = heapInv_def attemptsInv_def loopsInv_def operationsInv_def

section \<open>Steps that leave the objects alone\<close>

text \<open>The part of a client the invariant speaks of.\<close>

definition heapPart where
  "heapPart c =
     ((operations c, lifecycleOperation c, lifecycleSeq c, initOperation c, initSeq c),
      (attempts c, refreshAttempt c), (handles c, refreshRun c), nextPtr c)"

lemma heapInv_part: "heapPart c' = heapPart c \<Longrightarrow> heapInv c \<Longrightarrow> heapInv c'"
  by (simp add: heapPart_def heap_defs)

lemma heapPart_updates [simp]:
  "heapPart (c\<lparr>state := a\<rparr>) = heapPart c" "heapPart (c\<lparr>store := b\<rparr>) = heapPart c"
  "heapPart (c\<lparr>refreshSchedule := s\<rparr>) = heapPart c" "heapPart (c\<lparr>persistenceRetry := r\<rparr>) = heapPart c"
  "heapPart (c\<lparr>restoreBlocked := d\<rparr>) = heapPart c" "heapPart (c\<lparr>refreshClaimSeq := q\<rparr>) = heapPart c"
  "heapPart (c\<lparr>persistenceClaimSeq := q\<rparr>) = heapPart c" "heapPart (c\<lparr>emitted := ev\<rparr>) = heapPart c"
  "heapPart (c\<lparr>pendingEvents := pe\<rparr>) = heapPart c" "heapPart (c\<lparr>eventDispatching := di\<rparr>) = heapPart c"
  "heapPart (signalRefreshLoopLocked c) = heapPart c" "heapPart (snd (refreshWakeLocked c)) = heapPart c"
  "heapPart (advanceStateLocked st c) = heapPart c" "heapPart (setStateLocked st c) = heapPart c"
  "heapPart (refreshScheduleLocked rv c) = heapPart c"
  by (simp_all add: heapPart_def signalRefreshLoopLocked_def refreshWakeLocked_def advanceStateLocked_def
      setStateLocked_def refreshScheduleLocked_def split: option.split)

lemma heapPart_events [simp]:
  "heapPart (snd (enqueueEvent ev c)) = heapPart c" "heapPart (emit ev c) = heapPart c"
  "heapPart (snd (popEvent c)) = heapPart c" "heapPart (drainIf b c) = heapPart c"
  "heapPart (snd (emitEventIfRevision rv name c)) = heapPart c"
proof -
  show en: "heapPart (snd (enqueueEvent ev c)) = heapPart c" for ev and c :: "'a client"
    by (simp add: enqueueEvent_def Let_def)
  show "heapPart (emit ev c) = heapPart c" by (simp add: emit_def)
  show "heapPart (snd (popEvent c)) = heapPart c" by (simp add: popEvent_def split: list.split)
  show dr: "heapPart (drainIf b c) = heapPart c" for b and c :: "'a client"
    by (simp add: drainIf_def drainEvents_eq heapPart_def)
  show "heapPart (snd (emitEventIfRevision rv name c)) = heapPart c"
    by (simp add: emitEventIfRevision_def Let_def case_prod_beta en dr)
qed

lemma heapPart_schedule [simp]:
  "heapPart (snd (nextRefreshLoopAction t c)) = heapPart c"
  "heapPart (finishRefreshLoopAttempt a res t c) = heapPart c"
  "heapPart (blockRefreshIntegrityLocked rv t c) = heapPart c"
  "heapPart (blockRefreshPermanentLocked rv st t c) = heapPart c"
  "heapPart (markRefreshInconclusiveLocked rv c) = heapPart c"
  by (simp_all add: nextRefreshLoopAction_def parkExpired_def blockedAction_def claimAttempt_def
      finishRefreshLoopAttempt_def blockRefreshIntegrityLocked_def blockRefreshPermanentLocked_def
      markRefreshInconclusiveLocked_def Let_def case_prod_beta split: refreshLoopDisposition.split)

lemma heapPart_persistence [simp]:
  "heapPart (recordPersistenceSaveResult rv e t c) = heapPart c"
  "heapPart (snd (nextPersistenceRetryAction t c)) = heapPart c"
  "heapPart (retryPersistence ops ctxErr pa t c) = heapPart c"
  by (simp_all add: recordPersistenceSaveResult_def nextPersistenceRetryAction_def retryPersistence_def
      finishPersistenceRetry_def Let_def case_prod_beta split: option.split)

lemma heapPart_commits [simp]:
  "heapPart (snd (RestoreSession ops c)) = heapPart c"
  "heapPart (snd (commitLoginState ops p st id t c)) = heapPart c"
  "heapPart (snd (commitRefresh ops st rv t c)) = heapPart c"
  "heapPart (snd (commitCredentialRefusal ops att e t c)) = heapPart c"
  "heapPart (snd (commitInit p snapshot c)) = heapPart c"
  "heapPart (snd (completeInitFailure p err c)) = heapPart c"
proof -
  show "heapPart (snd (commitInit p snapshot c)) = heapPart c"
    by (simp add: commitInit_def heapPart_def signalRefreshLoopLocked_def)
qed (simp_all add: RestoreSession_def commitLoginState_def commitRefresh_def commitCredentialRefusal_def
    completeInitFailure_def Let_def case_prod_beta split: sum.split)

section \<open>Steps that create, replace or end an object\<close>

text \<open>Each keeps the invariant because a new object gets an unused pointer and the one it
  replaces is told to stop.\<close>

lemma begin_attempt_heapInv:
  "heapInv c \<Longrightarrow> heapInv (snd (beginRefreshAttempt_pass snap erv claim t c))"
  by (auto simp: beginRefreshAttempt_pass_def Let_def updAttempt_def newAttempt_def heap_defs
      less_Suc_eq split: option.splits if_splits)

lemma finish_attempt_heapInv:
  assumes "heapInv c"
  shows "heapInv (finishRefreshAttempt p st e t c)"
proof (cases "attempts c p")
  case (Some att)
  define d where "d = markOutcome att e t c"
  have part: "heapPart d = heapPart c"
    by (simp add: d_def markOutcome_def split: option.split)
  then have inv: "heapInv d" using assms heapInv_part by blast
  have "attempts d p = Some att" using part Some by (simp add: heapPart_def)
  with inv show ?thesis
    using Some
    by (auto simp: finishRefreshAttempt_def markOutcome_def [symmetric] d_def [symmetric] updAttempt_def
        Let_def heap_defs split: if_splits)
qed (use assms in \<open>simp add: finishRefreshAttempt_def\<close>)

lemma release_heapInv: "heapInv c \<Longrightarrow> heapInv (releaseRefreshParticipant p c)"
  by (auto simp: releaseRefreshParticipant_def Let_def updAttempt_def heap_defs split: option.splits if_splits)

lemma start_loop_heapInv: "heapInv c \<Longrightarrow> heapInv (snd (startRefreshLoop pe c))"
  by (auto simp: startRefreshLoop_def cancelHandle_def Let_def heap_defs less_Suc_eq
      split: option.splits if_splits)

lemma stop_loop_heapInv: "heapInv c \<Longrightarrow> heapInv (StopRefreshLoop c)"
  by (auto simp: StopRefreshLoop_def cancelHandle_def heap_defs split: option.splits if_splits)

lemma finish_loop_heapInv: "heapInv c \<Longrightarrow> heapInv (finishRefreshRun p c)"
  by (auto simp: finishRefreshRun_def Let_def heap_defs split: if_splits)

lemma heapInv_operations:
  "operationsInv c' \<Longrightarrow> heapInv c \<Longrightarrow> attempts c' = attempts c \<Longrightarrow> refreshAttempt c' = refreshAttempt c \<Longrightarrow>
   handles c' = handles c \<Longrightarrow> refreshRun c' = refreshRun c \<Longrightarrow> nextPtr c \<le> nextPtr c' \<Longrightarrow> heapInv c'"
  by (fastforce simp: heapInv_def attemptsInv_def loopsInv_def)

lemma operationsInvD:
  assumes "operationsInv c"
  shows "lifecycleOperation c = Some p \<Longrightarrow>
           \<exists>op. operations c p = Some op \<and> op_kind op \<noteq> initKind \<and> op_id op = lifecycleSeq c"
    and "initOperation c = Some p \<Longrightarrow>
           \<exists>op. operations c p = Some op \<and> op_kind op = initKind \<and> op_id op = initSeq c"
    and "operations c p = Some op \<Longrightarrow> p < nextPtr c"
    and "operations c p = Some op \<Longrightarrow> op_kind op = initKind \<Longrightarrow> op_cancelled op \<or> initOperation c = Some p"
    and "operations c p = Some op \<Longrightarrow> op_kind op \<noteq> initKind \<Longrightarrow> op_cancelled op \<or> lifecycleOperation c = Some p"
    and "operations c (nextPtr c) = None"
proof -
  show "operations c (nextPtr c) = None"
    using assms by (cases "operations c (nextPtr c)") (auto simp: operationsInv_def)
qed (use assms in \<open>simp_all add: operationsInv_def\<close>)

lemma operationsInvI:
  assumes "\<And>p. lifecycleOperation c = Some p \<Longrightarrow>
      \<exists>op. operations c p = Some op \<and> op_kind op \<noteq> initKind \<and> op_id op = lifecycleSeq c"
    and "\<And>p. initOperation c = Some p \<Longrightarrow>
      \<exists>op. operations c p = Some op \<and> op_kind op = initKind \<and> op_id op = initSeq c"
    and "\<And>p op. operations c p = Some op \<Longrightarrow> p < nextPtr c"
    and "\<And>p op. operations c p = Some op \<Longrightarrow> op_kind op = initKind \<Longrightarrow>
      op_cancelled op \<or> initOperation c = Some p"
    and "\<And>p op. operations c p = Some op \<Longrightarrow> op_kind op \<noteq> initKind \<Longrightarrow>
      op_cancelled op \<or> lifecycleOperation c = Some p"
  shows "operationsInv c"
  using assms by (simp add: operationsInv_def)

text \<open>Cancelling marks one object and moves no pointer.\<close>

lemma cancel_frame [simp]:
  "lifecycleOperation (cancelOperation q c) = lifecycleOperation c"
  "initOperation (cancelOperation q c) = initOperation c"
  "lifecycleSeq (cancelOperation q c) = lifecycleSeq c" "initSeq (cancelOperation q c) = initSeq c"
  "nextPtr (cancelOperation q c) = nextPtr c" "attempts (cancelOperation q c) = attempts c"
  "refreshAttempt (cancelOperation q c) = refreshAttempt c" "handles (cancelOperation q c) = handles c"
  "refreshRun (cancelOperation q c) = refreshRun c"
  by (simp_all add: cancelOperation_def split: option.split)

lemma cancelled_Some:
  "operations (cancelOperation q c) p = Some op \<longleftrightarrow>
     (\<exists>op'. operations c p = Some op' \<and> op = (if q = Some p then op'\<lparr>op_cancelled := True\<rparr> else op'))"
  by (auto simp: cancelOperation_def split: option.split)

text \<open>Ending an operation: its object is cancelled and no pointer of the client is left on it.\<close>

lemma drop_operation:
  assumes inv: "operationsInv c" and ops: "operations d = operations (cancelOperation (Some p) c)"
    and "lifecycleOperation d = lifecycleOperation c \<or> lifecycleOperation c = Some p \<and> lifecycleOperation d = None"
    and "initOperation d = initOperation c \<or> initOperation c = Some p \<and> initOperation d = None"
    and "lifecycleSeq d = lifecycleSeq c" and "initSeq d = initSeq c" and "nextPtr d = nextPtr c"
  shows "operationsInv d"
proof (rule operationsInvI)
  fix q assume "lifecycleOperation d = Some q"
  then have "lifecycleOperation c = Some q" using assms(3) by auto
  with operationsInvD(1) [OF inv] show "\<exists>op. operations d q = Some op \<and> op_kind op \<noteq> initKind \<and> op_id op = lifecycleSeq d"
    unfolding ops cancelled_Some using assms(5) by fastforce
next
  fix q assume "initOperation d = Some q"
  then have "initOperation c = Some q" using assms(4) by auto
  with operationsInvD(2) [OF inv] show "\<exists>op. operations d q = Some op \<and> op_kind op = initKind \<and> op_id op = initSeq d"
    unfolding ops cancelled_Some using assms(6) by fastforce
next
  fix q op assume "operations d q = Some op"
  then obtain op' where op': "operations c q = Some op'" "op = (if p = q then op'\<lparr>op_cancelled := True\<rparr> else op')"
    unfolding ops cancelled_Some by auto
  show "q < nextPtr d" using operationsInvD(3) [OF inv op'(1)] assms(7) by simp
  show "op_cancelled op \<or> initOperation d = Some q" if "op_kind op = initKind"
    using operationsInvD(4) [OF inv op'(1)] op'(2) that assms(4) by (auto split: if_splits)
  show "op_cancelled op \<or> lifecycleOperation d = Some q" if "op_kind op \<noteq> initKind"
    using operationsInvD(5) [OF inv op'(1)] op'(2) that assms(3) by (auto split: if_splits)
qed

text \<open>Beginning one: a fresh object, and the one of its kind before it is cancelled.\<close>

lemma add_operation:
  assumes inv: "operationsInv c"
    and cur: "cur = (if op_kind new = initKind then initOperation c else lifecycleOperation c)"
    and ops: "operations d = (operations (cancelOperation cur c))(nextPtr c \<mapsto> new)"
    and "nextPtr d = nextPtr c + 1"
    and new_init: "op_kind new = initKind \<Longrightarrow>
      initOperation d = Some (nextPtr c) \<and> initSeq d = op_id new \<and>
      lifecycleOperation d = lifecycleOperation c \<and> lifecycleSeq d = lifecycleSeq c"
    and new_life: "op_kind new \<noteq> initKind \<Longrightarrow>
      lifecycleOperation d = Some (nextPtr c) \<and> lifecycleSeq d = op_id new \<and>
      initOperation d = initOperation c \<and> initSeq d = initSeq c"
  shows "operationsInv d"
proof (rule operationsInvI)
  note fresh = operationsInvD(6) [OF inv]
  have old: "operations d q = Some (if cur = Some q then op\<lparr>op_cancelled := True\<rparr> else op)"
    if "operations c q = Some op" for q op
    using that fresh by (auto simp: ops cancelled_Some)
  fix q
  show "\<exists>op. operations d q = Some op \<and> op_kind op \<noteq> initKind \<and> op_id op = lifecycleSeq d"
    if "lifecycleOperation d = Some q"
  proof (cases "op_kind new = initKind")
    case True
    with that new_init operationsInvD(1) [OF inv] obtain op
      where "operations c q = Some op" "op_kind op \<noteq> initKind" "op_id op = lifecycleSeq d" by metis
    with old show ?thesis by (cases "cur = Some q") auto
  qed (use that new_life ops in auto)
  show "\<exists>op. operations d q = Some op \<and> op_kind op = initKind \<and> op_id op = initSeq d"
    if "initOperation d = Some q"
  proof (cases "op_kind new = initKind")
    case False
    with that new_life operationsInvD(2) [OF inv] obtain op
      where "operations c q = Some op" "op_kind op = initKind" "op_id op = initSeq d" by metis
    with old show ?thesis by (cases "cur = Some q") auto
  qed (use that new_init ops in auto)
next
  fix q op assume *: "operations d q = Some op"
  then have "q = nextPtr c \<and> op = new \<or>
      (\<exists>op'. operations c q = Some op' \<and> op = (if cur = Some q then op'\<lparr>op_cancelled := True\<rparr> else op'))"
    by (auto simp: ops cancelled_Some split: if_splits)
  then consider (new) "q = nextPtr c" "op = new"
    | (old) op' where "operations c q = Some op'" "op = (if cur = Some q then op'\<lparr>op_cancelled := True\<rparr> else op')"
    by blast
  note cases = this
  show "q < nextPtr d" using cases operationsInvD(3) [OF inv] assms(4) by cases fastforce+
  show "op_cancelled op \<or> initOperation d = Some q" if "op_kind op = initKind"
    using cases
  proof cases
    case old
    with operationsInvD(4) [OF inv old(1)] that new_init new_life cur show ?thesis by (auto split: if_splits)
  qed (use that new_init in auto)
  show "op_cancelled op \<or> lifecycleOperation d = Some q" if "op_kind op \<noteq> initKind"
    using cases
  proof cases
    case old
    with operationsInvD(5) [OF inv old(1)] that new_init new_life cur show ?thesis by (auto split: if_splits)
  qed (use that new_life in auto)
qed

lemma begin_lifecycle_heapInv:
  assumes "heapInv c" and "kind \<noteq> initKind"
  shows "heapInv (snd (beginLifecycleOperationLocked pe kind c))" (is "heapInv ?d")
proof (rule heapInv_operations [OF _ assms(1)])
  let ?new = "\<lparr>op_id = lifecycleSeq c + 1, op_kind = kind, op_parentErr = pe, op_cancelled = False\<rparr>"
  show "operationsInv ?d"
    by (rule add_operation [where c = c and new = ?new])
      (use assms in \<open>simp_all add: beginLifecycleOperationLocked_def Let_def heapInv_def\<close>)
qed (simp_all add: beginLifecycleOperationLocked_def Let_def)

lemma begin_init_heapInv:
  assumes "heapInv c"
  shows "heapInv (snd (beginInitOperation pe c))" (is "heapInv ?d")
proof (cases pe)
  case None
  let ?new = "\<lparr>op_id = initSeq c + 1, op_kind = initKind, op_parentErr = None, op_cancelled = False\<rparr>"
  have "operationsInv ?d"
    by (rule add_operation [where c = c and new = ?new])
      (use assms None in \<open>simp_all add: beginInitOperation_def Let_def heapInv_def\<close>)
  then show ?thesis
    by (rule heapInv_operations [OF _ assms]) (simp_all add: beginInitOperation_def Let_def)
qed (use assms in \<open>simp add: beginInitOperation_def\<close>)

lemma finish_lifecycle_heapInv:
  assumes "heapInv c"
  shows "heapInv (finishLifecycleOperation p c)" (is "heapInv ?d")
proof (rule heapInv_operations [OF _ assms])
  show "operationsInv ?d"
    by (rule drop_operation [where c = c and p = p])
      (use assms in \<open>simp_all add: finishLifecycleOperation_def Let_def heapInv_def cancelOperation_def\<close>)
qed (simp_all add: finishLifecycleOperation_def Let_def)

lemma finish_init_heapInv:
  assumes "heapInv c"
  shows "heapInv (finishInitOperation p c)" (is "heapInv ?d")
proof (rule heapInv_operations [OF _ assms])
  show "operationsInv ?d"
    by (rule drop_operation [where c = c and p = p])
      (use assms in \<open>simp_all add: finishInitOperation_def Let_def heapInv_def cancelOperation_def\<close>)
qed (simp_all add: finishInitOperation_def Let_def)

section \<open>Reachable clients\<close>

lemma logout_heapInv:
  assumes "heapInv c"
  shows "heapInv (snd (logoutCommit ops pe c))"
proof (cases "logoutInProgress c")
  case False
  let ?c1 = "snd (beginLifecycleOperationLocked pe lifecycleLogout c)"
  have "heapPart (snd (logoutCommit ops pe c)) = heapPart ?c1"
    using False by (simp add: logoutCommit_def Let_def case_prod_beta)
  then show ?thesis using heapInv_part begin_lifecycle_heapInv [OF assms, of lifecycleLogout pe] by blast
qed (use assms in \<open>simp add: logoutCommit_def\<close>)

lemma reach_heapInv: "clientReach ops wfs storable c \<Longrightarrow> heapInv c"
proof (induction rule: clientReach.induct)
  case (new s cfg)
  then show ?case by (simp add: newClient_def heap_defs)
next
  case (begin_lifecycle c k pe)
  then show ?case using begin_lifecycle_heapInv by (auto simp: beginLifecycleOperation_def case_prod_beta)
next
  case (pop c ev c')
  then show ?case using heapInv_part [of "emit ev c'" c] heapPart_events(3) [of c] by simp
next
  case (pop_last c c')
  then show ?case using heapInv_part [of c' c] heapPart_events(3) [of c] by simp
qed (auto intro: heapInv_part logout_heapInv begin_attempt_heapInv finish_attempt_heapInv release_heapInv
      start_loop_heapInv stop_loop_heapInv finish_loop_heapInv finish_lifecycle_heapInv begin_init_heapInv
      finish_init_heapInv heapPart_schedule heapPart_persistence heapPart_commits heapPart_events)

text \<open>
  C8: in whatever order the library's locked sections run, the client's pointers are well
  typed and unique: the refresh attempt, the supervisor, the lifecycle operation and the
  \<open>Init\<close> operation a client points to exist and are of the right kind, the attempt and the
  supervisor are not finished, and the operations are the newest begun. Every other attempt is
  done, every other supervisor is cancelled or done, every other operation is cancelled. So at most one refresh request and at most one
  uncancelled supervisor, lifecycle operation and discovery run at any time.
\<close>

theorem pointers_live_and_unique:
  assumes "clientReach ops wfs storable c"
  shows "(case refreshAttempt c of None \<Rightarrow> True | Some p \<Rightarrow> \<exists>a. attempts c p = Some a \<and> \<not> at_done a) \<and>
    (\<forall>p a. attempts c p = Some a \<and> refreshAttempt c \<noteq> Some p \<longrightarrow> at_done a) \<and>
    (case refreshRun c of None \<Rightarrow> True | Some h \<Rightarrow> \<exists>x. handles c h = Some x \<and> \<not> h_done x) \<and>
    (\<forall>h x. handles c h = Some x \<and> refreshRun c \<noteq> Some h \<longrightarrow> h_cancelled x \<or> h_done x) \<and>
    (case lifecycleOperation c of None \<Rightarrow> True
     | Some p \<Rightarrow> \<exists>op. operations c p = Some op \<and> op_kind op \<noteq> initKind \<and> op_id op = lifecycleSeq c) \<and>
    (case initOperation c of None \<Rightarrow> True
     | Some p \<Rightarrow> \<exists>op. operations c p = Some op \<and> op_kind op = initKind \<and> op_id op = initSeq c) \<and>
    (\<forall>p op. operations c p = Some op \<and> lifecycleOperation c \<noteq> Some p \<and> initOperation c \<noteq> Some p \<longrightarrow>
       op_cancelled op)"
  using reach_heapInv [OF assms]
  by (simp add: heapInv_def attemptsInv_def loopsInv_def operationsInv_def split: option.split) fastforce

text \<open>A client whose supervisor was restarted and whose login was replaced by a second one.\<close>

definition sampleRestarted :: "token_state client" where
  "sampleRestarted =
     snd (beginLifecycleOperation None lifecycleLogin
       (snd (beginLifecycleOperation None lifecycleLogin
         (snd (startRefreshLoop None (snd (startRefreshLoop None (newClient sampleConfig zeroTokenState))))))))"

theorem pointers_live_and_unique_witness:
  "(refreshRun sampleRestarted, lifecycleOperation sampleRestarted) = (Some 1, Some 3) \<and>
   map_option (\<lambda>x. h_cancelled x \<or> h_done x) (handles sampleRestarted 0) = Some True \<and>
   map_option op_cancelled (operations sampleRestarted 2) = Some True"
proof -
  have "clientReach memoryStore (\<lambda>_. True) (\<lambda>_. True) sampleRestarted"
    unfolding sampleRestarted_def
    by (intro clientReach.begin_lifecycle clientReach.start_loop clientReach.new) simp_all
  note inv = pointers_live_and_unique [OF this, THEN conjunct2, THEN conjunct2]
  have loops: "\<forall>h x. handles sampleRestarted h = Some x \<and> refreshRun sampleRestarted \<noteq> Some h \<longrightarrow>
      h_cancelled x \<or> h_done x"
    and opers: "\<forall>p op. operations sampleRestarted p = Some op \<and> lifecycleOperation sampleRestarted \<noteq> Some p \<and>
      initOperation sampleRestarted \<noteq> Some p \<longrightarrow> op_cancelled op"
    using inv by blast+
  have run: "refreshRun sampleRestarted = Some 1" "lifecycleOperation sampleRestarted = Some 3"
    "initOperation sampleRestarted = None"
    and some: "handles sampleRestarted 0 \<noteq> None" "operations sampleRestarted 2 \<noteq> None"
    by (simp_all add: sampleRestarted_def newClient_def beginLifecycleOperation_def
        beginLifecycleOperationLocked_def cancelOperation_def startRefreshLoop_def cancelHandle_def Let_def)
  obtain x op where *: "handles sampleRestarted 0 = Some x" "operations sampleRestarted 2 = Some op"
    using some by auto
  have "h_cancelled x \<or> h_done x" using loops [rule_format, of 0 x] run(1) * by simp
  moreover have "op_cancelled op" using opers [rule_format, of 2 op] run(2,3) * by simp
  ultimately show ?thesis using run * by simp
qed

end
