(* ===== verification/Supervisor.thy ===== *)
theory Supervisor
  imports Client_Heap
begin

text \<open>
  The supervisor between two waits: \<open>runRefreshLoop\<close> taking turn after turn until it blocks
  or returns, and the proof that it always gets there. The comment of
  \<open>finishRefreshLoopAttempt\<close> asks for it: an attempt that reports success and commits
  nothing must not make the loop spin on an overdue threshold.
\<close>

section \<open>The loop\<close>

text \<open>
  Turn \<open>k\<close> runs in the environment \<open>e k\<close>. The loop has no bound of its own, so \<open>None\<close>
  stands for a supervisor that spins for ever.
\<close>

partial_function (option) runRefreshLoop ::
  "(nat \<Rightarrow> 's loopEnv) \<Rightarrow> nat \<Rightarrow> 's client \<Rightarrow> (loopTurn \<times> 's client) option" where
  "runRefreshLoop e k c =
     (let (t, c') = runRefreshLoop_turn (e k) c
      in if t = LoopAgain then runRefreshLoop e (Suc k) c' else Some (t, c'))"

lemma runRefreshLoop_stops:
  "fst (runRefreshLoop_turn (e k) c) \<noteq> LoopAgain \<Longrightarrow>
   runRefreshLoop e k c = Some (runRefreshLoop_turn (e k) c)"
  by (simp add: runRefreshLoop.simps [of e k] case_prod_beta)

lemma runRefreshLoop_again:
  "runRefreshLoop_turn (e k) c = (LoopAgain, c') \<Longrightarrow> runRefreshLoop e k c = runRefreshLoop e (Suc k) c'"
  by (simp add: runRefreshLoop.simps [of e k])

section \<open>What is left of a generation\<close>

text \<open>The turns a generation can still take without waiting: its thresholds and its expiry event.\<close>

definition turnsLeft :: "'s client \<Rightarrow> nat" where
  "turnsLeft c =
     (let schedule = effectiveSchedule c
      in case disposition schedule of
           refreshLoopActive \<Rightarrow> 66 - min 64 (unat (nextStage schedule))
         | refreshLoopBlockedExpired \<Rightarrow> 0
         | _ \<Rightarrow> if eventEmitted schedule then 0 else 1)"

lemma turnsLeft_parked:
  "disposition (effectiveSchedule c) \<noteq> refreshLoopActive \<Longrightarrow> turnsLeft c \<le> 1"
  by (simp add: turnsLeft_def Let_def split: refreshLoopDisposition.split)

text \<open>
  An attempt that leaves its generation in place: it may park the generation, but neither
  the revision nor the claimed threshold moves, and it was cancelled before it started only
  if the context of the loop has ended. \<open>P\<close> is what the caller knows of the client before the
  turn, and \<open>turnKeeps\<close> says that turns preserve it.
\<close>

definition keepsGeneration :: "('s client \<Rightarrow> bool) \<Rightarrow> 's loopEnv \<Rightarrow> bool" where
  "keepsGeneration P env \<longleftrightarrow>
     (\<forall>c0 a c res c'. P c0 \<longrightarrow> nextRefreshLoopAction (le_now env) c0 = (a, c) \<longrightarrow>
        a_kind a = refreshLoopAttempt \<longrightarrow> le_attempt env a c = (res, c') \<longrightarrow>
          stateRevision c' = stateRevision c \<and> sc_valid (refreshSchedule c') \<and>
          sc_revision (refreshSchedule c') = stateRevision c \<and>
          sc_claimID (refreshSchedule c') = a_claimID a \<and>
          nextStage (refreshSchedule c') = nextStage (refreshSchedule c) \<and>
          (res = refreshLoopAttemptCanceledBeforeStart \<longrightarrow> le_ctxErrAfter env \<noteq> None))"

definition turnKeeps :: "('s client \<Rightarrow> bool) \<Rightarrow> 's loopEnv \<Rightarrow> bool" where
  "turnKeeps P env \<longleftrightarrow> (\<forall>c. P c \<longrightarrow> P (snd (runRefreshLoop_turn env c)))"

lemma attempt_turn_left:
  assumes "keepsGeneration P env" and "nextRefreshLoopAction (le_now env) c = (a, c1)"
    and "a_kind a = refreshLoopAttempt" and "le_attempt env a c1 = (res, c2)"
    and "le_ctxErrAfter env = None" and "P c"
  shows "turnsLeft (finishRefreshLoopAttempt a res t c2) < turnsLeft c"
proof -
  note cl = attempt_claims_schedule [OF assms(2,3)]
  have due: "attemptDue (le_now env) c" using attempt_attemptDue assms(2,3) by (metis fst_conv)
  note bound = attemptDue_stage_bound [OF due]
  have left: "turnsLeft c = 66 - unat (nextStage (effectiveSchedule c))"
    using due bound(2) by (simp add: turnsLeft_def attemptDue_def)
  have keep: "stateRevision c2 = stateRevision c1" "sc_valid (refreshSchedule c2)"
    "sc_revision (refreshSchedule c2) = stateRevision c1" "sc_claimID (refreshSchedule c2) = a_claimID a"
    "nextStage (refreshSchedule c2) = nextStage (effectiveSchedule c)"
    "res \<noteq> refreshLoopAttemptCanceledBeforeStart"
    using assms(1) [unfolded keepsGeneration_def, rule_format, OF assms(6,2-4)] assms(5) cl by auto
  let ?d = "finishRefreshLoopAttempt a res t c2"
    and ?s = "(refreshSchedule c2)\<lparr>sc_claimID := 0\<rparr>"
  have fin: "refreshSchedule ?d = applyAttemptResult (config c2) a res t ?s" "stateRevision ?d = stateRevision c1"
    using finish_matching [of c2 a res t] keep cl(5) by simp_all
  then have eff: "effectiveSchedule ?d = applyAttemptResult (config c2) a res t ?s"
    using keep by (simp add: effectiveSchedule_current)
  show ?thesis
  proof (cases "disposition (effectiveSchedule ?d) = refreshLoopActive")
    case False
    with turnsLeft_parked [OF this] left bound(2) show ?thesis by linarith
  next
    case True
    then have adv: "advancingResult res"
      using keep(6) unfolding eff
      by (auto simp: applyAttemptResult_def advancingResult_def split: refreshLoopAttemptResult.splits)
    have stage: "a_stage a = nextStage (effectiveSchedule c)" using cl(6,9) by simp
    have "nextStage (effectiveSchedule ?d) = nextStage (effectiveSchedule c) + 1"
      using unat_succ_stage(2) [OF bound(2)] stage
      by (simp add: eff applyAttemptResult_advancing [OF adv] advanceRefreshStageLocked_def Let_def)
    with True left bound(2) unat_succ_stage(1) [OF bound(2)] show ?thesis
      by (simp add: turnsLeft_def)
  qed
qed

lemma emit_turn_left:
  assumes "nextRefreshLoopAction now c = (a, c1)" and "a_kind a = refreshLoopEmitSessionExpired"
  shows "turnsLeft (snd (emitEventIfRevision rv name c1)) < turnsLeft c"
proof -
  note due = emission_due [OF assms]
  have rev: "stateRevision c1 = stateRevision c"
    using idle_turn_keeps_schedule(3) [of now c] assms by simp
  have "effectiveSchedule (snd (emitEventIfRevision rv name c1)) = effectiveSchedule c1"
    by (simp add: emitEventIfRevision_def Let_def case_prod_beta effectiveSchedule_def refreshScheduleLocked_def)
  then show ?thesis using due by (auto simp: turnsLeft_def)
qed

lemma turn_left:
  assumes "keepsGeneration P env" and "runRefreshLoop_turn env c = (LoopAgain, c')" and "P c"
  shows "turnsLeft c' < turnsLeft c"
proof -
  obtain a c1 where next_eq: "nextRefreshLoopAction (le_now env) c = (a, c1)" by fastforce
  obtain res c2 where attempt_eq: "le_attempt env a c1 = (res, c2)" by fastforce
  show ?thesis
  proof (cases "a_kind a")
    case refreshLoopAttempt
    with assms(2) have "le_ctxErrAfter env = None"
      and "c' = finishRefreshLoopAttempt a res (le_completedAt env) c2"
      by (auto simp: runRefreshLoop_turn_def next_eq attempt_eq split: if_splits)
    with attempt_turn_left [OF assms(1) next_eq refreshLoopAttempt attempt_eq] assms(3) show ?thesis by simp
  next
    case refreshLoopEmitSessionExpired
    with assms(2) emit_turn_left [OF next_eq] show ?thesis
      by (auto simp: runRefreshLoop_turn_def next_eq split: if_splits)
  qed (use assms(2) in \<open>auto simp: runRefreshLoop_turn_def next_eq split: if_splits\<close>)
qed

section \<open>What the attempts of the library do\<close>

text \<open>
  \<open>doRefresh\<close> on the refresh code of the client: \<open>None\<close> is a call that still waits for an
  attempt of an older generation to end.
\<close>

definition scheduledRefresh ::
  "'s token_persistence \<Rightarrow> 's refreshEnv \<Rightarrow> ctx_err option \<Rightarrow> gotime \<Rightarrow> 's wait list \<Rightarrow> waitOutcome \<Rightarrow>
   ('s client \<Rightarrow> 's client) \<Rightarrow> ctx_err option \<Rightarrow> refreshLoopAction \<Rightarrow> 's client \<Rightarrow>
   refreshLoopAttemptResult option \<times> 's client" where
  "scheduledRefresh ops env ctxErr now ws outcome others ctxErrAfter action c =
     (let (res, c) = refreshForSchedule ops env ctxErr (actionState action) (a_revision action)
                       (a_claimID action) now ws outcome others c
      in (map_option (\<lambda>(_, started, err). doRefresh err started ctxErrAfter) res, c))"

lemma mark_keeps_claim:
  assumes "sc_valid (refreshSchedule c)" and "sc_revision (refreshSchedule c) = stateRevision c"
  shows "sc_valid (refreshSchedule (markOutcome att e t c))"
    and "sc_revision (refreshSchedule (markOutcome att e t c)) = stateRevision c"
    and "sc_claimID (refreshSchedule (markOutcome att e t c)) = sc_claimID (refreshSchedule c)"
    and "nextStage (refreshSchedule (markOutcome att e t c)) = nextStage (refreshSchedule c)"
  using assms
  by (auto simp: markOutcome_def blockRefreshIntegrityLocked_def blockRefreshPermanentLocked_def
      markRefreshInconclusiveLocked_def refreshScheduleLocked_def Let_def split: option.split)

text \<open>
  An attempt the provider does not answer with tokens, and whose error is no refusal of the
  credentials, keeps the generation in the sense above.
\<close>

lemma failed_scheduled_refresh:
  assumes "nextRefreshLoopAction now c0 = (a, c)" and "a_kind a = refreshLoopAttempt"
    and "quietRefresh env" and "refreshAttempt c = None" and "time_before t (ExpiresAt (state c))"
    and "oauth2 c = Some oc" and "re_token env oc (RefreshToken (state c)) = Inl err"
    and "\<not> isCredentialRefusedError (refreshError err)"
    and "scheduledRefresh ops env None t [] AttemptClosed others ctxErr a c = (r, c')"
  shows "r = Some (doRefresh (Some (refreshError err)) True ctxErr) \<and>
    r \<noteq> Some refreshLoopAttemptCanceledBeforeStart \<and> state c' = state c \<and>
    stateRevision c' = stateRevision c \<and> sc_valid (refreshSchedule c') \<and>
    sc_revision (refreshSchedule c') = stateRevision c \<and>
    sc_claimID (refreshSchedule c') = a_claimID a \<and>
    nextStage (refreshSchedule c') = nextStage (refreshSchedule c) \<and> refreshAttempt c' = None"
proof -
  note cl = attempt_claims_schedule [OF assms(1,2)]
  have due: "attemptDue now c0" using attempt_attemptDue assms(1,2) by (metis fst_conv)
  have a: "a = fst (claimAttempt (preparedLoop c0))" "c = snd (claimAttempt (preparedLoop c0))"
    using attemptDue_claims [OF due] assms(1) by (metis fst_conv, metis snd_conv)
  have ast: "actionState a = state c" by (simp add: a actionState_def)
  have active: "disposition (refreshSchedule c) = refreshLoopActive"
    using due cl(9) by (simp add: attemptDue_def)
  obtain v where v: "verifier c = Some v" 
    using due by (auto simp: a attemptDue_def loopReady_def claimAttempt_def Let_def)
  let ?p = "nextPtr c" and ?att = "newAttempt (stateRevision c) (state c)"
  have "beginRefreshAttempt None (state c) (Some (a_revision a)) (a_claimID a) t [] c =
      (BeginLeader ?p, leadAttempt c)"
    using cl active assms(4-6) v
    by (simp add: beginRefreshAttempt_def beginRefreshAttempt_pass_def leadAttempt_def scheduleAdmits_def
        refreshIntegrityBlockedLocked_def refreshPermanentlyBlockedLocked_def Let_def)
  moreover define c2 where "c2 = runRefreshAttempt ops env ?p (leadAttempt c)"
  ultimately have run: "refreshForSchedule ops env None (actionState a) (a_revision a) (a_claimID a) t []
      AttemptClosed others c = finishWait ?p AttemptClosed c2"
    by (simp add: refreshForSchedule_def refreshAtRevision_def ast)
  have snap: "at_snapshot ?att = state c" "at_revision ?att = stateRevision c"
    by (simp_all add: newAttempt_def)
  have perf: "performRefresh ops env (at_snapshot ?att) (at_revision ?att) (leadAttempt c) =
      ((zeroTokenState, False, Some (refreshError err)), leadAttempt c)"
    using performRefresh_network_failure [of "leadAttempt c" oc v env "state c"] assms(3,6,7) v snap
    by (simp add: quietRefresh_def refreshError_def)
  note f = run_failed [OF assms(3) leadAttempt_simps(9) _ _ perf assms(8) c2_def, of oc v]
  let ?c3 = "releaseRefreshParticipant ?p c2"
  have "map_option at_err (attempts ?c3 ?p) = Some (Some (refreshError err))"
    using f(7) assms(6) v by simp
  then obtain a3 where "attempts ?c3 ?p = Some a3" "at_err a3 = Some (refreshError err)" by (auto simp del: release_at_err)
  then have res: "r = Some (doRefresh (Some (refreshError err)) True ctxErr)" "c' = ?c3"
    using assms(9) run by (simp_all add: scheduledRefresh_def finishWait_def waitForRefreshAttempt_def Let_def)
  have "doRefresh (Some e) True ctxErr \<noteq> refreshLoopAttemptCanceledBeforeStart" for e
    by (simp add: doRefresh_def)
  with res f assms(6) v cl mark_keeps_claim [of "leadAttempt c"] show ?thesis by simp
qed

text \<open>One that comes too late, the access token having expired, changes nothing.\<close>

lemma expired_scheduled_refresh:
  assumes "nextRefreshLoopAction now c0 = (a, c)" and "a_kind a = refreshLoopAttempt"
    and "\<not> time_before t (ExpiresAt (state c))"
  shows "scheduledRefresh ops env None t ws outcome others ctxErr a c =
    (Some refreshLoopAttemptExpiredBeforeStart, c)"
proof -
  note cl = attempt_claims_schedule [OF assms(1,2)]
  have due: "attemptDue now c0" using attempt_attemptDue assms(1,2) by (metis fst_conv)
  have a: "a = fst (claimAttempt (preparedLoop c0))" "c = snd (claimAttempt (preparedLoop c0))"
    using attemptDue_claims [OF due] assms(1) by (metis fst_conv, metis snd_conv)
  have ast: "actionState a = state c" by (simp add: a actionState_def)
  have active: "disposition (refreshSchedule c) = refreshLoopActive"
    using due cl(9) by (simp add: attemptDue_def)
  have pass: "beginRefreshAttempt_pass (state c) (Some (a_revision a)) (a_claimID a) t c =
      (BeginReturn (state c) (Some errScheduledRefreshExpired), c)"
    using cl active assms(3)
    by (simp add: beginRefreshAttempt_pass_def scheduleAdmits_def refreshIntegrityBlockedLocked_def
        refreshPermanentlyBlockedLocked_def)
  then have "beginRefreshAttempt None (state c) (Some (a_revision a)) (a_claimID a) t ws c =
      (BeginReturn (state c) (Some errScheduledRefreshExpired), c)"
    by (cases ws) (auto simp: beginRefreshAttempt_def)
  then show ?thesis
    by (simp add: scheduledRefresh_def refreshForSchedule_def refreshAtRevision_def ast doRefresh_def)
qed

text \<open>
  The supervisor's environment in which its attempts are those of the library, run against
  \<open>env\<close> with nobody else refreshing; a call that would have to wait for another's attempt, of
  which there is none then, ends with the loop.
\<close>

definition libraryLoop ::
  "'s token_persistence \<Rightarrow> 's refreshEnv \<Rightarrow> gotime \<Rightarrow> gotime \<Rightarrow> gotime \<Rightarrow> 's loopEnv" where
  "libraryLoop ops env now begun completed =
     \<lparr>le_ctxErr = None, le_now = now,
      le_attempt = (\<lambda>a c. case scheduledRefresh ops env None begun [] AttemptClosed id None a c of
                            (Some res, c) \<Rightarrow> (res, c)
                          | (None, c) \<Rightarrow> (refreshLoopAttemptCanceledBeforeStart, c)),
      le_completedAt = completed, le_ctxErrAfter = None\<rparr>"

definition unreachable :: "'s refreshEnv \<Rightarrow> bool" where
  "unreachable env \<longleftrightarrow>
     quietRefresh env \<and>
     (\<forall>oc rt. \<exists>err. re_token env oc rt = Inl err \<and> \<not> isCredentialRefusedError (refreshError err))"

abbreviation noAttempt :: "'s client \<Rightarrow> bool" where "noAttempt c \<equiv> refreshAttempt c = None"

lemma noAttempt_frames [simp]:
  "refreshAttempt (snd (nextRefreshLoopAction t c)) = refreshAttempt c"
  "refreshAttempt (finishRefreshLoopAttempt a res t c) = refreshAttempt c"
  "refreshAttempt (snd (emitEventIfRevision rv name c)) = refreshAttempt c"
  using heapPart_schedule(1) [of t c, unfolded heapPart_def]
    heapPart_schedule(2) [of a res t c, unfolded heapPart_def]
    heapPart_events(5) [of rv name c, unfolded heapPart_def] by simp_all

lemma library_attempt:
  assumes "unreachable env" and "noAttempt c0" and "nextRefreshLoopAction now c0 = (a, c)"
    and "a_kind a = refreshLoopAttempt"
    and "le_attempt (libraryLoop ops env now begun completed) a c = (res, c')"
  shows "res \<noteq> refreshLoopAttemptCanceledBeforeStart \<and> noAttempt c' \<and>
    stateRevision c' = stateRevision c \<and> sc_valid (refreshSchedule c') \<and>
    sc_revision (refreshSchedule c') = stateRevision c \<and>
    sc_claimID (refreshSchedule c') = a_claimID a \<and>
    nextStage (refreshSchedule c') = nextStage (refreshSchedule c)"
proof -
  have none: "noAttempt c" using assms(2,3) noAttempt_frames(1) by (metis snd_conv)
  obtain r d where r: "scheduledRefresh ops env None begun [] AttemptClosed id None a c = (r, d)" by fastforce
  show ?thesis
  proof (cases "time_before begun (ExpiresAt (state c))")
    case True
    have "attemptDue now c0" using attempt_attemptDue assms(3,4) by (metis fst_conv)
    then have "oauth2 c0 \<noteq> None" by (simp add: attemptDue_def loopReady_def)
    moreover have "oauth2 c = oauth2 c0"
      using attemptDue_claims [OF \<open>attemptDue now c0\<close>] assms(3)
      by (auto simp: claimAttempt_def Let_def)
    ultimately obtain oc where oc: "oauth2 c = Some oc" by auto
    obtain err where err: "re_token env oc (RefreshToken (state c)) = Inl err"
      "\<not> isCredentialRefusedError (refreshError err)" and quiet: "quietRefresh env"
      using assms(1) unfolding unreachable_def by blast
    show ?thesis
      using failed_scheduled_refresh [OF assms(3,4) quiet none True oc err r] assms(5) r
      by (auto simp: libraryLoop_def)
  next
    case False
    then show ?thesis
      using expired_scheduled_refresh [OF assms(3,4) False] attempt_claims_schedule [OF assms(3,4)] none assms(5)
      by (auto simp: libraryLoop_def)
  qed
qed

lemma library_keepsGeneration:
  assumes "unreachable env"
  shows "keepsGeneration noAttempt (libraryLoop ops env now begun completed)" (is "keepsGeneration _ ?e")
  unfolding keepsGeneration_def
proof (intro allI impI)
  fix c0 a c res c'
  assume "noAttempt c0" and "nextRefreshLoopAction (le_now ?e) c0 = (a, c)" and "a_kind a = refreshLoopAttempt"
    and run: "le_attempt ?e a c = (res, c')"
  moreover have "le_now ?e = now" by (simp add: libraryLoop_def)
  ultimately show "stateRevision c' = stateRevision c \<and> sc_valid (refreshSchedule c') \<and>
      sc_revision (refreshSchedule c') = stateRevision c \<and> sc_claimID (refreshSchedule c') = a_claimID a \<and>
      nextStage (refreshSchedule c') = nextStage (refreshSchedule c) \<and>
      (res = refreshLoopAttemptCanceledBeforeStart \<longrightarrow> le_ctxErrAfter ?e \<noteq> None)"
    using library_attempt [OF assms, of c0 now a c ops begun completed res c'] by simp
qed

lemma library_turnKeeps:
  assumes "unreachable env"
  shows "turnKeeps noAttempt (libraryLoop ops env now begun completed)" (is "turnKeeps _ ?e")
  unfolding turnKeeps_def
proof (intro allI impI)
  fix c0 :: "'a client"
  assume none: "noAttempt c0"
  obtain a c where next_eq: "nextRefreshLoopAction now c0 = (a, c)" by fastforce
  have c: "noAttempt c" using none next_eq noAttempt_frames(1) by (metis snd_conv)
  obtain res c' where run: "le_attempt ?e a c = (res, c')" by fastforce
  have "noAttempt c'" if "a_kind a = refreshLoopAttempt"
    using library_attempt [OF assms none next_eq that run] by simp
  moreover have "le_ctxErr ?e = None" "le_now ?e = now" by (simp_all add: libraryLoop_def)
  ultimately show "noAttempt (snd (runRefreshLoop_turn ?e c0))"
    using c run next_eq
    by (cases "a_kind a") (simp_all add: runRefreshLoop_turn_def case_prod_beta)
qed

section \<open>The loop does not spin\<close>

text \<open>What the loop hands back: a wait, or a return because its context has ended.\<close>

definition stopsProperly :: "(nat \<Rightarrow> 's loopEnv) \<Rightarrow> (loopTurn \<times> 's client) option \<Rightarrow> bool" where
  "stopsProperly e r \<longleftrightarrow>
     (\<exists>t c. r = Some (t, c) \<and> t \<noteq> LoopAgain \<and>
            (t = LoopReturn \<longrightarrow> (\<exists>k. le_ctxErr (e k) \<noteq> None \<or> le_ctxErrAfter (e k) \<noteq> None)))"

lemma stopping_turn:
  assumes "fst (runRefreshLoop_turn (e k) c) \<noteq> LoopAgain"
  shows "stopsProperly e (runRefreshLoop e k c)"
proof -
  have "fst (runRefreshLoop_turn (e k) c) = LoopReturn \<Longrightarrow>
      le_ctxErr (e k) \<noteq> None \<or> le_ctxErrAfter (e k) \<noteq> None"
    by (auto simp: runRefreshLoop_turn_def case_prod_beta Let_def split: if_splits refreshLoopActionKind.splits)
  with assms show ?thesis
    unfolding stopsProperly_def runRefreshLoop_stops [where e = e and k = k, OF assms] by (metis prod.collapse)
qed

lemma settled_loop_stops:
  assumes "P c" and "\<And>j. turnKeeps P (e j)" and "\<And>j. k \<le> j \<Longrightarrow> keepsGeneration P (e j)"
  shows "stopsProperly e (runRefreshLoop e k c)"
  using assms(1,3)
proof (induction "turnsLeft c" arbitrary: k c rule: less_induct)
  case less
  show ?case
  proof (cases "fst (runRefreshLoop_turn (e k) c) = LoopAgain")
    case True
    then obtain c' where turn: "runRefreshLoop_turn (e k) c = (LoopAgain, c')" by (metis prod.collapse)
    have "turnsLeft c' < turnsLeft c" using turn_left [OF less.prems(2) turn less.prems(1)] by simp
    moreover have "P c'" using assms(2) less.prems(1) turn unfolding turnKeeps_def by (metis snd_conv)
    ultimately show ?thesis
      using less.hyps less.prems(2) by (simp add: runRefreshLoop_again [where e = e and k = k, OF turn])
  qed (rule stopping_turn)
qed

text \<open>
  C9: between two waits the supervisor takes finitely many turns. Once the attempts leave
  the token generation in place (they fail, or report success and commit nothing), the loop
  blocks or returns, whatever happened in the turns before, whatever the results and the
  clock readings are, and it returns only when a context has ended. \<open>P\<close> may be any fact about
  the client that the turns preserve. The library's own attempts are such while the provider
  cannot be reached.
\<close>

theorem refresh_loop_never_spins:
  assumes "P c" and "\<forall>k. turnKeeps P (e k)" and "\<forall>k \<ge> settled. keepsGeneration P (e k)"
  shows "\<exists>t c'. runRefreshLoop e 0 c = Some (t, c') \<and> t \<noteq> LoopAgain \<and>
    (t = LoopReturn \<longrightarrow> (\<exists>k. le_ctxErr (e k) \<noteq> None \<or> le_ctxErrAfter (e k) \<noteq> None))"
proof -
  have "stopsProperly e (runRefreshLoop e k c)" if "k \<le> settled" "P c" for k c
    using that
  proof (induction k arbitrary: c rule: inc_induct)
    case base
    show ?case using assms(2,3) base by (intro settled_loop_stops [of P]) simp_all
  next
    case (step k)
    show ?case
    proof (cases "fst (runRefreshLoop_turn (e k) c) = LoopAgain")
      case True
      then obtain c' where turn: "runRefreshLoop_turn (e k) c = (LoopAgain, c')" by (metis prod.collapse)
      have "P c'" using assms(2) step.prems turn unfolding turnKeeps_def by (metis snd_conv)
      with step.IH show ?thesis by (simp add: runRefreshLoop_again [where e = e and k = k, OF turn])
    qed (rule stopping_turn)
  qed
  then show ?thesis using assms(1) unfolding stopsProperly_def by simp
qed

text \<open>The library's own attempts against a provider that cannot be reached, one second per turn.\<close>

definition sampleLoop :: "nat \<Rightarrow> token_state loopEnv" where
  "sampleLoop k =
     libraryLoop memoryStore (sampleEnv (Inl (OtherError ''connection refused''))) (atSec (1600 + int k))
       (atSec (1600 + int k)) (atSec (1601 + int k))"

theorem refresh_loop_never_spins_witness:
  "(\<exists>t c'. runRefreshLoop sampleLoop 0 sampleClient = Some (t, c') \<and> t \<noteq> LoopAgain \<and> t \<noteq> LoopReturn) \<and>
   fst (runRefreshLoop_turn (sampleLoop 0) sampleClient) = LoopAgain"
proof
  have env: "unreachable (sampleEnv (Inl (OtherError ''connection refused'')))"
  proof -
    have "\<not> isCredentialRefusedError (refreshError (OtherError ''connection refused''))" by code_simp
    then show ?thesis by (simp add: unreachable_def quietRefresh_def sampleEnv_def fun_eq_iff)
  qed
  have 1: "refreshAttempt sampleClient = None" by (simp add: sampleClient_def newClient_def)
  have 2: "\<forall>k. turnKeeps noAttempt (sampleLoop k)" "\<forall>k \<ge> 0. keepsGeneration noAttempt (sampleLoop k)"
    using library_turnKeeps [OF env] library_keepsGeneration [OF env] by (simp_all add: sampleLoop_def)
  have no_ctx: "le_ctxErr (sampleLoop k) = None" "le_ctxErrAfter (sampleLoop k) = None" for k
    by (simp_all add: sampleLoop_def libraryLoop_def)
  from refresh_loop_never_spins [where P = noAttempt, OF 1 2]
  obtain t c' where "runRefreshLoop sampleLoop 0 sampleClient = Some (t, c')" "t \<noteq> LoopAgain"
    "t \<noteq> LoopReturn"
    by (auto simp: no_ctx)
  then show "\<exists>t c'. runRefreshLoop sampleLoop 0 sampleClient = Some (t, c') \<and> t \<noteq> LoopAgain \<and> t \<noteq> LoopReturn" by blast
qed code_simp

end
