(* ===== verification/Auth_Flow.thy ===== *)
theory Auth_Flow
  imports Go_Url_Roundtrip
begin

text \<open>
  The \<open>AuthFlowHandler\<close> interface (\<open>interfaces.go\<close>) as the locale \<open>auth_flow\<close>: a handler sends the
  browser to the authorization URL and returns the URL the provider redirects it to. The
  \<open>LogoutFlowHandler\<close> interface extends it (\<open>logout_flow\<close>).
\<close>

text \<open>
  An authorization or end-session URL that asks, in the parameter \<open>param\<close>, for a redirect to
  \<open>uri\<close> with the state \<open>st\<close>.
\<close>

definition requestsFlow :: "string \<Rightarrow> string \<Rightarrow> string \<Rightarrow> string \<Rightarrow> bool" where
  "requestsFlow param authURL uri st \<longleftrightarrow>
     (case Parse authURL of
        Inl _ \<Rightarrow> False
      | Inr target \<Rightarrow>
          u_Scheme target \<in> {''http'', ''https''} \<and> u_Host target \<noteq> '''' \<and> u_User target = None \<and>
          u_Fragment target = '''' \<and>
          (case ParseQuery (u_RawQuery target) of
             Inl _ \<Rightarrow> False
           | Inr q \<Rightarrow> valuesOf q ''state'' = [st] \<and> valuesOf q param = [uri]))"

text \<open>
  A redirect URI without a query that \<open>String\<close> prints as it was written.
\<close>

definition plainRedirect :: "string \<Rightarrow> url \<Rightarrow> bool" where
  "plainRedirect uri ru \<longleftrightarrow>
     Parse uri = Inr ru \<and> plainURL ru \<and> u_RawQuery ru = '''' \<and> URL_String ru = uri"

text \<open>The URL a provider sends the browser to.\<close>

definition redirectLocation :: "url \<Rightarrow> url_values \<Rightarrow> string" where
  "redirectLocation ru q = URL_String (ru\<lparr>u_RawQuery := Values_Encode q\<rparr>)"

text \<open>
  \<open>start authURL location\<close>: what \<open>StartAuthFlow\<close> returns when the browser, sent to \<open>authURL\<close>, ends
  up at \<open>location\<close>; \<open>None\<close> while it is still waiting. A handler delivers every answer to its
  own redirect URI that carries the state of the request, unchanged.
\<close>

locale auth_flow =
  fixes start :: "string \<Rightarrow> string \<Rightarrow> string result option"
    and redirectURI :: string
    and reachable :: "url \<Rightarrow> bool"
  assumes delivers:
    "\<lbrakk>requestsFlow ''redirect_uri'' authURL redirectURI st; st \<noteq> ''''; plainRedirect redirectURI ru; reachable ru;
      q \<noteq> []; valuesOf q ''state'' = [st]\<rbrakk> \<Longrightarrow>
     start authURL (redirectLocation ru q) = Some (Inr (redirectLocation ru q))"

locale logout_flow = auth_flow +
  fixes startLogout :: "string \<Rightarrow> string \<Rightarrow> string result option"
    and logoutURI :: string
  assumes delivers_logout:
    "\<lbrakk>requestsFlow ''post_logout_redirect_uri'' logoutURL logoutURI st; st \<noteq> ''''; plainRedirect logoutURI ru;
      reachable ru; q \<noteq> []; valuesOf q ''state'' = [st]\<rbrakk> \<Longrightarrow>
     startLogout logoutURL (redirectLocation ru q) = Some (Inr (redirectLocation ru q))"

lemma plainRedirect_text:
  assumes "plainRedirect uri ru" and "q \<noteq> []"
  shows "redirectLocation ru q = uri @ ''?'' @ Values_Encode q"
    and "Parse (redirectLocation ru q) = Inr (ru\<lparr>u_RawQuery := Values_Encode q\<rparr>)"
proof -
  have p: "plainURL ru" "ru\<lparr>u_RawQuery := ''''\<rparr> = ru" "URL_String ru = uri"
    using assms(1) by (simp_all add: plainRedirect_def)
  have "URL_String ru = u_Scheme ru @ ''://'' @ u_Host ru @ escape encodePath (u_Path ru)"
    using URL_String_plain_any [OF p(1), of "''''"] p(2) by simp
  with p(3) show "redirectLocation ru q = uri @ ''?'' @ Values_Encode q"
    unfolding redirectLocation_def URL_String_plain [OF p(1) Encode_nonempty [OF assms(2)]] by simp
  show "Parse (redirectLocation ru q) = Inr (ru\<lparr>u_RawQuery := Values_Encode q\<rparr>)"
    unfolding redirectLocation_def by (rule Parse_with_query [OF p(1) assms(2)])
qed

lemma requestsFlow_state:
  assumes "requestsFlow param authURL uri st" and "Parse authURL = Inr target"
  shows "Values_Get (Query target) ''state'' = st"
  using assms by (auto simp: requestsFlow_def ParseQuery_def Query_def Values_Get_def split: if_splits)

end
