(* ===== verification/Mobileflow.thy ===== *)
theory Mobileflow
  imports Login Auth_Flow "HOL-Library.Multiset"
begin

text \<open>
  The mobile flow handler (\<open>mobileflow/mobileflow.go\<close>): validation of the target and
  redirect URIs, the matching of a delivered deep link against the waiting flow, the one-shot
  delivery, and the flow itself. Waiters live in a heap, since a flow keeps a pointer to its
  waiter after the handler has dropped it.
\<close>

section \<open>URI checks\<close>

definition singleNonEmptyValue :: "url_values \<Rightarrow> string \<Rightarrow> string option" where
  "singleNonEmptyValue query key =
     (let vs = valuesOf query key
      in if \<not> present query key \<or> length vs \<noteq> 1 \<or> vs ! 0 = '''' then None else Some (vs ! 0))"

definition singleState :: "url_values \<Rightarrow> string option" where
  "singleState query = singleNonEmptyValue query ''state''"

definition parseCallbackURI :: "string \<Rightarrow> url result" where
  "parseCallbackURI raw =
     (if trimSpace raw = '''' then Inl (OtherError ''callback URI must not be empty'')
      else case Parse raw of
        Inl _ \<Rightarrow> Inl (OtherError ''callback URI is malformed'')
      | Inr parsed \<Rightarrow>
          if u_Scheme parsed = '''' then Inl (OtherError ''callback URI must be absolute and include a scheme'')
          else if u_Opaque parsed \<noteq> '''' then Inl (OtherError ''callback URI must not use opaque URI syntax'')
          else if u_User parsed \<noteq> None then Inl (OtherError ''callback URI must not include user information'')
          else if u_Fragment parsed \<noteq> '''' then Inl (OtherError ''callback URI must not include a fragment'')
          else if (equalFold (u_Scheme parsed) ''http'' \<or> equalFold (u_Scheme parsed) ''https'') \<and>
                  u_Host parsed = ''''
          then Inl (OtherError ''http(s) callback URI must include a host'')
          else if u_Host parsed = '''' \<and> u_Path parsed = '''' \<and> u_Opaque parsed = ''''
          then Inl (OtherError ''callback URI must include a target'')
          else (case ParseQuery (u_RawQuery parsed) of
                  Inl _ \<Rightarrow> Inl (OtherError ''callback URI query is malformed'')
                | Inr _ \<Rightarrow> Inr parsed))"

definition hasExplicitEmptyPort :: "url \<Rightarrow> bool" where
  "hasExplicitEmptyPort uri \<longleftrightarrow> u_Host uri \<noteq> '''' \<and> hasSuffix (u_Host uri) '':''"

definition sameCallbackBase :: "url \<Rightarrow> url \<Rightarrow> bool" where
  "sameCallbackBase expected actual \<longleftrightarrow>
     \<not> (\<not> equalFold (u_Scheme expected) (u_Scheme actual) \<or>
        u_OmitHost expected \<noteq> u_OmitHost actual \<or>
        u_User expected \<noteq> None \<or> u_User actual \<noteq> None \<or>
        u_Fragment expected \<noteq> '''' \<or> u_Fragment actual \<noteq> '''' \<or>
        \<not> equalFold (Hostname expected) (Hostname actual) \<or>
        Port expected \<noteq> Port actual \<or>
        hasExplicitEmptyPort expected \<noteq> hasExplicitEmptyPort actual \<or>
        EscapedPath expected \<noteq> EscapedPath actual)"

definition hasAuthorizationResponse :: "url_values \<Rightarrow> bool" where
  "hasAuthorizationResponse query \<longleftrightarrow>
     length (valuesOf query ''code'') \<noteq> 0 \<or> length (valuesOf query ''error'') \<noteq> 0"

text \<open>The two counting loops: \<open>remaining\<close> is filled from the actual values and drawn down.\<close>

fun countValues :: "string list \<Rightarrow> (string \<Rightarrow> nat) \<Rightarrow> (string \<Rightarrow> nat)" where
  "countValues [] remaining = remaining"
| "countValues (v # vs) remaining = countValues vs (remaining(v := remaining v + 1))"

fun drawValues :: "string list \<Rightarrow> (string \<Rightarrow> nat) \<Rightarrow> bool" where
  "drawValues [] remaining = True"
| "drawValues (v # vs) remaining =
     (if remaining v = 0 then False else drawValues vs (remaining(v := remaining v - 1)))"

definition containsFixedQuery :: "url_values \<Rightarrow> url_values \<Rightarrow> bool" where
  "containsFixedQuery actual expected \<longleftrightarrow>
     list_all (\<lambda>key.
       let expectedValues = valuesOf expected key; actualValues = valuesOf actual key
       in present actual key \<and> length actualValues = length expectedValues \<and>
          drawValues expectedValues (countValues actualValues (\<lambda>_. 0)))
       (remdups (map fst expected))"

definition equalQueryValues :: "url_values \<Rightarrow> url_values \<Rightarrow> bool" where
  "equalQueryValues actual expected \<longleftrightarrow>
     length (remdups (map fst actual)) = length (remdups (map fst expected)) \<and>
     containsFixedQuery actual expected"

text \<open>The queries were checked by \<open>parseCallbackURI\<close>; the code ignores the errors here.\<close>

definition sameRedirectURI :: "url \<Rightarrow> url \<Rightarrow> bool" where
  "sameRedirectURI expected actual \<longleftrightarrow>
     (if \<not> sameCallbackBase expected actual then False
      else equalQueryValues (queryPairs (u_RawQuery actual)) (queryPairs (u_RawQuery expected)))"

definition sameCallbackTarget :: "url \<Rightarrow> url \<Rightarrow> url_values \<Rightarrow> bool" where
  "sameCallbackTarget expected actual actualQuery \<longleftrightarrow>
     (if \<not> sameCallbackBase expected actual then False
      else containsFixedQuery actualQuery (queryPairs (u_RawQuery expected)))"

section \<open>Waiters and the handler\<close>

record flowWaiter =
  w_redirectURI :: url
  w_state :: string
  w_allowMissingState :: bool
  w_delivery :: "string option"
  w_delivered :: bool

record mobileHandler =
  mh_redirectURI :: string
  mh_logoutRedirectURI :: string
  mh_active :: "nat option"
  mh_waiters :: "nat \<Rightarrow> flowWaiter option"
  mh_next :: nat

definition mobileNew :: "string \<Rightarrow> mobileHandler" where
  "mobileNew redirectURI =
     \<lparr>mh_redirectURI = redirectURI, mh_logoutRedirectURI = redirectURI, mh_active = None,
      mh_waiters = (\<lambda>_. None), mh_next = 0\<rparr>"

definition waiterMatches :: "flowWaiter \<Rightarrow> url \<Rightarrow> bool" where
  "waiterMatches w callback \<longleftrightarrow>
     (case ParseQuery (u_RawQuery callback) of
        Inl _ \<Rightarrow> False
      | Inr callbackQuery \<Rightarrow>
          if \<not> sameCallbackTarget (w_redirectURI w) callback callbackQuery then False
          else if \<not> present callbackQuery ''state''
          then w_allowMissingState w \<and> \<not> hasAuthorizationResponse callbackQuery
          else let states = valuesOf callbackQuery ''state''
               in if length states \<noteq> 1 \<or> states ! 0 = '''' then False
                  else constantTimeEqual (w_state w) (states ! 0))"

definition DeliverURL :: "string \<Rightarrow> mobileHandler \<Rightarrow> mobileHandler" where
  "DeliverURL callbackURL h =
     (case parseCallbackURI callbackURL of
        Inl _ \<Rightarrow> h
      | Inr callback \<Rightarrow>
          (case mh_active h of
             None \<Rightarrow> h
           | Some p \<Rightarrow>
               (case mh_waiters h p of
                  None \<Rightarrow> h
                | Some w \<Rightarrow>
                    if w_delivered w \<or> \<not> waiterMatches w callback then h
                    else if w_delivery w = None
                    then h\<lparr>mh_waiters := (mh_waiters h)(p \<mapsto>
                             w\<lparr>w_delivery := Some callbackURL, w_delivered := True\<rparr>)\<rparr>
                    else h)))"

definition SetLogoutURI :: "string \<Rightarrow> mobileHandler \<Rightarrow> goerror option \<times> mobileHandler" where
  "SetLogoutURI uri h =
     (case parseCallbackURI uri of
        Inl err \<Rightarrow> (Some (Errorf [Txt ''mobileflow: invalid logout URI: '', Wrapped err]), h)
      | Inr _ \<Rightarrow> (None, h\<lparr>mh_logoutRedirectURI := uri\<rparr>))"

definition mobileRegister :: "flowWaiter \<Rightarrow> mobileHandler \<Rightarrow> nat option \<times> mobileHandler" where
  "mobileRegister w h =
     (if mh_active h \<noteq> None then (None, h)
      else (Some (mh_next h),
            h\<lparr>mh_active := Some (mh_next h), mh_waiters := (mh_waiters h)(mh_next h \<mapsto> w),
              mh_next := mh_next h + 1\<rparr>))"

definition mobileUnregister :: "nat \<Rightarrow> mobileHandler \<Rightarrow> mobileHandler" where
  "mobileUnregister p h = (if mh_active h = Some p then h\<lparr>mh_active := None\<rparr> else h)"

section \<open>The flow\<close>

text \<open>The checks of \<open>runFlow\<close> up to the waiter it registers.\<close>

definition prepareFlow ::
  "string \<Rightarrow> string \<Rightarrow> string \<Rightarrow> string \<Rightarrow> bool \<Rightarrow> flowWaiter result" where
  "prepareFlow kind targetURL redirectURI redirectParam allowMissingState =
     (case Parse targetURL of
        Inl _ \<Rightarrow> Inl (OtherError (''mobileflow: invalid '' @ kind @ '' URL''))
      | Inr target \<Rightarrow>
          if \<not> IsAbs target \<or>
             (\<not> equalFold (u_Scheme target) ''http'' \<and> \<not> equalFold (u_Scheme target) ''https'') \<or>
             u_Host target = '''' \<or> u_User target \<noteq> None \<or> u_Fragment target \<noteq> ''''
          then Inl (OtherError (''mobileflow: invalid '' @ kind @ '' URL''))
          else (case ParseQuery (u_RawQuery target) of
            Inl _ \<Rightarrow> Inl (OtherError (''mobileflow: invalid '' @ kind @ '' URL query''))
          | Inr targetQuery \<Rightarrow>
              (case singleState targetQuery of
                 None \<Rightarrow> Inl (OtherError (''mobileflow: '' @ kind @
                                  '' URL must contain exactly one non-empty state''))
               | Some st \<Rightarrow>
                   (case parseCallbackURI redirectURI of
                      Inl _ \<Rightarrow> Inl (OtherError (''mobileflow: invalid '' @ kind @ '' redirect URI''))
                    | Inr callback \<Rightarrow>
                        (case singleNonEmptyValue targetQuery redirectParam of
                           None \<Rightarrow> Inl (OtherError (''mobileflow: '' @ kind @
                                     '' URL must contain exactly one non-empty '' @ redirectParam))
                         | Some requestedRedirect \<Rightarrow>
                             (case parseCallbackURI requestedRedirect of
                                Inl _ \<Rightarrow> Inl (OtherError (''mobileflow: '' @ kind @ '' URL '' @ redirectParam @
                                          '' does not match the configured redirect URI''))
                              | Inr requestedCallback \<Rightarrow>
                                  if \<not> sameRedirectURI callback requestedCallback
                                  then Inl (OtherError (''mobileflow: '' @ kind @ '' URL '' @ redirectParam @
                                              '' does not match the configured redirect URI''))
                                  else Inr \<lparr>w_redirectURI = callback, w_state = st,
                                            w_allowMissingState = allowMissingState,
                                            w_delivery = None, w_delivered = False\<rparr>))))))"

text \<open>
  The environment of a flow: the caller's context at entry, the opener's result, what the
  others do until the \<open>select\<close> and between cancellation and unregistering, and whether the
  context's case was taken. A flow whose context has not ended and that has no delivery is
  still waiting.
\<close>

record mobileEnv =
  me_ctxErr :: "ctx_err option"
  me_openURL :: "(string \<Rightarrow> goerror option) option"
  me_others :: "mobileHandler \<Rightarrow> mobileHandler"
  me_cancelled :: "ctx_err option"
  me_beforeUnregister :: "mobileHandler \<Rightarrow> mobileHandler"

definition waiterDelivery :: "nat \<Rightarrow> mobileHandler \<Rightarrow> string option" where
  "waiterDelivery p h = (case mh_waiters h p of None \<Rightarrow> None | Some w \<Rightarrow> w_delivery w)"

definition mobileRunFlow ::
  "mobileEnv \<Rightarrow> string \<Rightarrow> string \<Rightarrow> string \<Rightarrow> string \<Rightarrow> bool \<Rightarrow> mobileHandler \<Rightarrow>
   string result returned \<times> mobileHandler" where
  "mobileRunFlow env kind targetURL redirectURI redirectParam allowMissingState h =
     (case me_ctxErr env of
        Some e \<Rightarrow> (Some (Inl (CtxErr e)), h)
      | None \<Rightarrow>
          (case prepareFlow kind targetURL redirectURI redirectParam allowMissingState of
             Inl err \<Rightarrow> (Some (Inl err), h)
           | Inr waiter \<Rightarrow>
               (case mobileRegister waiter h of
                  (None, h) \<Rightarrow>
                    (Some (Inl (OtherError ''mobileflow: another browser flow is already in progress'')), h)
                | (Some p, h) \<Rightarrow>
                    (case me_openURL env of
                       None \<Rightarrow> (Some (Inl (OtherError ''mobileflow: URL opener is nil'')), mobileUnregister p h)
                     | Some openURL \<Rightarrow>
                         (case openURL targetURL of
                            Some err \<Rightarrow>
                              (Some (Inl (Errorf [Txt (''mobileflow: failed to open '' @ kind @ '' URL: ''),
                                                  Wrapped err])), mobileUnregister p h)
                          | None \<Rightarrow>
                              (let h = me_others env h
                               in case me_cancelled env of
                                    None \<Rightarrow>
                                      (case waiterDelivery p h of
                                         Some callbackURL \<Rightarrow> (Some (Inr callbackURL), mobileUnregister p h)
                                       | None \<Rightarrow> (None, h))
                                  | Some e \<Rightarrow>
                                      (let h = mobileUnregister p (me_beforeUnregister env h)
                                       in case waiterDelivery p h of
                                            Some callbackURL \<Rightarrow> (Some (Inr callbackURL), h)
                                          | None \<Rightarrow> (Some (Inl (CtxErr e)), h))))))))"

definition mobileStartAuthFlow ::
  "mobileEnv \<Rightarrow> string \<Rightarrow> mobileHandler \<Rightarrow> string result returned \<times> mobileHandler" where
  "mobileStartAuthFlow env authURL h =
     mobileRunFlow env ''auth'' authURL (mh_redirectURI h) ''redirect_uri'' False h"

definition mobileStartLogoutFlow ::
  "mobileEnv \<Rightarrow> string \<Rightarrow> mobileHandler \<Rightarrow> string result returned \<times> mobileHandler" where
  "mobileStartLogoutFlow env logoutURL h =
     mobileRunFlow env ''logout'' logoutURL (mh_logoutRedirectURI h) ''post_logout_redirect_uri'' True h"

section \<open>The fixed query as a multiset condition\<close>

lemma countValues_eq: "countValues vs remaining v = remaining v + count (mset vs) v"
  by (induction vs arbitrary: remaining) auto

lemma drawValues_iff: "drawValues vs remaining \<longleftrightarrow> (\<forall>v. count (mset vs) v \<le> remaining v)"
proof (induction vs arbitrary: remaining)
  case (Cons x vs)
  have "(\<forall>v. count (mset vs) v \<le> (remaining(x := remaining x - 1)) v) \<longleftrightarrow>
      (\<forall>v. count (mset (x # vs)) v \<le> remaining v)" if "remaining x \<noteq> 0"
    using that by (auto simp: all_conj_distrib)
  then show ?case using Cons.IH by (cases "remaining x = 0") (auto intro!: exI [of _ x])
qed simp

lemma drawValues_countValues:
  "length actual = length expected \<Longrightarrow>
   drawValues expected (countValues actual (\<lambda>_. 0)) \<longleftrightarrow> mset expected = mset actual"
proof -
  assume len: "length actual = length expected"
  have "drawValues expected (countValues actual (\<lambda>_. 0)) \<longleftrightarrow> mset expected \<subseteq># mset actual"
    by (simp add: drawValues_iff countValues_eq subseteq_mset_def)
  also have "\<dots> \<longleftrightarrow> mset expected = mset actual"
    using len by (auto simp: subset_mset.le_less dest!: mset_subset_size)
  finally show ?thesis .
qed

lemma present_iff: "present q k \<longleftrightarrow> valuesOf q k \<noteq> []"
  by (force simp: present_def valuesOf_def filter_empty_conv)

text \<open>
  The comparison of a callback with the registered query is a comparison of multisets:
  the callback may carry further keys, but under every key the redirect URI fixes it has
  the same values with the same multiplicities, in any order; two redirect URIs have equal
  queries exactly when this holds for every key.
\<close>

lemma fixed_query_multiset:
  "(containsFixedQuery actual expected \<longleftrightarrow>
      (\<forall>k. present expected k \<longrightarrow> mset (valuesOf actual k) = mset (valuesOf expected k))) \<and>
   (equalQueryValues actual expected \<longleftrightarrow>
      (\<forall>k. mset (valuesOf actual k) = mset (valuesOf expected k)))"
proof -
  have one: "(present actual k \<and> length (valuesOf actual k) = length (valuesOf expected k) \<and>
      drawValues (valuesOf expected k) (countValues (valuesOf actual k) (\<lambda>_. 0))) \<longleftrightarrow>
      mset (valuesOf actual k) = mset (valuesOf expected k)" if "present expected k" for k
  proof (cases "length (valuesOf actual k) = length (valuesOf expected k)")
    case True
    then have "present actual k" using that present_iff by (metis length_0_conv)
    with True show ?thesis by (auto simp: drawValues_countValues)
  next
    case False
    then show ?thesis by (metis size_mset)
  qed
  have fixed: "containsFixedQuery actual expected \<longleftrightarrow>
      (\<forall>k. present expected k \<longrightarrow> mset (valuesOf actual k) = mset (valuesOf expected k))"
    using one by (auto simp: containsFixedQuery_def list_all_iff Let_def present_def)
  let ?A = "fst ` set actual" and ?E = "fst ` set expected"
  have lens: "length (remdups (map fst q)) = card (fst ` set q)" for q :: url_values
    by (simp add: length_remdups_card_conv)
  have "equalQueryValues actual expected \<longleftrightarrow>
      (\<forall>k. mset (valuesOf actual k) = mset (valuesOf expected k))"
  proof
    assume eq: "equalQueryValues actual expected"
    then have cf: "\<forall>k. present expected k \<longrightarrow> mset (valuesOf actual k) = mset (valuesOf expected k)"
      and card: "card ?A = card ?E"
      using fixed lens by (auto simp: equalQueryValues_def)
    have "?E \<subseteq> ?A" using cf present_iff by (force simp: present_def)
    with card have "?A = ?E" by (metis List.finite_set card_subset_eq finite_imageI)
    then show "\<forall>k. mset (valuesOf actual k) = mset (valuesOf expected k)"
      using cf present_iff by (metis present_def)
  next
    assume all: "\<forall>k. mset (valuesOf actual k) = mset (valuesOf expected k)"
    then have "?A = ?E" using present_iff by (metis mset_zero_iff present_def subsetI subset_antisym)
    with all fixed lens show "equalQueryValues actual expected" by (simp add: equalQueryValues_def)
  qed
  with fixed show ?thesis by blast
qed

section \<open>Delivery\<close>

text \<open>Whether a delivered URL would be accepted by a waiter that has nothing yet.\<close>

definition acceptable :: "flowWaiter \<Rightarrow> string \<Rightarrow> bool" where
  "acceptable w url \<longleftrightarrow>
     (case parseCallbackURI url of Inl _ \<Rightarrow> False | Inr callback \<Rightarrow> waiterMatches w callback)"

definition fresh_waiter :: "flowWaiter \<Rightarrow> bool" where
  "fresh_waiter w \<longleftrightarrow> w_delivery w = None \<and> \<not> w_delivered w"

lemma DeliverURL_fresh:
  assumes "mh_active h = Some p" and "mh_waiters h p = Some w" and "fresh_waiter w"
  shows "DeliverURL url h =
    (if acceptable w url
     then h\<lparr>mh_waiters := (mh_waiters h)(p \<mapsto> w\<lparr>w_delivery := Some url, w_delivered := True\<rparr>)\<rparr> else h)"
  using assms by (simp add: DeliverURL_def acceptable_def fresh_waiter_def split: sum.split)

lemma DeliverURL_delivered:
  assumes "mh_active h = Some p" and "mh_waiters h p = Some w" and "w_delivered w"
  shows "DeliverURL url h = h"
  using assms by (simp add: DeliverURL_def split: sum.split)

lemma deliver_all_delivered:
  assumes "mh_active h = Some p" and "mh_waiters h p = Some w" and "w_delivered w"
  shows "fold DeliverURL urls h = h"
  by (induction urls) (simp_all add: DeliverURL_delivered [OF assms])

lemma deliver_fold:
  assumes "mh_active h = Some p" and "mh_waiters h p = Some w" and "fresh_waiter w"
  shows "waiterDelivery p (fold DeliverURL urls h) = find (acceptable w) urls \<and>
         mh_active (fold DeliverURL urls h) = Some p \<and>
         (find (acceptable w) urls = None \<longrightarrow> fold DeliverURL urls h = h)"
proof (induction urls)
  case Nil
  show ?case using assms by (simp add: waiterDelivery_def fresh_waiter_def)
next
  case (Cons url urls)
  let ?w = "w\<lparr>w_delivery := Some url, w_delivered := True\<rparr>"
  let ?h = "h\<lparr>mh_waiters := (mh_waiters h)(p \<mapsto> ?w)\<rparr>"
  have "fold DeliverURL urls ?h = ?h"
    by (rule deliver_all_delivered [of _ p ?w]) (simp_all add: assms)
  with Cons.IH assms(1) show ?case by (simp add: DeliverURL_fresh [OF assms] waiterDelivery_def)
qed

text \<open>
  Of all the URLs handed to the handler while a flow waits, exactly the first one that
  matches the flow is delivered to it, and only once; every other URL, before or after it,
  changes nothing. Without a flow nothing changes at all.
\<close>

lemma first_match_delivered:
  assumes "mh_active h = Some p" and "mh_waiters h p = Some w" and "fresh_waiter w"
  shows "waiterDelivery p (fold DeliverURL urls h) = find (acceptable w) urls \<and>
         mh_active (fold DeliverURL urls h) = Some p \<and>
         (find (acceptable w) urls = None \<longrightarrow> fold DeliverURL urls h = h) \<and>
         fold DeliverURL urls (h\<lparr>mh_active := None\<rparr>) = h\<lparr>mh_active := None\<rparr>"
proof -
  have idle: "DeliverURL url (h\<lparr>mh_active := None\<rparr>) = h\<lparr>mh_active := None\<rparr>" for url
    by (simp add: DeliverURL_def split: sum.split)
  have "fold DeliverURL urls (h\<lparr>mh_active := None\<rparr>) = h\<lparr>mh_active := None\<rparr>"
    by (induction urls) (simp_all add: idle)
  with deliver_fold [OF assms] show ?thesis by blast
qed

definition sampleWaiter :: flowWaiter where
  "sampleWaiter =
     \<lparr>w_redirectURI = emptyURL\<lparr>u_Scheme := ''https'', u_Host := ''app.example'', u_Path := ''/cb''\<rparr>,
      w_state = ''s1'', w_allowMissingState = False, w_delivery = None, w_delivered = False\<rparr>"

definition sampleMobile :: mobileHandler where
  "sampleMobile = snd (mobileRegister sampleWaiter (mobileNew ''https://app.example/cb''))"

section \<open>Flow results\<close>

lemma acceptable_state:
  assumes "acceptable w url" and "\<not> w_allowMissingState w"
  shows "\<exists>callback query. Parse url = Inr callback \<and> ParseQuery (u_RawQuery callback) = Inr query \<and>
           valuesOf query ''state'' = [w_state w] \<and> sameCallbackBase (w_redirectURI w) callback"
proof -
  from assms obtain callback query where cb: "parseCallbackURI url = Inr callback"
      "ParseQuery (u_RawQuery callback) = Inr query"
    and m: "sameCallbackTarget (w_redirectURI w) callback query" "length (valuesOf query ''state'') = 1"
      "valuesOf query ''state'' ! 0 = w_state w"
    by (auto simp: acceptable_def waiterMatches_def Let_def split: sum.splits if_splits)
  have "Parse url = Inr callback"
    using cb(1) by (auto simp: parseCallbackURI_def split: if_splits sum.splits)
  moreover have "valuesOf query ''state'' = [w_state w]" using m(2,3) length1_eq by metis
  ultimately show ?thesis using cb(2) m(1) by (auto simp: sameCallbackTarget_def split: if_splits)
qed

lemma prepareFlow_Inr:
  assumes "prepareFlow kind targetURL redirectURI param allow = Inr w"
  shows "fresh_waiter w" and "w_allowMissingState w = allow"
    and "\<exists>target query. Parse targetURL = Inr target \<and> ParseQuery (u_RawQuery target) = Inr query \<and>
           singleState query = Some (w_state w)"
  using assms
  by (auto simp: prepareFlow_def fresh_waiter_def split: sum.splits option.splits if_splits)

lemma deliver_then_unregister:
  assumes "mobileRegister w h = (Some p, h1)" and "fresh_waiter w"
  shows "waiterDelivery p (mobileUnregister p (fold DeliverURL urls h1)) = find (acceptable w) urls"
    and "mh_active (mobileUnregister p (fold DeliverURL urls h1)) = None"
proof -
  have "mh_active h1 = Some p" "mh_waiters h1 p = Some w"
    using assms(1) by (auto simp: mobileRegister_def split: if_splits)
  from deliver_fold [OF this assms(2), of urls]
  show "waiterDelivery p (mobileUnregister p (fold DeliverURL urls h1)) = find (acceptable w) urls"
    "mh_active (mobileUnregister p (fold DeliverURL urls h1)) = None"
    by (simp_all add: mobileUnregister_def waiterDelivery_def)
qed


definition sampleMobileEnv :: mobileEnv where
  "sampleMobileEnv =
     \<lparr>me_ctxErr = None, me_openURL = Some (\<lambda>_. None),
      me_others = fold DeliverURL [''https://evil.example/cb?code=x&state=s1''],
      me_cancelled = Some DeadlineExceeded,
      me_beforeUnregister = fold DeliverURL [''https://app.example/cb?code=c&state=s1'']\<rparr>"


section \<open>The handler delivers callbacks\<close>

definition deliveryEnv :: "string \<Rightarrow> mobileEnv" where
  "deliveryEnv location =
     \<lparr>me_ctxErr = None, me_openURL = Some (\<lambda>_. None), me_others = DeliverURL location,
      me_cancelled = None, me_beforeUnregister = id\<rparr>"

definition mobileAuth :: "mobileHandler \<Rightarrow> string \<Rightarrow> string \<Rightarrow> string result returned" where
  "mobileAuth h authURL location = fst (mobileStartAuthFlow (deliveryEnv location) authURL h)"

definition mobileLogout :: "mobileHandler \<Rightarrow> string \<Rightarrow> string \<Rightarrow> string result returned" where
  "mobileLogout h logoutURL location = fst (mobileStartLogoutFlow (deliveryEnv location) logoutURL h)"

lemma trimSpace_nonempty:
  assumes "ch \<in> set s" and "\<not> isSpace ch" shows "trimSpace s \<noteq> ''''"
proof -
  have "dropWhile isSpace s \<noteq> []" using assms by (auto simp: dropWhile_eq_Nil_conv)
  then have "hd (dropWhile isSpace s) \<in> set (dropWhile isSpace s) \<and> \<not> isSpace (hd (dropWhile isSpace s))"
    by (simp add: hd_dropWhile)
  then have "dropWhile isSpace (rev (dropWhile isSpace s)) \<noteq> []"
    unfolding dropWhile_eq_Nil_conv set_rev by blast
  then show ?thesis by (simp add: trimSpace_def)
qed

lemma parseCallbackURI_plain:
  assumes "Parse raw = Inr u" and "plainURL u" and "CHR '':'' \<in> set raw" and "ParseQuery (u_RawQuery u) = Inr q"
  shows "parseCallbackURI raw = Inr u"
proof -
  have "\<not> isSpace (CHR '':'')" by code_simp
  from trimSpace_nonempty [OF assms(3) this] assms(1,2,4) show ?thesis
    by (simp add: parseCallbackURI_def plainURL_def validScheme_def plainHost_def)
qed

lemma sameCallbackBase_plain: "plainURL u \<Longrightarrow> sameCallbackBase u (u\<lparr>u_RawQuery := q\<rparr>)"
  by (simp add: sameCallbackBase_def plainURL_def Hostname_def Port_def hasExplicitEmptyPort_def EscapedPath_def equalFold_def)

lemma plainRedirect_callback:
  assumes "plainRedirect uri ru"
  shows "parseCallbackURI uri = Inr ru" and "sameRedirectURI ru ru"
    and "q \<noteq> [] \<Longrightarrow> parseCallbackURI (redirectLocation ru q) = Inr (ru\<lparr>u_RawQuery := Values_Encode q\<rparr>)"
proof -
  have p: "Parse uri = Inr ru" "plainURL ru" "u_RawQuery ru = ''''" "URL_String ru = uri"
    using assms by (simp_all add: plainRedirect_def)
  have bare: "ru\<lparr>u_RawQuery := ''''\<rparr> = ru" using p(3) by simp
  have colon: "CHR '':'' \<in> set uri" using URL_String_plain_any [OF p(2), of "''''"] p(4) bare by auto
  have q: "queryPairs '''' = []" "ParseQuery '''' = Inr []"
    by (simp_all add: queryPairs_def ParseQuery_def parsePair_def)
  show "parseCallbackURI uri = Inr ru" by (rule parseCallbackURI_plain [OF p(1,2) colon]) (simp add: p(3) q)
  show "sameRedirectURI ru ru"
    using sameCallbackBase_plain [OF p(2), of "''''", unfolded bare] p(3) q(1)
    by (simp add: sameRedirectURI_def equalQueryValues_def containsFixedQuery_def)
  assume "q \<noteq> []"
  note loc = plainRedirect_text [OF assms this]
  have plain: "plainURL (ru\<lparr>u_RawQuery := Values_Encode q\<rparr>)" using p(2) by (simp add: plainURL_def)
  have "ParseQuery (u_RawQuery (ru\<lparr>u_RawQuery := Values_Encode q\<rparr>)) = Inr (encodeOrder q)"
    by (simp add: ParseQuery_Encode)
  from parseCallbackURI_plain [OF loc(2) plain _ this] colon loc(1)
  show "parseCallbackURI (redirectLocation ru q) = Inr (ru\<lparr>u_RawQuery := Values_Encode q\<rparr>)" by simp
qed

lemma prepareFlow_plain:
  assumes "plainRedirect uri ru" and "requestsFlow param targetURL uri st" and "st \<noteq> ''''"
  shows "prepareFlow kind targetURL uri param missing =
    Inr \<lparr>w_redirectURI = ru, w_state = st, w_allowMissingState = missing, w_delivery = None, w_delivered = False\<rparr>"
proof -
  note cb = plainRedirect_callback(1,2) [OF assms(1)]
  have "uri \<noteq> ''''" using cb(1) by (auto simp: parseCallbackURI_def trimSpace_def)
  obtain target tq where t: "Parse targetURL = Inr target" "ParseQuery (u_RawQuery target) = Inr tq"
      "u_Scheme target \<in> {''http'', ''https''}" "u_Host target \<noteq> ''''" "u_User target = None" "u_Fragment target = ''''"
      "valuesOf tq ''state'' = [st]" "valuesOf tq param = [uri]"
    using assms(2) by (auto simp: requestsFlow_def split: sum.splits)
  have "singleState tq = Some st" "singleNonEmptyValue tq param = Some uri"
    using t(7,8) assms(3) \<open>uri \<noteq> ''''\<close> by (simp_all add: singleState_def singleNonEmptyValue_def present_iff)
  moreover have "IsAbs target" "equalFold (u_Scheme target) ''http'' \<or> equalFold (u_Scheme target) ''https''"
    using t(3) by (auto simp: IsAbs_def)
  ultimately show ?thesis
    using t(1,2,4,5,6) cb by (simp add: prepareFlow_def)
qed

lemma waiterMatches_plain:
  assumes "plainRedirect uri ru" and "q \<noteq> []" and "valuesOf q ''state'' = [st]" and "st \<noteq> ''''"
    and "w_redirectURI w = ru" and "w_state w = st"
  shows "waiterMatches w (ru\<lparr>u_RawQuery := Values_Encode q\<rparr>)"
proof -
  have p: "plainURL ru" "u_RawQuery ru = ''''" using assms(1) by (simp_all add: plainRedirect_def)
  have "queryPairs '''' = []" by (simp add: queryPairs_def parsePair_def)
  then have "sameCallbackTarget ru (ru\<lparr>u_RawQuery := Values_Encode q\<rparr>) (encodeOrder q)"
    using sameCallbackBase_plain [OF p(1)] p(2) by (simp add: sameCallbackTarget_def containsFixedQuery_def)
  moreover have "valuesOf (encodeOrder q) ''state'' = [st]" using assms(3) by simp
  moreover from this have "present (encodeOrder q) ''state''" by (simp add: present_iff)
  ultimately show ?thesis
    using assms(4,5,6) by (simp add: waiterMatches_def ParseQuery_Encode)
qed

lemma mobileRunFlow_delivers:
  assumes "mh_active h = None" and "requestsFlow param targetURL uri st" and "st \<noteq> ''''" and "plainRedirect uri ru"
    and "q \<noteq> []" and "valuesOf q ''state'' = [st]"
  shows "fst (mobileRunFlow (deliveryEnv (redirectLocation ru q)) kind targetURL uri param missing h) =
           Some (Inr (redirectLocation ru q))"
proof -
  let ?w = "\<lparr>w_redirectURI = ru, w_state = st, w_allowMissingState = missing, w_delivery = None, w_delivered = False\<rparr>"
  have "waiterMatches ?w (ru\<lparr>u_RawQuery := Values_Encode q\<rparr>)"
    by (rule waiterMatches_plain [OF assms(4,5,6,3)]) simp_all
  then show ?thesis
    using assms(1) prepareFlow_plain [OF assms(4,2,3), of kind missing] plainRedirect_callback(3) [OF assms(4,5)]
    by (simp add: mobileRunFlow_def deliveryEnv_def mobileRegister_def DeliverURL_def waiterDelivery_def Let_def)
qed

text \<open>The handler of \<open>New\<close>, after \<open>SetLogoutURI\<close>, implements both interfaces.\<close>

definition mobileHandlerFor :: "string \<Rightarrow> string \<Rightarrow> mobileHandler" where
  "mobileHandlerFor uri luri = snd (SetLogoutURI luri (mobileNew uri))"

interpretation mobile: logout_flow "mobileAuth (mobileHandlerFor uri luri)" uri "\<lambda>_. True"
  "mobileLogout (mobileHandlerFor uri luri)" luri for uri luri
proof
  have h: "mh_active (mobileHandlerFor uri luri) = None" "mh_redirectURI (mobileHandlerFor uri luri) = uri"
    by (simp_all add: mobileHandlerFor_def SetLogoutURI_def mobileNew_def split: sum.split)
  fix st ru q
  assume st: "st \<noteq> ''''" "q \<noteq> []" "valuesOf q ''state'' = [st]"
  { fix authURL
    assume "requestsFlow ''redirect_uri'' authURL uri st" "plainRedirect uri ru"
    then show "mobileAuth (mobileHandlerFor uri luri) authURL (redirectLocation ru q) = Some (Inr (redirectLocation ru q))"
      using mobileRunFlow_delivers [OF h(1) _ st(1) _ st(2,3)] h(2) by (simp add: mobileAuth_def mobileStartAuthFlow_def)
  }
  { fix logoutURL
    assume "requestsFlow ''post_logout_redirect_uri'' logoutURL luri st" and plain: "plainRedirect luri ru"
    moreover have "mh_logoutRedirectURI (mobileHandlerFor uri luri) = luri"
      using plainRedirect_callback(1) [OF plain] by (simp add: mobileHandlerFor_def SetLogoutURI_def)
    ultimately show "mobileLogout (mobileHandlerFor uri luri) logoutURL (redirectLocation ru q) =
        Some (Inr (redirectLocation ru q))"
      using mobileRunFlow_delivers [OF h(1) _ st(1) _ st(2,3)] by (simp add: mobileLogout_def mobileStartLogoutFlow_def)
  }
qed

end
