(* ===== verification/Go_Http.thy ===== *)
theory Go_Http
  imports Go_Url Claims
begin

text \<open>
  The part of \<open>net/http\<close> the program relies on (Go 1.25): headers, the form of a received
  request with the caching \<open>ParseForm\<close> does, and response writers with \<open>Error\<close> and
  \<open>Redirect\<close>. Header names are written in their canonical form. A body is the list of what
  was written to it: text, or a document still to be encoded.
\<close>

section \<open>Headers\<close>

type_synonym header = "string \<Rightarrow> string list option"

definition Header_Get :: "header \<Rightarrow> string \<Rightarrow> string" where
  "Header_Get h k = (case h k of Some (v # _) \<Rightarrow> v | _ \<Rightarrow> '''')"

definition Header_Set :: "header \<Rightarrow> string \<Rightarrow> string \<Rightarrow> header" where
  "Header_Set h k v = h(k \<mapsto> [v])"

definition Header_Del :: "header \<Rightarrow> string \<Rightarrow> header" where
  "Header_Del h k = h(k := None)"

section \<open>Received requests\<close>

text \<open>
  \<open>sr_formBody\<close> is the body of a request whose content type is
  \<open>application/x-www-form-urlencoded\<close>; any other body leaves the form empty. \<open>sr_Form\<close> and
  \<open>sr_PostForm\<close> are nil until \<open>ParseForm\<close> has run. \<open>sr_basicAuth\<close> is what \<open>BasicAuth\<close> reads from
  the Authorization header.
\<close>

record serverRequest =
  sr_Method :: string
  sr_URL :: url
  sr_formBody :: "string option"
  sr_basicAuth :: "(string \<times> string) option"
  sr_Form :: "url_values option"
  sr_PostForm :: "url_values option"

definition receivedRequest ::
  "string \<Rightarrow> url \<Rightarrow> string option \<Rightarrow> (string \<times> string) option \<Rightarrow> serverRequest" where
  "receivedRequest meth u body basic =
     \<lparr>sr_Method = meth, sr_URL = u, sr_formBody = body, sr_basicAuth = basic, sr_Form = None,
      sr_PostForm = None\<rparr>"

text \<open>\<open>url.ParseQuery\<close> returns the pairs it could read together with its error.\<close>

definition queryError :: "string \<Rightarrow> goerror option" where
  "queryError query = (case ParseQuery query of Inl err \<Rightarrow> Some err | Inr _ \<Rightarrow> None)"

definition parsePostForm :: "serverRequest \<Rightarrow> url_values \<times> goerror option" where
  "parsePostForm r =
     (case sr_formBody r of
        None \<Rightarrow> ([], None)
      | Some body \<Rightarrow> (queryPairs body, queryError body))"

text \<open>
  \<open>ParseForm\<close> only parses what is not there yet, so a second call returns nil whatever the
  first one found.
\<close>

definition ParseForm :: "serverRequest \<Rightarrow> goerror option \<times> serverRequest" where
  "ParseForm r =
     (let (postForm, err) =
            (case sr_PostForm r of
               Some pf \<Rightarrow> (pf, None)
             | None \<Rightarrow> if sr_Method r \<in> {''POST'', ''PUT'', ''PATCH''} then parsePostForm r else ([], None));
          (form, err) =
            (case sr_Form r of
               Some f \<Rightarrow> (f, err)
             | None \<Rightarrow> (postForm @ Query (sr_URL r),
                        if err = None then queryError (u_RawQuery (sr_URL r)) else err))
      in (err, r\<lparr>sr_PostForm := Some postForm, sr_Form := Some form\<rparr>))"

definition requestForm :: "serverRequest \<Rightarrow> url_values" where
  "requestForm r = (case sr_Form r of Some f \<Rightarrow> f | None \<Rightarrow> [])"

definition FormValue :: "serverRequest \<Rightarrow> string \<Rightarrow> string" where
  "FormValue r k =
     Values_Get (requestForm (if sr_Form r = None then snd (ParseForm r) else r)) k"

section \<open>Response writers\<close>

text \<open>
  \<open>rw_sent\<close> is the status line with the header as it was when the status was written; the
  first write sends status 200. Status codes are final ones (200 and up): the codes below are
  informational responses or make \<open>WriteHeader\<close> panic.
\<close>

datatype 'k bodyPart = Text string | Json json | KeySet 'k

record 'k respWriter =
  rw_header :: header
  rw_sent :: "(int \<times> header) option"
  rw_body :: "'k bodyPart list"

definition newResponse :: "'k respWriter" where
  "newResponse = \<lparr>rw_header = (\<lambda>_. None), rw_sent = None, rw_body = []\<rparr>"

definition setHeader :: "string \<Rightarrow> string \<Rightarrow> 'k respWriter \<Rightarrow> 'k respWriter" where
  "setHeader k v w = w\<lparr>rw_header := Header_Set (rw_header w) k v\<rparr>"

definition delHeader :: "string \<Rightarrow> 'k respWriter \<Rightarrow> 'k respWriter" where
  "delHeader k w = w\<lparr>rw_header := Header_Del (rw_header w) k\<rparr>"

definition WriteHeader :: "int \<Rightarrow> 'k respWriter \<Rightarrow> 'k respWriter" where
  "WriteHeader code w =
     (if rw_sent w = None then w\<lparr>rw_sent := Some (code, rw_header w)\<rparr> else w)"

definition writeBody :: "'k bodyPart \<Rightarrow> 'k respWriter \<Rightarrow> 'k respWriter" where
  "writeBody part w =
     (let w = WriteHeader 200 w in w\<lparr>rw_body := rw_body w @ [part]\<rparr>)"

text \<open>What the client sees when the handler has returned.\<close>

definition respStatus :: "'k respWriter \<Rightarrow> int" where
  "respStatus w = (case rw_sent w of None \<Rightarrow> 200 | Some (code, _) \<Rightarrow> code)"

definition respHeader :: "'k respWriter \<Rightarrow> header" where
  "respHeader w = (case rw_sent w of None \<Rightarrow> rw_header w | Some (_, h) \<Rightarrow> h)"

definition respLocation :: "'k respWriter \<Rightarrow> string" where
  "respLocation w = Header_Get (respHeader w) ''Location''"

definition http_Error :: "string \<Rightarrow> int \<Rightarrow> 'k respWriter \<Rightarrow> 'k respWriter" where
  "http_Error msg code w =
     (let w = delHeader ''Content-Length'' w;
          w = setHeader ''Content-Type'' ''text/plain; charset=utf-8'' w;
          w = setHeader ''X-Content-Type-Options'' ''nosniff'' w;
          w = WriteHeader code w
      in writeBody (Text (msg @ [CHR 0x0A])) w)"

subsection \<open>Redirects\<close>

text \<open>\<open>path.Clean\<close> of a rooted path, by its elements, innermost first.\<close>

fun cleanElems :: "string list \<Rightarrow> string list \<Rightarrow> string list" where
  "cleanElems acc [] = rev acc"
| "cleanElems acc (e # es) =
     (if e = '''' \<or> e = ''.'' then cleanElems acc es
      else if e = ''..'' then cleanElems (tl acc) es
      else cleanElems (e # acc) es)"

definition cleanRooted :: "string \<Rightarrow> string" where
  "cleanRooted p = ''/'' @ joinWith ''/'' (cleanElems [] (splitOn (CHR ''/'') p))"

text \<open>The directory part of a path, with its slash (\<open>path.Split\<close>).\<close>

definition pathDir :: "string \<Rightarrow> string" where
  "pathDir p = rev (dropWhile (\<lambda>ch. ch \<noteq> CHR ''/'') (rev p))"

text \<open>A target without scheme and host is made absolute with the path of the request.\<close>

definition redirectTarget :: "string \<Rightarrow> string \<Rightarrow> string" where
  "redirectTarget requestPath target =
     (case Parse target of
        Inl _ \<Rightarrow> target
      | Inr u \<Rightarrow>
          if u_Scheme u \<noteq> '''' \<or> u_Host u \<noteq> '''' then target
          else let oldpath = (if requestPath = '''' then ''/'' else requestPath);
                   target = (if target = '''' \<or> hd target \<noteq> CHR ''/'' then pathDir oldpath @ target else target);
                   path = takeWhile (\<lambda>ch. ch \<noteq> CHR ''?'') target;
                   query = dropWhile (\<lambda>ch. ch \<noteq> CHR ''?'') target;
                   cleaned = cleanRooted path
               in (if hasSuffix path ''/'' \<and> \<not> hasSuffix cleaned ''/'' then cleaned @ ''/'' else cleaned) @ query)"

definition lowerhex :: "nat \<Rightarrow> char" where
  "lowerhex n = ''0123456789abcdef'' ! n"

definition hexEscapeNonASCII :: "string \<Rightarrow> string" where
  "hexEscapeNonASCII s =
     concat (map (\<lambda>ch. if byteOf ch < 128 then [ch]
                       else [CHR ''%'', lowerhex (byteOf ch div 16), lowerhex (byteOf ch mod 16)]) s)"

text \<open>The HTML text of a redirect is written as one part; no code reads it.\<close>

definition http_Redirect :: "serverRequest \<Rightarrow> string \<Rightarrow> int \<Rightarrow> 'k respWriter \<Rightarrow> 'k respWriter" where
  "http_Redirect r target code w =
     (let target = redirectTarget (u_Path (sr_URL r)) target;
          hadCT = (rw_header w ''Content-Type'' \<noteq> None);
          w = setHeader ''Location'' (hexEscapeNonASCII target) w;
          w = (if \<not> hadCT \<and> sr_Method r \<in> {''GET'', ''HEAD''}
               then setHeader ''Content-Type'' ''text/html; charset=utf-8'' w else w);
          w = WriteHeader code w
      in if \<not> hadCT \<and> sr_Method r = ''GET'' then writeBody (Text target) w else w)"

subsection \<open>The request multiplexer\<close>

text \<open>
  \<open>ServeMux\<close> sends a request whose escaped path is not clean to the clean one; the handler of
  \<open>/\<close> gets the path and the query that a browser ends up with. A browser asks for \<open>/\<close> where the
  URL has no path.
\<close>

definition muxCleanPath :: "string \<Rightarrow> string" where
  "muxCleanPath p =
     (let p = (if hasPrefix p ''/'' then p else ''/'' @ p); np = cleanRooted p
      in if hasSuffix p ''/'' \<and> np \<noteq> ''/'' then np @ ''/'' else np)"

definition muxKeeps :: "url \<Rightarrow> bool" where
  "muxKeeps u \<longleftrightarrow> u_Path u = '''' \<or> muxCleanPath (EscapedPath u) = EscapedPath u"

definition muxRequest :: "url \<Rightarrow> string \<times> string" where
  "muxRequest u =
     (if u_Path u = '''' then ''/'' else if muxKeeps u then u_Path u else muxCleanPath (EscapedPath u),
      u_RawQuery u)"

section \<open>Lemmas\<close>

lemma muxKeeps_query [simp]: "muxKeeps (u\<lparr>u_RawQuery := q\<rparr>) = muxKeeps u"
proof -
  have "EscapedPath (u\<lparr>u_RawQuery := q\<rparr>) = EscapedPath u" by (simp add: EscapedPath_def)
  then show ?thesis by (simp add: muxKeeps_def)
qed

lemma ParseForm_idem:
  "ParseForm (snd (ParseForm r)) = (None, snd (ParseForm r))"
  by (simp add: ParseForm_def Let_def case_prod_beta split: option.splits)

lemma ParseForm_frame [simp]:
  "sr_Method (snd (ParseForm r)) = sr_Method r" "sr_URL (snd (ParseForm r)) = sr_URL r"
  "sr_basicAuth (snd (ParseForm r)) = sr_basicAuth r"
  "sr_Form (snd (ParseForm r)) \<noteq> None"
  by (simp_all add: ParseForm_def Let_def case_prod_beta split: option.splits)

lemma FormValue_ParseForm: "FormValue (snd (ParseForm r)) k = FormValue r k"
proof (cases "sr_Form r")
  case None
  then show ?thesis by (simp add: FormValue_def)
next
  case (Some f)
  have "sr_Form (snd (ParseForm r)) = Some f"
    using Some by (simp add: ParseForm_def Let_def case_prod_beta split: option.splits)
  with Some show ?thesis by (simp add: FormValue_def requestForm_def)
qed

lemma redirectTarget_absolute:
  "Parse target = Inr u \<Longrightarrow> u_Scheme u \<noteq> '''' \<or> u_Host u \<noteq> '''' \<Longrightarrow> redirectTarget p target = target"
  by (auto simp: redirectTarget_def)

lemma hexEscapeNonASCII_id:
  "list_all (\<lambda>ch. byteOf ch < 128) s \<Longrightarrow> hexEscapeNonASCII s = s"
  by (induction s) (simp_all add: hexEscapeNonASCII_def)

lemma resp_newResponse [simp]:
  "rw_header newResponse = (\<lambda>_. None)" "rw_sent newResponse = None" "rw_body newResponse = []"
  by (simp_all add: newResponse_def)

lemma http_Redirect_new:
  assumes "sr_Method r = ''GET''"
  shows "respStatus (http_Redirect r target code newResponse) = code"
    and "respLocation (http_Redirect r target code newResponse) =
           hexEscapeNonASCII (redirectTarget (u_Path (sr_URL r)) target)"
  using assms
  by (simp_all add: http_Redirect_def respStatus_def respLocation_def respHeader_def WriteHeader_def
      writeBody_def setHeader_def Header_Set_def Header_Get_def Let_def)

lemma http_Error_new:
  "respStatus (http_Error msg code newResponse) = code"
  "respLocation (http_Error msg code newResponse) = ''''"
  by (simp_all add: http_Error_def respStatus_def respLocation_def respHeader_def WriteHeader_def
      writeBody_def setHeader_def delHeader_def Header_Set_def Header_Del_def Header_Get_def Let_def)

end
