(* ===== verification/Desktopflow.thy ===== *)
theory Desktopflow
  imports Login Go_Http Auth_Flow "HOL-Library.AList"
begin

text \<open>
  The desktop flow handler (\<open>desktopflow/desktopflow.go\<close>): loopback checks on redirect URIs,
  the shared callback broker with its lazily opened and delayed closed server, the routing
  of a request to the flow that waits for it, and the flow itself. Binding an address and
  opening the browser are parameters; HTML pages are strings.
\<close>

section \<open>IP addresses\<close>

text \<open>
  \<open>net.ParseIP\<close> and \<open>IP.IsLoopback\<close>. An IPv4 address is its four bytes, an IPv6 address its
  eight 16-bit groups. The loop over the groups of an IPv6 address runs at most eight times.
\<close>

datatype ip = IPv4 "nat list" | IPv6 "nat list"

definition decimalValue :: "string \<Rightarrow> nat" where
  "decimalValue s = foldl (\<lambda>n ch. n * 10 + (byteOf ch - 48)) 0 s"

definition parseOctet :: "string \<Rightarrow> nat option" where
  "parseOctet s =
     (if s = '''' \<or> \<not> list_all isDigit s \<or> (length s > 1 \<and> hd s = CHR ''0'') \<or> decimalValue s > 255
      then None else Some (decimalValue s))"

definition parseIPv4Fields :: "string \<Rightarrow> nat list option" where
  "parseIPv4Fields s =
     (let fields = map parseOctet (splitOn (CHR ''.'') s)
      in if length fields = 4 \<and> list_all (\<lambda>f. f \<noteq> None) fields then Some (map the fields) else None)"

definition hexValue :: "string \<Rightarrow> nat" where
  "hexValue s = foldl (\<lambda>n ch. n * 16 + (case unhex ch of Some d \<Rightarrow> d | None \<Rightarrow> 0)) 0 s"

definition isHex :: "char \<Rightarrow> bool" where "isHex ch \<longleftrightarrow> unhex ch \<noteq> None"

text \<open>
  The groups read so far (in reverse), the position of the ellipsis, and the rest of the
  text. \<open>None\<close> is a parse error.
\<close>

fun ipv6Groups ::
  "nat \<Rightarrow> nat list \<Rightarrow> nat option \<Rightarrow> string \<Rightarrow> (nat list \<times> nat option \<times> string) option" where
  "ipv6Groups 0 groups ellipsis s = Some (groups, ellipsis, s)"
| "ipv6Groups (Suc n) groups ellipsis s =
     (let digits = takeWhile isHex s; rest = dropWhile isHex s
      in if length digits = 0 \<or> length digits > 4 then None
         else case rest of
           [] \<Rightarrow> Some (hexValue digits # groups, ellipsis, [])
         | ch # after \<Rightarrow>
             if ch = CHR ''.'' then
               (if (ellipsis = None \<and> length groups \<noteq> 6) \<or> length groups > 6 then None
                else case parseIPv4Fields s of
                       Some [a, b, x, y] \<Rightarrow> Some ((x * 256 + y) # (a * 256 + b) # groups, ellipsis, [])
                     | _ \<Rightarrow> None)
             else if ch \<noteq> CHR '':'' \<or> after = [] then None
             else if hd after = CHR '':'' then
               (if ellipsis \<noteq> None then None
                else if tl after = [] then Some (hexValue digits # groups, Some (Suc (length groups)), [])
                else ipv6Groups n (hexValue digits # groups) (Some (Suc (length groups))) (tl after))
             else ipv6Groups n (hexValue digits # groups) ellipsis after)"

definition parseIPv6 :: "string \<Rightarrow> nat list option" where
  "parseIPv6 s =
     (if s = ''::'' then Some (replicate 8 0)
      else let (ellipsis, s) = (if hasPrefix s ''::'' then (Some 0, drop 2 s) else (None, s))
           in case ipv6Groups 8 [] ellipsis s of
                None \<Rightarrow> None
              | Some (groups, ellipsis, rest) \<Rightarrow>
                  if rest \<noteq> [] then None
                  else let gs = rev groups
                       in (case ellipsis of
                             None \<Rightarrow> if length gs = 8 then Some gs else None
                           | Some e \<Rightarrow>
                               if length gs < 8
                               then Some (take e gs @ replicate (8 - length gs) 0 @ drop e gs)
                               else None))"

definition parseIP :: "string \<Rightarrow> ip option" where
  "parseIP s =
     (case dropWhile (\<lambda>ch. ch \<noteq> CHR ''.'' \<and> ch \<noteq> CHR '':'' \<and> ch \<noteq> CHR ''%'') s of
        [] \<Rightarrow> None
      | ch # _ \<Rightarrow>
          if ch = CHR ''.'' then map_option IPv4 (parseIPv4Fields s)
          else if ch = CHR '':'' \<and> CHR ''%'' \<notin> set s then map_option IPv6 (parseIPv6 s)
          else None)"

fun ip_IsLoopback :: "ip \<Rightarrow> bool" where
  "ip_IsLoopback (IPv4 bs) \<longleftrightarrow> bs ! 0 = 127"
| "ip_IsLoopback (IPv6 gs) \<longleftrightarrow>
     (if take 6 gs = [0, 0, 0, 0, 0, 65535] then gs ! 6 div 256 = 127
      else gs = [0, 0, 0, 0, 0, 0, 0, 1])"

definition isLoopback :: "string \<Rightarrow> bool" where
  "isLoopback host \<longleftrightarrow>
     (if host \<in> {''127.0.0.1'', ''localhost'', ''::1''} then True
      else case parseIP host of None \<Rightarrow> False | Some ip \<Rightarrow> ip_IsLoopback ip)"

definition JoinHostPort :: "string \<Rightarrow> string \<Rightarrow> string" where
  "JoinHostPort host port =
     (if CHR '':'' \<in> set host \<or> CHR ''%'' \<in> set host then ''['' @ host @ '']:'' @ port
      else host @ '':'' @ port)"

definition loopbackAddrs :: "string \<Rightarrow> string \<Rightarrow> string list" where
  "loopbackAddrs host port =
     (if host = ''localhost'' then [JoinHostPort ''127.0.0.1'' port, JoinHostPort ''::1'' port]
      else [JoinHostPort host port])"

section \<open>Keys\<close>

definition callbackKey :: "string \<Rightarrow> string \<Rightarrow> string" where
  "callbackKey path st = path @ [CHR 0x00] @ st"

definition stateFromURL :: "string \<Rightarrow> string" where
  "stateFromURL rawURL = (case Parse rawURL of Inl _ \<Rightarrow> '''' | Inr u \<Rightarrow> Values_Get (Query u) ''state'')"

section \<open>The broker\<close>

text \<open>
  The waiters map keys to channels as an association list, which are numbers; \<open>b_channels\<close> holds what was sent on
  each, \<open>b_sending\<close> the sends that \<open>handle\<close> still has to make after releasing the lock.
  \<open>b_timers\<close> are the grace timers that may still run \<open>graceShutdown\<close>: stopping one that has
  already fired does not take it back.
\<close>

record broker =
  b_addrs :: "string list"
  b_waiters :: "(string \<times> nat) list"
  b_server :: bool
  b_listeners :: "string list"
  b_graceTimer :: "nat option"
  b_timers :: "nat set"
  b_sending :: "(nat \<times> string) list"
  b_channels :: "nat \<Rightarrow> string list"
  b_next :: nat

definition newBroker :: "string list \<Rightarrow> broker" where
  "newBroker addrs =
     \<lparr>b_addrs = addrs, b_waiters = [], b_server = False, b_listeners = [],
      b_graceTimer = None, b_timers = {}, b_sending = [], b_channels = (\<lambda>_. []), b_next = 0\<rparr>"

text \<open>\<open>startLocked\<close>, over the outcome of binding each address.\<close>

definition startLocked :: "(string \<Rightarrow> goerror option) \<Rightarrow> broker \<Rightarrow> goerror option \<times> broker" where
  "startLocked listen b =
     (let listeners = filter (\<lambda>a. listen a = None) (b_addrs b)
      in if listeners = []
         then (Some (Errorf ([Txt ''desktopflow: failed to listen on '', Txt (joinWith '' '' (b_addrs b)),
                              Txt '': ''] @
                             (case b_addrs b of
                                [] \<Rightarrow> []
                              | _ \<Rightarrow> (case listen (last (b_addrs b)) of
                                        Some e \<Rightarrow> [Wrapped e] | None \<Rightarrow> [])))), b)
         else (None, b\<lparr>b_server := True, b_listeners := listeners\<rparr>))"

text \<open>\<open>stopped\<close> says whether \<open>Timer.Stop\<close> came before the timer fired.\<close>

definition broker_register ::
  "bool \<Rightarrow> (string \<Rightarrow> goerror option) \<Rightarrow> string \<Rightarrow> nat \<Rightarrow> broker \<Rightarrow> goerror option \<times> broker" where
  "broker_register stopped listen key ch b =
     (if map_of (b_waiters b) key \<noteq> None
      then (Some (OtherError ''desktopflow: a callback is already registered for this path and state''), b)
      else let b = (case b_graceTimer b of
                      None \<Rightarrow> b
                    | Some t \<Rightarrow> b\<lparr>b_graceTimer := None,
                                  b_timers := (if stopped then b_timers b - {t} else b_timers b)\<rparr>);
               (err, b) = (if b_server b then (None, b) else startLocked listen b)
           in case err of
                Some e \<Rightarrow> (Some e, b)
              | None \<Rightarrow> (None, b\<lparr>b_waiters := (key, ch) # b_waiters b\<rparr>))"

definition scheduleShutdownLocked :: "broker \<Rightarrow> broker" where
  "scheduleShutdownLocked b =
     (if b_waiters b = [] \<and> b_server b \<and> b_graceTimer b = None
      then b\<lparr>b_graceTimer := Some (b_next b), b_timers := insert (b_next b) (b_timers b),
             b_next := b_next b + 1\<rparr>
      else b)"

definition broker_deregister :: "string \<Rightarrow> broker \<Rightarrow> broker" where
  "broker_deregister key b =
     (if map_of (b_waiters b) key = None then b
      else scheduleShutdownLocked (b\<lparr>b_waiters := AList.delete key (b_waiters b)\<rparr>))"

definition graceShutdown :: "nat \<Rightarrow> broker \<Rightarrow> broker" where
  "graceShutdown t b =
     (let b = b\<lparr>b_timers := b_timers b - {t}, b_graceTimer := None\<rparr>
      in if b_waiters b \<noteq> [] \<or> \<not> b_server b then b
         else b\<lparr>b_server := False, b_listeners := []\<rparr>)"

text \<open>
  \<open>handle\<close>: the locked part with the page written, and the send that follows it.
\<close>

definition broker_handle ::
  "(string \<Rightarrow> bool \<Rightarrow> string) \<Rightarrow> string \<Rightarrow> string \<Rightarrow> broker \<Rightarrow> string \<times> broker" where
  "broker_handle pageFor path rawQuery b =
     (let query = queryPairs rawQuery;
          key = callbackKey path (Values_Get query ''state'');
          waiter = map_of (b_waiters b) key;
          ok = (waiter \<noteq> None);
          isError = (ok \<and> Values_Get query ''error'' \<noteq> '''');
          pagePath = (if ok then path else '''');
          page = pageFor pagePath isError
      in case waiter of
           None \<Rightarrow> (page, b)
         | Some ch \<Rightarrow>
             (page, (scheduleShutdownLocked (b\<lparr>b_waiters := AList.delete key (b_waiters b)\<rparr>))
                      \<lparr>b_sending := b_sending b @ [(ch, rawQuery)]\<rparr>))"

definition broker_send :: "nat \<Rightarrow> broker \<Rightarrow> broker" where
  "broker_send i b =
     (if i < length (b_sending b)
      then let (ch, rawQuery) = b_sending b ! i
           in b\<lparr>b_sending := take i (b_sending b) @ drop (Suc i) (b_sending b),
                b_channels := (b_channels b)(ch := b_channels b ch @ [rawQuery])\<rparr>
      else b)"

text \<open>A flow makes its channel before it registers.\<close>

definition newChannel :: "broker \<Rightarrow> nat \<times> broker" where
  "newChannel b = (b_next b, b\<lparr>b_next := b_next b + 1\<rparr>)"

section \<open>The handler\<close>

record desktopHandler =
  dh_redirectURI :: string
  dh_host :: string
  dh_port :: string
  dh_path :: string
  dh_logoutRedirectURI :: string
  dh_logoutPath :: string
  dh_broker :: broker
  dh_SuccessHTML :: string
  dh_ErrorHTML :: string
  dh_LogoutHTML :: string

definition desktopHandlerFor :: "string \<Rightarrow> string \<Rightarrow> string \<Rightarrow> string \<Rightarrow> desktopHandler" where
  "desktopHandlerFor uri host port path =
     \<lparr>dh_redirectURI = uri, dh_host = host, dh_port = port, dh_path = path,
      dh_logoutRedirectURI = uri, dh_logoutPath = path,
      dh_broker = newBroker (loopbackAddrs host port),
      dh_SuccessHTML = '''', dh_ErrorHTML = '''', dh_LogoutHTML = ''''\<rparr>"

definition desktopNew :: "nat \<Rightarrow> desktopHandler" where
  "desktopNew port =
     desktopHandlerFor (''http://127.0.0.1:'' @ digitsOf port @ ''/callback'') ''127.0.0.1''
       (digitsOf port) ''/callback''"

definition NewWithURI :: "string \<Rightarrow> desktopHandler result" where
  "NewWithURI uri =
     (case Parse uri of
        Inl err \<Rightarrow> Inl (Errorf [Txt ''desktopflow: invalid redirect URI: '', Wrapped err])
      | Inr parsed \<Rightarrow>
          (let host = Hostname parsed
           in if \<not> isLoopback host
              then Inl (OtherError (''desktopflow: redirect URI host '' @ [CHR 0x22] @ host @ [CHR 0x22] @
                     '' is not a loopback address (must be 127.0.0.1, localhost, or [::1])''))
              else let port = Port parsed
                   in if port = '''' then Inl (OtherError ''desktopflow: redirect URI must include a port'')
                      else Inr (desktopHandlerFor uri host port
                                  (if u_Path parsed = '''' then ''/'' else u_Path parsed))))"

definition desktopSetLogoutURI :: "string \<Rightarrow> desktopHandler \<Rightarrow> goerror option \<times> desktopHandler" where
  "desktopSetLogoutURI uri h =
     (case Parse uri of
        Inl err \<Rightarrow> (Some (Errorf [Txt ''desktopflow: invalid logout URI: '', Wrapped err]), h)
      | Inr parsed \<Rightarrow>
          if \<not> isLoopback (Hostname parsed)
          then (Some (OtherError (''desktopflow: logout URI host '' @ [CHR 0x22] @ Hostname parsed @ [CHR 0x22] @
                  '' is not a loopback address (must be 127.0.0.1, localhost, or [::1])'')), h)
          else if Hostname parsed \<noteq> dh_host h \<or> Port parsed \<noteq> dh_port h
          then (Some (OtherError (''desktopflow: logout URI must share host '' @ [CHR 0x22] @ dh_host h @
                  [CHR 0x22] @ '' and port '' @ [CHR 0x22] @ dh_port h @ [CHR 0x22] @
                  '' with the login redirect URI (only the path may differ)'')), h)
          else (None, h\<lparr>dh_logoutRedirectURI := uri,
                        dh_logoutPath := (if u_Path parsed = '''' then ''/'' else u_Path parsed)\<rparr>))"

definition desktopSetLogoutPath :: "string \<Rightarrow> desktopHandler \<Rightarrow> goerror option \<times> desktopHandler" where
  "desktopSetLogoutPath path h =
     (if \<not> hasPrefix path ''/''
      then (Some (OtherError (''desktopflow: logout path '' @ [CHR 0x22] @ path @ [CHR 0x22] @
              '' must start with /'')), h)
      else case Parse (dh_redirectURI h) of
             Inl err \<Rightarrow> (Some (Errorf [Txt ''desktopflow: '', Wrapped err]), h)
           | Inr u \<Rightarrow> (None, h\<lparr>dh_logoutRedirectURI := URL_String (u\<lparr>u_Path := path\<rparr>),
                               dh_logoutPath := path\<rparr>))"

text \<open>The three default pages.\<close>

definition defaultSuccessHTML :: string where
  "defaultSuccessHTML =
     ''<!DOCTYPE html>'' @ [CHR 0x0A] @ ''<html><head><title>Authentication Successful</title></head>'' @ [CHR 0x0A] @
     ''<body><h1>Authentication Successful</h1><p>You can close this window.</p></body></html>''"

definition defaultLogoutHTML :: string where
  "defaultLogoutHTML =
     ''<!DOCTYPE html>'' @ [CHR 0x0A] @ ''<html><head><title>Logged Out</title></head>'' @ [CHR 0x0A] @
     ''<body><h1>Logged Out</h1><p>You have been logged out. You can close this window.</p></body></html>''"

definition defaultErrorHTML :: string where
  "defaultErrorHTML =
     ''<!DOCTYPE html>'' @ [CHR 0x0A] @ ''<html><head><title>Authentication Error</title></head>'' @ [CHR 0x0A] @
     ''<body><h1>Authentication Error</h1><p>An error occurred during authentication. Please try again.</p></body></html>''"

definition desktopPageFor :: "desktopHandler \<Rightarrow> string \<Rightarrow> bool \<Rightarrow> string" where
  "desktopPageFor h path isError =
     (if isError then (if dh_ErrorHTML h \<noteq> '''' then dh_ErrorHTML h else defaultErrorHTML)
      else if path = dh_logoutPath h \<and> dh_logoutPath h \<noteq> dh_path h
      then (if dh_LogoutHTML h \<noteq> '''' then dh_LogoutHTML h else defaultLogoutHTML)
      else if dh_SuccessHTML h \<noteq> '''' then dh_SuccessHTML h
      else defaultSuccessHTML)"

text \<open>
  \<open>runFlow\<close>. The environment gives the outcome of stopping the timer and of binding, the
  opener's result, what the others do to the broker until the \<open>select\<close>, and whether the
  context's case is taken. A flow with no result yet has not returned.
\<close>

record desktopEnv =
  de_stopped :: bool
  de_listen :: "string \<Rightarrow> goerror option"
  de_opener :: "string \<Rightarrow> goerror option"
  de_others :: "broker \<Rightarrow> broker"
  de_cancelled :: "ctx_err option"

definition desktopRunFlow ::
  "desktopEnv \<Rightarrow> string \<Rightarrow> string \<Rightarrow> string \<Rightarrow> broker \<Rightarrow> string result returned \<times> broker" where
  "desktopRunFlow env targetURL path redirectURI b =
     (let key = callbackKey path (stateFromURL targetURL);
          (ch, b) = newChannel b
      in case broker_register (de_stopped env) (de_listen env) key ch b of
           (Some err, b) \<Rightarrow> (Some (Inl err), b)
         | (None, b) \<Rightarrow>
             (case de_opener env targetURL of
                Some err \<Rightarrow>
                  (Some (Inl (Errorf [Txt ''desktopflow: failed to open browser: '', Wrapped err])),
                   broker_deregister key b)
              | None \<Rightarrow>
                  (let b = de_others env b
                   in case de_cancelled env of
                        Some e \<Rightarrow> (Some (Inl (CtxErr e)), broker_deregister key b)
                      | None \<Rightarrow>
                          (case b_channels b ch of
                             [] \<Rightarrow> (None, b)
                           | rawQuery # _ \<Rightarrow>
                               (Some (Inr (if rawQuery = '''' then redirectURI
                                           else redirectURI @ ''?'' @ rawQuery)),
                                broker_deregister key b)))))"

definition desktopStartAuthFlow ::
  "desktopEnv \<Rightarrow> string \<Rightarrow> desktopHandler \<Rightarrow> string result returned \<times> desktopHandler" where
  "desktopStartAuthFlow env authURL h =
     (let (res, b) = desktopRunFlow env authURL (dh_path h) (dh_redirectURI h) (dh_broker h)
      in (res, h\<lparr>dh_broker := b\<rparr>))"

definition desktopStartLogoutFlow ::
  "desktopEnv \<Rightarrow> string \<Rightarrow> desktopHandler \<Rightarrow> string result returned \<times> desktopHandler" where
  "desktopStartLogoutFlow env logoutURL h =
     (let (res, b) = desktopRunFlow env logoutURL (dh_logoutPath h) (dh_logoutRedirectURI h) (dh_broker h)
      in (res, h\<lparr>dh_broker := b\<rparr>))"

section \<open>The broker as a state machine\<close>

text \<open>
  Every interleaving of flows registering (each on a channel of its own) and deregistering,
  requests, the sends that follow them, and grace timers firing. The first argument records
  the key each channel was registered for.
\<close>

inductive brokerReach :: "string list \<Rightarrow> (nat \<Rightarrow> string) \<Rightarrow> broker \<Rightarrow> bool" for addrs where
  init: "brokerReach addrs own (newBroker addrs)"
| register: "brokerReach addrs own b \<Longrightarrow> newChannel b = (ch, b1) \<Longrightarrow>
    broker_register stopped listen key ch b1 = (err, b2) \<Longrightarrow> brokerReach addrs (own(ch := key)) b2"
| deregister: "brokerReach addrs own b \<Longrightarrow> brokerReach addrs own (broker_deregister key b)"
| fire: "brokerReach addrs own b \<Longrightarrow> t \<in> b_timers b \<Longrightarrow> brokerReach addrs own (graceShutdown t b)"
| request: "brokerReach addrs own b \<Longrightarrow> brokerReach addrs own (snd (broker_handle pf path rawQuery b))"
| send: "brokerReach addrs own b \<Longrightarrow> brokerReach addrs own (broker_send i b)"

text \<open>The channels still waiting for their one result.\<close>

definition openChannels :: "broker \<Rightarrow> nat list" where
  "openChannels b = map snd (b_waiters b) @ map fst (b_sending b)"

text \<open>The result was asked for: the query carries the state of the channel's key, for some path.\<close>

definition routed :: "(nat \<Rightarrow> string) \<Rightarrow> nat \<Rightarrow> string \<Rightarrow> bool" where
  "routed own ch rawQuery \<longleftrightarrow>
     (\<exists>path. own ch = callbackKey path (Values_Get (queryPairs rawQuery) ''state''))"

text \<open>The server part and the channel part of the invariant.\<close>

definition serverInv :: "string list \<Rightarrow> broker \<Rightarrow> bool" where
  "serverInv addrs b \<longleftrightarrow>
     b_addrs b = addrs \<and> set (b_listeners b) \<subseteq> set addrs \<and> (b_server b \<longleftrightarrow> b_listeners b \<noteq> []) \<and>
     (b_waiters b \<noteq> [] \<longrightarrow> b_server b) \<and>
     (b_server b \<and> b_waiters b = [] \<longrightarrow> (\<exists>t. b_graceTimer b = Some t \<and> t \<in> b_timers b))"

definition channelInv :: "(nat \<Rightarrow> string) \<Rightarrow> broker \<Rightarrow> bool" where
  "channelInv own b \<longleftrightarrow>
     distinct (openChannels b) \<and> distinct (map fst (b_waiters b)) \<and>
     (\<forall>ch. b_next b \<le> ch \<or> ch \<in> set (openChannels b) \<longrightarrow> b_channels b ch = []) \<and>
     (\<forall>ch \<in> set (openChannels b). ch < b_next b) \<and>
     (\<forall>ch. length (b_channels b ch) \<le> 1) \<and>
     (\<forall>(key, ch) \<in> set (b_waiters b). own ch = key) \<and>
     (\<forall>(ch, q) \<in> set (b_sending b). routed own ch q) \<and>
     (\<forall>ch. \<forall>q \<in> set (b_channels b ch). routed own ch q)"

lemma scheduleShutdownLocked_frame [simp]:
  "b_waiters (scheduleShutdownLocked b) = b_waiters b" "b_server (scheduleShutdownLocked b) = b_server b"
  "b_listeners (scheduleShutdownLocked b) = b_listeners b" "b_addrs (scheduleShutdownLocked b) = b_addrs b"
  "b_sending (scheduleShutdownLocked b) = b_sending b" "b_channels (scheduleShutdownLocked b) = b_channels b"
  "b_next b \<le> b_next (scheduleShutdownLocked b)"
  "b_next b \<le> b_next (scheduleShutdownLocked (b\<lparr>b_waiters := ws\<rparr>))"
  by (simp_all add: scheduleShutdownLocked_def)

lemma schedule_armed:
  "b_waiters b = [] \<Longrightarrow> b_server b \<Longrightarrow> (\<And>t. b_graceTimer b = Some t \<Longrightarrow> t \<in> b_timers b) \<Longrightarrow>
   \<exists>t. b_graceTimer (scheduleShutdownLocked b) = Some t \<and> t \<in> b_timers (scheduleShutdownLocked b)"
  by (auto simp: scheduleShutdownLocked_def)

subsection \<open>The server part\<close>

text \<open>A timer that is set can still fire: this part holds for every broker of the machine.\<close>

definition timerInv :: "broker \<Rightarrow> bool" where
  "timerInv b \<longleftrightarrow> (\<forall>t. b_graceTimer b = Some t \<longrightarrow> t \<in> b_timers b)"

lemma serverInv_updates [simp]:
  "serverInv addrs (b\<lparr>b_sending := x\<rparr>) = serverInv addrs b"
  "serverInv addrs (b\<lparr>b_channels := y\<rparr>) = serverInv addrs b"
  "timerInv (b\<lparr>b_sending := x\<rparr>) = timerInv b"
  "timerInv (b\<lparr>b_channels := y\<rparr>) = timerInv b"
  by (simp_all add: serverInv_def timerInv_def)

lemma startLocked_cases:
  assumes "startLocked listen b = (err, b')"
  shows "(err \<noteq> None \<and> b' = b) \<or>
         (err = None \<and> (\<exists>ls. ls \<noteq> [] \<and> set ls \<subseteq> set (b_addrs b) \<and>
            b' = b\<lparr>b_server := True, b_listeners := ls\<rparr>))"
  using assms by (auto simp: startLocked_def Let_def split: if_splits)

lemma register_serverInv:
  assumes "serverInv addrs b" and "timerInv b" and "broker_register stopped listen key ch b = (err, b')"
  shows "serverInv addrs b' \<and> timerInv b'"
proof (cases "map_of (b_waiters b) key")
  case (Some x)
  with assms show ?thesis by (simp add: broker_register_def)
next
  case None
  define b0 where "b0 = (case b_graceTimer b of None \<Rightarrow> b
      | Some t \<Rightarrow> b\<lparr>b_graceTimer := None, b_timers := (if stopped then b_timers b - {t} else b_timers b)\<rparr>)"
  have b0: "b_graceTimer b0 = None" "b_server b0 = b_server b" "b_waiters b0 = b_waiters b"
    "b_listeners b0 = b_listeners b" "b_addrs b0 = b_addrs b"
    by (simp_all add: b0_def split: option.split)
  show ?thesis
  proof (cases "b_server b0")
    case True
    then have "b' = b0\<lparr>b_waiters := (key, ch) # b_waiters b0\<rparr>"
      using None assms(3) by (simp add: broker_register_def b0_def [symmetric] Let_def)
    with True b0 assms(1) show ?thesis by (simp add: serverInv_def timerInv_def)
  next
    case False
    obtain e bs where st: "startLocked listen b0 = (e, bs)" by fastforce
    then have b': "b' = (case e of Some _ \<Rightarrow> bs | None \<Rightarrow> bs\<lparr>b_waiters := (key, ch) # b_waiters bs\<rparr>)"
      using None False assms(3) by (auto simp: broker_register_def b0_def [symmetric] Let_def split: option.splits)
    from startLocked_cases [OF st] b0 assms(1) False show ?thesis
      by (auto simp: b' serverInv_def timerInv_def)
  qed
qed

lemma delete_serverInv:
  assumes "serverInv addrs b" and "timerInv b" and "b_waiters b \<noteq> []"
  shows "serverInv addrs (scheduleShutdownLocked (b\<lparr>b_waiters := AList.delete key (b_waiters b)\<rparr>)) \<and>
         timerInv (scheduleShutdownLocked (b\<lparr>b_waiters := AList.delete key (b_waiters b)\<rparr>))"
  using assms schedule_armed [of "b\<lparr>b_waiters := AList.delete key (b_waiters b)\<rparr>"]
  by (auto simp: serverInv_def timerInv_def scheduleShutdownLocked_def)

lemma broker_serverInv: "brokerReach addrs own b \<Longrightarrow> serverInv addrs b \<and> timerInv b"
proof (induction rule: brokerReach.induct)
  case (init own)
  show ?case by (simp add: serverInv_def timerInv_def newBroker_def)
next
  case (register own b ch b1 stopped listen key err b2)
  have "serverInv addrs b1" "timerInv b1"
    using register.IH register.hyps(2) by (auto simp: newChannel_def serverInv_def timerInv_def)
  then show ?case using register.hyps(3) by (rule register_serverInv)
next
  case (deregister own b key)
  then show ?case using delete_serverInv [of addrs b key]
    by (cases "b_waiters b = []") (simp_all add: broker_deregister_def)
next
  case (fire own b t)
  then show ?case by (auto simp: graceShutdown_def serverInv_def timerInv_def Let_def)
next
  case (request own b pf path rawQuery)
  let ?key = "callbackKey path (Values_Get (queryPairs rawQuery) ''state'')"
  show ?case
  proof (cases "map_of (b_waiters b) ?key")
    case (Some ch)
    then have "b_waiters b \<noteq> []" by auto
    with request.IH have "serverInv addrs (scheduleShutdownLocked (b\<lparr>b_waiters := AList.delete ?key (b_waiters b)\<rparr>)) \<and>
         timerInv (scheduleShutdownLocked (b\<lparr>b_waiters := AList.delete ?key (b_waiters b)\<rparr>))"
      by (intro delete_serverInv) simp_all
    with Some show ?thesis by (simp add: broker_handle_def Let_def)
  next
    case None
    with request.IH show ?thesis by (simp add: broker_handle_def Let_def)
  qed
next
  case (send own b i)
  then show ?case by (simp add: broker_send_def Let_def case_prod_beta)
qed

text \<open>
  C26: the callback port is open exactly as long as it is needed. Whatever flows, requests
  and timers do, and however badly a stop races with a timer that has fired: while a flow
  waits the server is up, on loopback addresses of the handler only; a server nobody waits
  on has a shutdown pending, which closes it if it fires before the next flow.
\<close>

theorem broker_port_open_iff_needed:
  assumes "brokerReach addrs own b"
  shows "set (b_listeners b) \<subseteq> set addrs \<and> (b_server b \<longleftrightarrow> b_listeners b \<noteq> []) \<and>
         (b_waiters b \<noteq> [] \<longrightarrow> b_server b) \<and>
         (b_server b \<and> b_waiters b = [] \<longrightarrow>
            (\<exists>t \<in> b_timers b. b_graceTimer b = Some t \<and>
               \<not> b_server (graceShutdown t b) \<and> b_listeners (graceShutdown t b) = []))"
proof -
  have inv: "serverInv addrs b" using broker_serverInv [OF assms] by blast
  have closes: "\<not> b_server (graceShutdown t b) \<and> b_listeners (graceShutdown t b) = []"
    if "b_server b" "b_waiters b = []" for t
    using that by (simp add: graceShutdown_def)
  show ?thesis using inv closes by (auto simp: serverInv_def)
qed

definition sampleBroker :: broker where
  "sampleBroker =
     snd (broker_register True (\<lambda>_. None) (callbackKey ''/callback'' ''s1'') 0
       (snd (newChannel (newBroker [''127.0.0.1:15051'']))))"

lemma sampleBroker_reach:
  "brokerReach [''127.0.0.1:15051''] ((\<lambda>_. '''')(0 := callbackKey ''/callback'' ''s1'')) sampleBroker"
  unfolding sampleBroker_def
  by (rule brokerReach.register [OF brokerReach.init]) (auto simp: newChannel_def newBroker_def prod_eq_iff)

theorem broker_port_open_iff_needed_witness:
  "b_waiters sampleBroker \<noteq> [] \<and> b_server sampleBroker \<and>
   set (b_listeners sampleBroker) \<subseteq> {''127.0.0.1:15051''}"
proof -
  have "b_waiters sampleBroker \<noteq> []" by code_simp
  with broker_port_open_iff_needed [OF sampleBroker_reach] show ?thesis by auto
qed

subsection \<open>The channel part\<close>

lemma register_channelInv:
  assumes "channelInv own b" and "newChannel b = (ch, b1)"
    and "broker_register stopped listen key ch b1 = (err, b2)"
  shows "channelInv (own(ch := key)) b2"
proof -
  have ch: "ch = b_next b" "b1 = b\<lparr>b_next := Suc (b_next b)\<rparr>" using assms(2) by (auto simp: newChannel_def)
  have frame: "b_sending b2 = b_sending b" "b_channels b2 = b_channels b" "b_next b2 = Suc (b_next b)"
    and waiters: "b_waiters b2 = b_waiters b \<or>
      b_waiters b2 = (key, ch) # b_waiters b \<and> map_of (b_waiters b) key = None"
    using assms(3)
    by (auto simp: broker_register_def ch startLocked_def Let_def split: if_splits option.splits prod.splits)
  have fresh: "ch \<notin> set (openChannels b)" and empty: "b_channels b ch = []"
    using assms(1) by (auto simp: channelInv_def ch)
  have own: "routed (own(ch := key)) x q \<longleftrightarrow> routed own x q" if "x \<noteq> ch" for x q
    using that by (simp add: routed_def)
  have key: "key \<notin> fst ` set (b_waiters b)" if "map_of (b_waiters b) key = None"
    using that by (simp add: map_of_eq_None_iff)
  have d1: "distinct (openChannels b)" and d2: "distinct (map fst (b_waiters b))"
    and emp: "\<And>x. b_next b \<le> x \<or> x \<in> set (openChannels b) \<Longrightarrow> b_channels b x = []"
    and lt: "\<And>x. x \<in> set (openChannels b) \<Longrightarrow> x < b_next b"
    and len: "\<And>x. length (b_channels b x) \<le> 1"
    and ow: "\<And>k x. (k, x) \<in> set (b_waiters b) \<Longrightarrow> own x = k"
    and sd: "\<And>x q. (x, q) \<in> set (b_sending b) \<Longrightarrow> routed own x q"
    and cs: "\<And>x q. q \<in> set (b_channels b x) \<Longrightarrow> routed own x q"
    using assms(1) unfolding channelInv_def by blast+
  have opn: "set (openChannels b2) \<subseteq> insert ch (set (openChannels b))"
    using waiters frame by (auto simp: openChannels_def)
  have new: "(k, ch) \<notin> set (b_waiters b)" for k using fresh by (force simp: openChannels_def)
  have old: "x \<noteq> ch" if "x \<in> set (openChannels b)" for x using that fresh by blast
  have sending: "x \<in> set (openChannels b)" if "(x, q) \<in> set (b_sending b)" for x q
    using that by (force simp: openChannels_def)
  show ?thesis
    unfolding channelInv_def
  proof (intro conjI)
    show "distinct (openChannels b2)"
      using waiters d1 fresh unfolding openChannels_def frame(1) by (elim disjE) simp_all
    show "distinct (map fst (b_waiters b2))" using waiters d2 key by (elim disjE) simp_all
    show "\<forall>x. b_next b2 \<le> x \<or> x \<in> set (openChannels b2) \<longrightarrow> b_channels b2 x = []"
      using emp opn frame(2,3) empty by (metis Suc_leD insertE subsetD)
    show "\<forall>x \<in> set (openChannels b2). x < b_next b2"
      using lt opn frame(3) ch(1) by (metis insertE less_Suc_eq subsetD)
    show "\<forall>x. length (b_channels b2 x) \<le> 1" using len frame(2) by simp
    show "\<forall>(k, x) \<in> set (b_waiters b2). (own(ch := key)) x = k"
      using waiters ow new by (elim disjE) auto
    show "\<forall>(x, q) \<in> set (b_sending b2). routed (own(ch := key)) x q"
      using frame(1) sd own sending old by auto
    show "\<forall>x. \<forall>q \<in> set (b_channels b2 x). routed (own(ch := key)) x q"
      using frame(2) cs own empty by (metis empty_iff list.set(1))
  qed
qed

lemma delete_channelInv:
  assumes "channelInv own b" and "map_of (b_waiters b) key = Some ch"
    and "b_waiters b' = AList.delete key (b_waiters b)" and "b_channels b' = b_channels b"
    and "b_next b \<le> b_next b'"
    and "b_sending b' = b_sending b \<or> (b_sending b' = b_sending b @ [(ch, q)] \<and> routed own ch q)"
  shows "channelInv own b'"
proof -
  have d1: "distinct (openChannels b)" and d2: "distinct (map fst (b_waiters b))"
    and emp: "\<And>x. b_next b \<le> x \<or> x \<in> set (openChannels b) \<Longrightarrow> b_channels b x = []"
    and lt: "\<And>x. x \<in> set (openChannels b) \<Longrightarrow> x < b_next b"
    and len: "\<And>x. length (b_channels b x) \<le> 1"
    and ow: "\<And>k x. (k, x) \<in> set (b_waiters b) \<Longrightarrow> own x = k"
    and sd: "\<And>x q. (x, q) \<in> set (b_sending b) \<Longrightarrow> routed own x q"
    and cs: "\<And>x q. q \<in> set (b_channels b x) \<Longrightarrow> routed own x q"
    using assms(1) unfolding channelInv_def by blast+
  have mem: "(key, ch) \<in> set (b_waiters b)" using assms(2) by (rule map_of_SomeD)
  have sub: "set (b_waiters b') \<subseteq> set (b_waiters b) - {(key, ch)}"
    using assms(3) by (auto simp: AList.delete_eq)
  have dist: "distinct (map snd (b_waiters b))" "distinct (map fst (b_waiters b))"
    using d1 d2 by (simp_all add: openChannels_def)
  have gone: "ch \<notin> snd ` set (b_waiters b')"
  proof
    assume "ch \<in> snd ` set (b_waiters b')"
    then obtain k where "(k, ch) \<in> set (b_waiters b)" "k \<noteq> key" using sub assms(3)
      by (auto simp: AList.delete_eq)
    with mem ow show False by metis
  qed
  have d: "distinct (map snd (b_waiters b'))" "distinct (map fst (b_waiters b'))"
    using dist assms(3) by (simp_all add: AList.delete_eq distinct_map_filter)
  have chs: "ch \<notin> fst ` set (b_sending b)" "ch \<in> set (openChannels b)"
    using d1 mem by (force simp: openChannels_def)+
  have opn: "set (openChannels b') \<subseteq> set (openChannels b)"
  proof -
    have "fst ` set (b_sending b') \<subseteq> insert ch (fst ` set (b_sending b))" using assms(6) by auto
    moreover have "snd ` set (b_waiters b') \<subseteq> snd ` set (b_waiters b)" using sub by (intro image_mono) blast
    ultimately show ?thesis using chs(2) unfolding openChannels_def set_append set_map by blast
  qed
  show ?thesis
    unfolding channelInv_def
  proof (intro conjI)
    show "distinct (openChannels b')"
    proof -
      have "snd ` set (b_waiters b') \<inter> fst ` set (b_sending b) = {}"
        using d1 image_mono [of "set (b_waiters b')" "set (b_waiters b)" snd] sub
        unfolding openChannels_def distinct_append set_map by blast
      moreover have "distinct (map fst (b_sending b))" using d1 by (simp add: openChannels_def)
      ultimately show ?thesis
        using assms(6) d(1) gone chs(1) unfolding openChannels_def distinct_append set_map
        by (elim disjE) (simp_all add: Int_Un_distrib)
    qed
    show "distinct (map fst (b_waiters b'))" by (rule d(2))
    show "\<forall>x. b_next b' \<le> x \<or> x \<in> set (openChannels b') \<longrightarrow> b_channels b' x = []"
      using emp opn assms(4,5) by (metis le_trans subsetD)
    show "\<forall>x \<in> set (openChannels b'). x < b_next b'" using lt opn assms(5) by (metis less_le_trans subsetD)
    show "\<forall>x. length (b_channels b' x) \<le> 1" using len assms(4) by simp
    show "\<forall>(k, x) \<in> set (b_waiters b'). own x = k" using ow sub by blast
    show "\<forall>(x, q) \<in> set (b_sending b'). routed own x q" using sd assms(6) by auto
    show "\<forall>x. \<forall>q \<in> set (b_channels b' x). routed own x q" using cs assms(4) by simp
  qed
qed

lemma send_channelInv:
  assumes "channelInv own b"
  shows "channelInv own (broker_send i b)"
proof (cases "i < length (b_sending b)")
  case False
  then show ?thesis using assms by (simp add: broker_send_def)
next
  case True
  obtain ch q where nth: "b_sending b ! i = (ch, q)" by fastforce
  let ?s = "take i (b_sending b) @ drop (Suc i) (b_sending b)"
  let ?b = "broker_send i b"
  have split: "b_sending b = take i (b_sending b) @ (ch, q) # drop (Suc i) (b_sending b)"
    using True nth id_take_nth_drop by metis
  have b': "b_waiters ?b = b_waiters b" "b_sending ?b = ?s" "b_next ?b = b_next b"
    "b_channels ?b = (b_channels b)(ch := b_channels b ch @ [q])"
    using True nth by (simp_all add: broker_send_def)
  have mem: "(ch, q) \<in> set (b_sending b)" using True nth nth_mem by metis
  have d1: "distinct (openChannels b)" and d2: "distinct (map fst (b_waiters b))"
    and emp: "\<And>x. b_next b \<le> x \<or> x \<in> set (openChannels b) \<Longrightarrow> b_channels b x = []"
    and lt: "\<And>x. x \<in> set (openChannels b) \<Longrightarrow> x < b_next b"
    and len: "\<And>x. length (b_channels b x) \<le> 1"
    and ow: "\<And>k x. (k, x) \<in> set (b_waiters b) \<Longrightarrow> own x = k"
    and sd: "\<And>x q. (x, q) \<in> set (b_sending b) \<Longrightarrow> routed own x q"
    and cs: "\<And>x q. q \<in> set (b_channels b x) \<Longrightarrow> routed own x q"
    using assms unfolding channelInv_def by blast+
  have ch: "ch \<in> set (openChannels b)" using mem by (force simp: openChannels_def)
  have dist: "distinct (map snd (b_waiters b) @ map fst (take i (b_sending b)) @
      ch # map fst (drop (Suc i) (b_sending b)))"
    using d1 unfolding openChannels_def by (subst (asm) split) simp
  have opn: "set (openChannels ?b) = set (openChannels b) - {ch}" "distinct (openChannels ?b)"
  proof -
    have "set (openChannels b) = set (map snd (b_waiters b) @ map fst (take i (b_sending b)) @
        ch # map fst (drop (Suc i) (b_sending b)))"
      unfolding openChannels_def by (subst split) simp
    with dist show "set (openChannels ?b) = set (openChannels b) - {ch}" "distinct (openChannels ?b)"
      unfolding openChannels_def b' by auto
  qed
  show ?thesis
    unfolding channelInv_def
  proof (intro conjI)
    show "distinct (openChannels ?b)" by (rule opn(2))
    show "distinct (map fst (b_waiters ?b))" using d2 b' by simp
    show "\<forall>x. b_next ?b \<le> x \<or> x \<in> set (openChannels ?b) \<longrightarrow> b_channels ?b x = []"
      using emp opn(1) b' lt [OF ch] by auto
    show "\<forall>x \<in> set (openChannels ?b). x < b_next ?b" using lt opn(1) b' by auto
    show "\<forall>x. length (b_channels ?b x) \<le> 1" using len b' emp ch by simp
    show "\<forall>(k, x) \<in> set (b_waiters ?b). own x = k" using ow b' by auto
    show "\<forall>(x, r) \<in> set (b_sending ?b). routed own x r"
      using sd b' by (auto dest: in_set_takeD in_set_dropD)
    show "\<forall>x. \<forall>r \<in> set (b_channels ?b x). routed own x r" using cs sd mem b' by auto
  qed
qed

lemma broker_channelInv: "brokerReach addrs own b \<Longrightarrow> channelInv own b"
proof (induction rule: brokerReach.induct)
  case (init own)
  show ?case by (simp add: channelInv_def openChannels_def newBroker_def)
next
  case (register own b ch b1 stopped listen key err b2)
  from register.IH register.hyps(2,3) show ?case by (rule register_channelInv)
next
  case (deregister own b key)
  show ?case
  proof (cases "map_of (b_waiters b) key")
    case (Some ch)
    from deregister.IH Some show ?thesis
      by (rule delete_channelInv) (simp_all add: broker_deregister_def Some)
  qed (use deregister.IH in \<open>simp add: broker_deregister_def\<close>)
next
  case (fire own b t)
  then show ?case by (simp add: graceShutdown_def channelInv_def openChannels_def Let_def)
next
  case (request own b pf path rawQuery)
  let ?key = "callbackKey path (Values_Get (queryPairs rawQuery) ''state'')"
  show ?case
  proof (cases "map_of (b_waiters b) ?key")
    case (Some ch)
    have "own ch = ?key"
      using request.IH map_of_SomeD [OF Some] unfolding channelInv_def by blast
    then have rt: "routed own ch rawQuery" by (auto simp: routed_def)
    show ?thesis
      by (rule delete_channelInv [where q = rawQuery, OF request.IH Some])
        (simp_all add: broker_handle_def Let_def Some rt)
  qed (use request.IH in \<open>simp add: broker_handle_def Let_def\<close>)
next
  case (send own b i)
  from send.IH show ?case by (rule send_channelInv)
qed

section \<open>Routing\<close>

lemma callbackKey_NUL_free:
  assumes "CHR 0x00 \<notin> set path" and "CHR 0x00 \<notin> set st"
  shows "callbackKey path' st' = callbackKey path st \<longleftrightarrow> path' = path \<and> st' = st"
  using append_Cons_eq_iff [OF assms, of path' st'] by (auto simp: callbackKey_def)

text \<open>
  C14: a flow receives at most one result, and only one that was asked for: if the flow's
  path and state hold no NUL byte, whatever reached its channel is the query of a request
  whose state parameter is the flow's state. A request for which no flow waits changes
  nothing and gets the page of a successful login, whatever it asks for.
\<close>

theorem broker_routes_by_state:
  assumes "brokerReach addrs own b" and "own ch = callbackKey path st"
    and "CHR 0x00 \<notin> set path" and "CHR 0x00 \<notin> set st"
  shows "length (b_channels b ch) \<le> 1 \<and>
         (\<forall>q \<in> set (b_channels b ch). Values_Get (queryPairs q) ''state'' = st) \<and>
         (map_of (b_waiters b) (callbackKey p (Values_Get (queryPairs r) ''state'')) = None \<longrightarrow>
            broker_handle (desktopPageFor h) p r b = (desktopPageFor h '''' False, b))"
proof -
  have inv: "channelInv own b" using assms(1) by (rule broker_channelInv)
  have "Values_Get (queryPairs q) ''state'' = st" if "q \<in> set (b_channels b ch)" for q
  proof -
    have "routed own ch q" using inv that unfolding channelInv_def by blast
    then obtain path' where "own ch = callbackKey path' (Values_Get (queryPairs q) ''state'')"
      unfolding routed_def by blast
    with assms(2) callbackKey_NUL_free [OF assms(3,4)] show ?thesis by metis
  qed
  moreover have "length (b_channels b ch) \<le> 1" using inv by (simp add: channelInv_def)
  ultimately show ?thesis by (simp add: broker_handle_def Let_def)
qed

definition sampleServed :: broker where
  "sampleServed = broker_send 0 (snd (broker_handle (\<lambda>_ _. '''') ''/callback'' ''code=c&state=s1'' sampleBroker))"

theorem broker_routes_by_state_witness:
  "b_channels sampleServed 0 = [''code=c&state=s1''] \<and>
   Values_Get (queryPairs (hd (b_channels sampleServed 0))) ''state'' = ''s1''"
proof -
  have 1: "brokerReach [''127.0.0.1:15051''] ((\<lambda>_. '''')(0 := callbackKey ''/callback'' ''s1'')) sampleServed"
    unfolding sampleServed_def by (intro brokerReach.send brokerReach.request sampleBroker_reach)
  have 2: "CHR 0x00 \<notin> set ''/callback''" "CHR 0x00 \<notin> set ''s1''" by simp_all
  have 3: "b_channels sampleServed 0 = [''code=c&state=s1'']" by code_simp
  show ?thesis using broker_routes_by_state [OF 1 _ 2, of 0] 3 by simp
qed

section \<open>Loopback only\<close>

text \<open>
  C36: a handler made from a URI only ever binds loopback addresses, on the port of the
  URI, and a logout URI it accepts names the same host and port; a rejected one leaves the
  handler as it was.
\<close>

theorem desktop_loopback_only:
  assumes "NewWithURI uri = Inr h"
  shows "dh_redirectURI h = uri \<and> dh_port h \<noteq> '''' \<and> isLoopback (dh_host h) \<and>
         (\<forall>a \<in> set (b_addrs (dh_broker h)). \<exists>host. isLoopback host \<and> a = JoinHostPort host (dh_port h)) \<and>
         (case desktopSetLogoutURI uri' h of
            (Some e, h') \<Rightarrow> h' = h
          | (None, h') \<Rightarrow>
              \<exists>u. Parse uri' = Inr u \<and> Hostname u = dh_host h \<and> Port u = dh_port h \<and>
                  dh_logoutRedirectURI h' = uri' \<and> dh_broker h' = dh_broker h \<and> dh_path h' = dh_path h)"
proof -
  from assms obtain parsed where p: "Parse uri = Inr parsed" "isLoopback (Hostname parsed)" "Port parsed \<noteq> ''''"
    and h: "h = desktopHandlerFor uri (Hostname parsed) (Port parsed)
              (if u_Path parsed = '''' then ''/'' else u_Path parsed)"
    by (auto simp: NewWithURI_def Let_def split: sum.splits if_splits)
  have "isLoopback ''127.0.0.1''" "isLoopback ''::1''" by (simp_all add: isLoopback_def)
  then have "\<forall>a \<in> set (b_addrs (dh_broker h)). \<exists>host. isLoopback host \<and> a = JoinHostPort host (dh_port h)"
    using p(2) by (auto simp: h desktopHandlerFor_def newBroker_def loopbackAddrs_def)
  moreover have "case desktopSetLogoutURI uri' h of
            (Some e, h') \<Rightarrow> h' = h
          | (None, h') \<Rightarrow>
              \<exists>u. Parse uri' = Inr u \<and> Hostname u = dh_host h \<and> Port u = dh_port h \<and>
                  dh_logoutRedirectURI h' = uri' \<and> dh_broker h' = dh_broker h \<and> dh_path h' = dh_path h"
    by (auto simp: desktopSetLogoutURI_def split: sum.split)
  ultimately show ?thesis using p by (simp add: h desktopHandlerFor_def)
qed

theorem desktop_loopback_only_witness:
  "\<exists>h. NewWithURI ''http://localhost:15051/cb'' = Inr h \<and>
     (\<forall>a \<in> set (b_addrs (dh_broker h)). \<exists>host. isLoopback host \<and> a = JoinHostPort host (dh_port h))"
proof -
  have "\<not> isl (NewWithURI ''http://localhost:15051/cb'')" by code_simp
  then obtain h where h: "NewWithURI ''http://localhost:15051/cb'' = Inr h" by (metis sum.collapse(2))
  from desktop_loopback_only [OF h] h show ?thesis by blast
qed

text \<open>
  A percent-encoded NUL does reach both the path and the state of a callback, so two
  different pairs of path and state can have the same key.
\<close>

lemma callbackKey_collision:
  "map_sum id u_Path (Parse ''http://127.0.0.1:15051/cb%00a?state=b'') = Inr (''/cb'' @ [CHR 0x00] @ ''a'')"
  "stateFromURL ''https://idp.example/auth?state=a%00b'' = ''a'' @ [CHR 0x00] @ ''b''"
  "callbackKey (''/cb'' @ [CHR 0x00] @ ''a'') ''b'' = callbackKey ''/cb'' (''a'' @ [CHR 0x00] @ ''b'')"
  by (code_simp, code_simp, simp add: callbackKey_def)

section \<open>The handler delivers callbacks\<close>

text \<open>
  A flow whose browser ends up at \<open>location\<close>: the page loads, and the request reaches the broker
  through its multiplexer.
\<close>

definition browserAt :: "desktopHandler \<Rightarrow> string \<Rightarrow> broker \<Rightarrow> broker" where
  "browserAt h location b =
     (case Parse location of
        Inl _ \<Rightarrow> b
      | Inr u \<Rightarrow>
          broker_send (length (b_sending b))
            (snd (broker_handle (desktopPageFor h) (fst (muxRequest u)) (snd (muxRequest u)) b)))"

definition browserEnv :: "desktopHandler \<Rightarrow> string \<Rightarrow> desktopEnv" where
  "browserEnv h location =
     \<lparr>de_stopped = True, de_listen = (\<lambda>_. None), de_opener = (\<lambda>_. None),
      de_others = browserAt h location, de_cancelled = None\<rparr>"

definition desktopAuth :: "desktopHandler \<Rightarrow> string \<Rightarrow> string \<Rightarrow> string result returned" where
  "desktopAuth h authURL location = fst (desktopStartAuthFlow (browserEnv h location) authURL h)"

definition desktopLogout :: "desktopHandler \<Rightarrow> string \<Rightarrow> string \<Rightarrow> string result returned" where
  "desktopLogout h logoutURL location = fst (desktopStartLogoutFlow (browserEnv h location) logoutURL h)"

text \<open>A handler no flow has used yet, as the constructors make it.\<close>

definition idleHandler :: "desktopHandler \<Rightarrow> bool" where
  "idleHandler h \<longleftrightarrow> dh_broker h = newBroker (loopbackAddrs (dh_host h) (dh_port h))"

lemma idle_registers:
  assumes "idleHandler h"
  obtains b where "broker_register True (\<lambda>_. None) key 0 (snd (newChannel (dh_broker h))) = (None, b)"
    and "fst (newChannel (dh_broker h)) = 0"
    and "b_waiters b = [(key, 0)]" and "b_sending b = []" and "b_channels b = (\<lambda>_. [])"
proof -
  have "loopbackAddrs (dh_host h) (dh_port h) \<noteq> []" by (simp add: loopbackAddrs_def)
  then have "broker_register True (\<lambda>_. None) key 0 (snd (newChannel (dh_broker h))) =
      (None, (snd (newChannel (dh_broker h)))\<lparr>b_server := True,
         b_listeners := loopbackAddrs (dh_host h) (dh_port h), b_waiters := [(key, 0)]\<rparr>)"
    using assms by (simp add: idleHandler_def broker_register_def newChannel_def newBroker_def startLocked_def Let_def)
  then show thesis using that assms by (simp add: idleHandler_def newChannel_def newBroker_def)
qed

lemma browserAt_delivers:
  assumes "Parse location = Inr u" and "b_waiters b = [(key, ch)]" and "b_sending b = []" and "b_channels b = (\<lambda>_. [])"
    and "key = callbackKey (fst (muxRequest u)) (Values_Get (Query u) ''state'')"
  shows "b_channels (browserAt h location b) ch = [u_RawQuery u]"
  using assms
  by (simp add: browserAt_def broker_handle_def broker_send_def scheduleShutdownLocked_def Let_def Query_def muxRequest_def)

lemma browserAt_other:
  assumes "Parse location = Inr u" and "b_waiters b = [(key, ch)]" and "b_sending b = []" and "b_channels b = (\<lambda>_. [])"
    and "key \<noteq> callbackKey (fst (muxRequest u)) (Values_Get (Query u) ''state'')"
  shows "b_channels (browserAt h location b) ch = []"
  using assms
  by (simp add: browserAt_def broker_handle_def broker_send_def Let_def Query_def muxRequest_def)

lemma desktopRunFlow_delivers:
  assumes "idleHandler h" and "plainRedirect uri ru" and "muxKeeps ru"
    and "path = (if u_Path ru = '''' then ''/'' else u_Path ru)"
    and "requestsFlow param targetURL uri st" and "q \<noteq> []" and "valuesOf q ''state'' = [st]"
  shows "fst (desktopRunFlow (browserEnv h (redirectLocation ru q)) targetURL path uri (dh_broker h)) =
           Some (Inr (redirectLocation ru q))"
proof -
  let ?u = "ru\<lparr>u_RawQuery := Values_Encode q\<rparr>"
  note loc = plainRedirect_text [OF assms(2,6)]
  obtain target where target: "Parse targetURL = Inr target" "Values_Get (Query target) ''state'' = st"
    using assms(5) requestsFlow_state [OF assms(5)] by (auto simp: requestsFlow_def split: sum.splits)
  have keeps: "muxKeeps ?u" "u_Path ?u = u_Path ru" using assms(3) by simp_all
  have st: "Values_Get (Query ?u) ''state'' = st"
    using assms(7) ParseQuery_Encode [of q] by (simp add: Query_def ParseQuery_def Values_Get_def split: if_splits)
  let ?key = "callbackKey path st"
  obtain b where b: "broker_register True (\<lambda>_. None) ?key 0 (snd (newChannel (dh_broker h))) = (None, b)"
      "fst (newChannel (dh_broker h)) = 0" "b_waiters b = [(?key, 0)]" "b_sending b = []" "b_channels b = (\<lambda>_. [])"
    by (rule idle_registers [OF assms(1)])
  have "?key = callbackKey (fst (muxRequest ?u)) (Values_Get (Query ?u) ''state'')"
    using assms(4) keeps st by (simp add: muxRequest_def)
  from browserAt_delivers [OF loc(2) b(3,4,5) this, of h]
  have "b_channels (browserAt h (redirectLocation ru q) b) 0 = [Values_Encode q]" by simp
  moreover have "stateFromURL targetURL = st" using target by (simp add: stateFromURL_def)
  ultimately show ?thesis
    using b(1,2) loc(1) Encode_nonempty [OF assms(6)]
    by (simp add: desktopRunFlow_def browserEnv_def case_prod_beta Let_def)
qed

text \<open>
  The handlers of \<open>NewWithURI\<close>, and of \<open>New\<close> for every port, implement the interfaces, with the
  logout URI that \<open>SetLogoutURI\<close> accepted last.
\<close>

lemma NewWithURI_flows:
  assumes "NewWithURI uri = Inr h0" and "h = h0 \<or> desktopSetLogoutURI luri h0 = (None, h)"
  shows "logout_flow (desktopAuth h) uri muxKeeps (desktopLogout h) (dh_logoutRedirectURI h)"
proof
  have h: "idleHandler h" "dh_redirectURI h = uri"
    "Parse uri = Inr ru \<Longrightarrow> dh_path h = (if u_Path ru = '''' then ''/'' else u_Path ru)"
    "Parse (dh_logoutRedirectURI h) = Inr ru \<Longrightarrow> dh_logoutPath h = (if u_Path ru = '''' then ''/'' else u_Path ru)" for ru
    using assms by (auto simp: NewWithURI_def desktopSetLogoutURI_def idleHandler_def desktopHandlerFor_def Let_def
        split: if_splits sum.splits)
  fix st ru q
  assume plain: "muxKeeps ru" "q \<noteq> []" "valuesOf q ''state'' = [st]"
  { fix authURL
    assume "requestsFlow ''redirect_uri'' authURL uri st" "plainRedirect uri ru"
    with desktopRunFlow_delivers [OF h(1) _ plain(1) _ _ plain(2,3)] h(2,3)
    show "desktopAuth h authURL (redirectLocation ru q) = Some (Inr (redirectLocation ru q))"
      by (simp add: desktopAuth_def desktopStartAuthFlow_def case_prod_beta plainRedirect_def)
  }
  { fix logoutURL
    assume "requestsFlow ''post_logout_redirect_uri'' logoutURL (dh_logoutRedirectURI h) st"
      "plainRedirect (dh_logoutRedirectURI h) ru"
    with desktopRunFlow_delivers [OF h(1) _ plain(1) _ _ plain(2,3)] h(4)
    show "desktopLogout h logoutURL (redirectLocation ru q) = Some (Inr (redirectLocation ru q))"
      by (simp add: desktopLogout_def desktopStartLogoutFlow_def case_prod_beta plainRedirect_def)
  }
qed

lemma NewWithURI_auth_flow: "NewWithURI uri = Inr h \<Longrightarrow> auth_flow (desktopAuth h) uri muxKeeps"
  by (rule logout_flow.axioms(1) [OF NewWithURI_flows]) auto

lemma digitsOf_digits: "list_all isDigit (digitsOf n) \<and> digitsOf n \<noteq> ''''"
proof (induction n rule: digitsOf.induct)
  case (1 n)
  have "isDigit (char_of (48 + d))" if "d < 10" for d :: nat
    using that by (simp add: isDigit_def byteOf_def)
  then show ?case using 1 by (subst (1 2) digitsOf.simps) simp
qed

lemma desktopNew_NewWithURI: "NewWithURI (dh_redirectURI (desktopNew port)) = Inr (desktopNew port)"
proof -
  let ?ru = "emptyURL\<lparr>u_Scheme := ''http'', u_Host := ''127.0.0.1:'' @ digitsOf port, u_Path := ''/callback''\<rparr>"
  have ip: "list_all (\<lambda>ch. isAlnum ch \<or> ch = CHR ''.'') ''127.0.0.1''" by code_simp
  note host = plainHost_port [OF ip _ conjunct1 [OF digitsOf_digits [of port]]]
  have "validScheme ''http''" by code_simp
  then have plain: "plainURL ?ru" using host(1) by (simp add: plainURL_def emptyURL_def)
  have "escape encodePath ''/callback'' = ''/callback''" by code_simp
  then have "URL_String ?ru = dh_redirectURI (desktopNew port)"
    using URL_String_plain_any [OF plain, of "''''"] by (simp add: desktopNew_def desktopHandlerFor_def emptyURL_def)
  with Parse_URL_String_bare [OF plain] have "Parse (dh_redirectURI (desktopNew port)) = Inr ?ru"
    by (simp add: emptyURL_def)
  moreover have "Hostname ?ru = ''127.0.0.1''" "Port ?ru = digitsOf port"
    using host(2) by (simp_all add: Hostname_def Port_def)
  moreover have "desktopNew port = desktopHandlerFor (dh_redirectURI (desktopNew port)) ''127.0.0.1'' (digitsOf port) ''/callback''"
    by (simp add: desktopNew_def desktopHandlerFor_def)
  ultimately show ?thesis
    unfolding NewWithURI_def using digitsOf_digits [of port] by (simp add: isLoopback_def Let_def)
qed

interpretation desktop: logout_flow "desktopAuth (desktopNew port)" "dh_redirectURI (desktopNew port)" muxKeeps
  "desktopLogout (desktopNew port)" "dh_logoutRedirectURI (desktopNew port)" for port
  by (rule NewWithURI_flows [OF desktopNew_NewWithURI]) simp

text \<open>
  Redirect URIs the constructor accepts and no callback can come back on: one whose path the
  multiplexer rewrites (the flow goes on waiting), and one with a fragment (the returned URL
  has its query inside the fragment).
\<close>

lemma unclean_path_waits:
  "case NewWithURI ''http://127.0.0.1:5/a//cb'' of
     Inl _ \<Rightarrow> False
   | Inr h \<Rightarrow> desktopAuth h ''https://idp.example/auth?state=s1'' ''http://127.0.0.1:5/a//cb?code=c&state=s1'' = None"
  by code_simp

lemma fragment_hides_callback:
  "case NewWithURI ''http://127.0.0.1:5/cb#f'' of
     Inl _ \<Rightarrow> False
   | Inr h \<Rightarrow>
       desktopAuth h ''https://idp.example/auth?state=s1'' ''http://127.0.0.1:5/cb?code=c&state=s1'' =
         Some (Inr ''http://127.0.0.1:5/cb#f?code=c&state=s1'') \<and>
       loginCallback ''s1'' ''http://127.0.0.1:5/cb#f?code=c&state=s1'' = Inl ErrStateMismatch"
  by code_simp

end
