(* ===== verification/Transport.thy ===== *)
theory Transport
  imports Access_Token Go_Http
begin

text \<open>
  The bearer-token HTTP transport (\<open>transport.go\<close>). Requests live in a store of addresses,
  because \<open>RoundTrip\<close> may not modify the request it is given: what it sends is that request
  or a clone of it. Headers are Go's maps from canonical names to lists of values.
\<close>

section \<open>Requests and headers\<close>

record http_request =
  rq_url :: string
  rq_header :: header

type_synonym request_store = "nat \<Rightarrow> http_request option"

text \<open>\<open>req.Clone\<close> into a free address.\<close>

definition Clone :: "nat \<Rightarrow> http_request \<Rightarrow> request_store \<Rightarrow> request_store" where
  "Clone q r st = st(q \<mapsto> r)"

section \<open>The transport\<close>

text \<open>
  \<open>BearerTransport\<close> panics (\<open>None\<close>) on a nil token function and substitutes the default base
  transport for a nil one. A token function is a call on the client that may not return.
\<close>

type_synonym 's tokenFn = "unit \<Rightarrow> 's client \<Rightarrow> string returned \<times> 's client"

record 's bearerTransport =
  bt_tokenFn :: "'s tokenFn"
  bt_base :: nat

definition BearerTransport :: "nat \<Rightarrow> 's tokenFn option \<Rightarrow> nat option \<Rightarrow> 's bearerTransport option" where
  "BearerTransport defaultTransport tokenFn base =
     (case tokenFn of
        None \<Rightarrow> None
      | Some f \<Rightarrow> Some \<lparr>bt_tokenFn = f, bt_base = (case base of None \<Rightarrow> defaultTransport | Some b \<Rightarrow> b)\<rparr>)"

text \<open>
  \<open>RoundTrip\<close> up to the call of the base transport: which transport gets which request.
  \<open>q\<close> is the address a clone would get.
\<close>

definition RoundTrip ::
  "'s bearerTransport \<Rightarrow> nat \<Rightarrow> nat \<Rightarrow> request_store \<Rightarrow> 's client \<Rightarrow>
   ((nat \<times> nat) \<times> request_store) option returned \<times> 's client" where
  "RoundTrip t q req st c =
     (case bt_tokenFn t () c of
        (None, c) \<Rightarrow> (None, c)
      | (Some token, c) \<Rightarrow>
          (Some (case st req of
             None \<Rightarrow> None
           | Some r \<Rightarrow>
               if token \<noteq> ''''
               then Some ((bt_base t, q),
                          Clone q (r\<lparr>rq_header := Header_Set (rq_header r) ''Authorization'' (''Bearer '' @ token)\<rparr>) st)
               else if Header_Get (rq_header r) ''Authorization'' \<noteq> ''''
               then Some ((bt_base t, q),
                          Clone q (r\<lparr>rq_header := Header_Del (rq_header r) ''Authorization''\<rparr>) st)
               else Some ((bt_base t, req), st)), c))"

section \<open>What is sent\<close>

lemma Header_Get_simps [simp]:
  "Header_Get (Header_Set h k v) k = v" "Header_Get (Header_Del h k) k = ''''"
  by (simp_all add: Header_Get_def Header_Set_def Header_Del_def)

text \<open>
  C33: a request sent through the transport carries exactly the token the token function
  returned. With a token, the request sent has one \<open>Authorization\<close> value, the bearer token,
  and without one no \<open>Authorization\<close> value that \<open>Get\<close> would see; everything else is as the
  caller wrote it, and the caller's own request is not modified. Over a client's \<open>TokenFn\<close>,
  a client without a session or with a failed integrity check sends no token.
\<close>

theorem bearer_round_trip:
  assumes "BearerTransport dflt (Some (TokenFn ops env)) base = Some t"
    and "st req = Some r" and "st q = None"
    and "accessToken ops env c = (Some token, c')"
  shows "\<exists>sent st' r'. RoundTrip t q req st c = (Some (Some ((bt_base t, sent), st')), c') \<and>
           (base \<noteq> None \<longrightarrow> Some (bt_base t) = base) \<and>
           st' req = Some r \<and> st' sent = Some r' \<and> rq_url r' = rq_url r \<and>
           (\<forall>k. k \<noteq> ''Authorization'' \<longrightarrow> rq_header r' k = rq_header r k) \<and>
           (token \<noteq> '''' \<longrightarrow> rq_header r' ''Authorization'' = Some [''Bearer '' @ token]) \<and>
           (token = '''' \<longrightarrow> Header_Get (rq_header r') ''Authorization'' = '''') \<and>
           (TokenState_IsZero (state c) \<or> refreshIntegrityBlockedLocked c \<longrightarrow> token = '''')"
proof -
  have fn: "bt_tokenFn t () c = (Some token, c')" using assms(1,4) by (auto simp: BearerTransport_def TokenFn_def)
  have base: "base \<noteq> None \<longrightarrow> Some (bt_base t) = base"
    using assms(1) by (auto simp: BearerTransport_def)
  have none: "TokenState_IsZero (state c) \<or> refreshIntegrityBlockedLocked c \<longrightarrow> token = ''''"
    using assms(4) by (auto simp: accessToken_def)
  have neq: "req \<noteq> q" using assms(2,3) by auto
  consider (set) "token \<noteq> ''''" | (del) "token = ''''" "Header_Get (rq_header r) ''Authorization'' \<noteq> ''''"
    | (keep) "token = ''''" "Header_Get (rq_header r) ''Authorization'' = ''''" by blast
  then show ?thesis
  proof cases
    case set
    let ?r = "r\<lparr>rq_header := Header_Set (rq_header r) ''Authorization'' (''Bearer '' @ token)\<rparr>"
    show ?thesis using set fn assms(2) base none neq
      by (intro exI [of _ q] exI [of _ "Clone q ?r st"] exI [of _ ?r])
        (simp add: RoundTrip_def Clone_def Header_Set_def)
  next
    case del
    let ?r = "r\<lparr>rq_header := Header_Del (rq_header r) ''Authorization''\<rparr>"
    show ?thesis using del fn assms(2) base neq
      by (intro exI [of _ q] exI [of _ "Clone q ?r st"] exI [of _ ?r])
        (simp add: RoundTrip_def Clone_def Header_Del_def Header_Get_def)
  next
    case keep
    then show ?thesis using fn assms(2) base
      by (intro exI [of _ req] exI [of _ st] exI [of _ r]) (simp add: RoundTrip_def)
  qed
qed

definition sampleRequest :: http_request where
  "sampleRequest = \<lparr>rq_url = ''https://api.example'', rq_header = (\<lambda>_. None)\<rparr>"

definition sampleRequests :: request_store where
  "sampleRequests = [4 \<mapsto> sampleRequest]"

theorem bearer_round_trip_witness:
  "\<exists>sent st' r'. RoundTrip \<lparr>bt_tokenFn = TokenFn memoryStore (sampleAccessEnv (Inl sampleRefusal) 10), bt_base = 1\<rparr>
       5 4 sampleRequests sampleClient = (Some (Some ((1, sent), st')), sampleClient) \<and> st' sent = Some r' \<and>
     rq_header r' ''Authorization'' = Some [''Bearer '' @ AccessToken sampleState]"
proof -
  let ?env = "sampleAccessEnv (Inl sampleRefusal) 10"
  let ?t = "\<lparr>bt_tokenFn = TokenFn memoryStore ?env, bt_base = 1\<rparr> :: token_state bearerTransport"
  have 1: "BearerTransport 0 (Some (TokenFn memoryStore ?env)) (Some 1) = Some ?t"
    by (simp add: BearerTransport_def)
  have valid: "\<not> TokenState_IsZero (state sampleClient)" "\<not> refreshIntegrityBlockedLocked sampleClient"
    "tokenValid (atSec 10) (state sampleClient)" by code_simp+
  have 2: "accessToken memoryStore ?env sampleClient = (Some (AccessToken sampleState), sampleClient)"
    using valid by (simp add: accessToken_def)
  have 3: "AccessToken sampleState \<noteq> ''''" by code_simp
  have 4: "sampleRequests 4 = Some sampleRequest" "sampleRequests 5 = None" by (simp_all add: sampleRequests_def)
  from bearer_round_trip [OF 1 4 2] 3 show ?thesis by auto
qed

text \<open>
  A header whose first \<open>Authorization\<close> value is empty is not looked at any further: without
  a token it is sent as it is, later values included.
\<close>

lemma RoundTrip_keeps_later_values:
  "RoundTrip \<lparr>bt_tokenFn = (\<lambda>_ c. (Some '''', c)), bt_base = 1\<rparr> q 4
     [4 \<mapsto> \<lparr>rq_url = ''https://api.example'', rq_header = [''Authorization'' \<mapsto> ['''', ''Basic secret'']]\<rparr>] c =
   (Some (Some ((1, 4), [4 \<mapsto> \<lparr>rq_url = ''https://api.example'',
       rq_header = [''Authorization'' \<mapsto> ['''', ''Basic secret'']]\<rparr>])), c)"
  by (simp add: RoundTrip_def Header_Get_def)

end
