(* ===== verification/OS_Files.thy ===== *)
theory OS_Files
  imports Go_Errors
begin

text \<open>
  The part of Go's \<open>os\<close> and \<open>io\<close> packages the encrypted file store is written in. A file
  system is a map from names to inodes with a second map of what the directories hold on
  disk; an inode says whether its data has been synced. Every system call first consults a
  script of faults, so that a statement about all scripts covers every call failing at any
  point, a process that stops in the middle included. Paths are absolute and clean, hence
  lists of components; a name that is a symbolic link resolves to its target.
\<close>

section \<open>Files, names and faults\<close>

type_synonym path = "string list"

datatype ftype = RegularFile | Directory | Symlink path | OtherFile

record finode =
  i_type :: ftype
  i_perm :: nat
  i_data :: string
  i_synced :: bool

text \<open>
  \<open>fs_tempNames\<close> are the random suffixes \<open>os.CreateTemp\<close> will try, \<open>fs_entropy\<close> the bytes the
  random source still has, \<open>fs_fixedPerm\<close> the mode bits of a file system that accepts a
  mode change and ignores it. A fault is a message and, for a write, the number of bytes
  that reached the file. The platform is Windows, macOS or, by default, Linux; \<open>fs_exec\<close> is
  what a program prints, and \<open>fs_registry\<close> a key of the machine's registry, if it opens, with
  the bytes of its values.
\<close>

record osenv =
  fs_names :: "path \<Rightarrow> nat option"
  fs_durable :: "path \<Rightarrow> nat option"
  fs_inodes :: "nat \<Rightarrow> finode"
  fs_next :: nat
  fs_faults :: "(string \<times> nat) option list"
  fs_readFault :: "string option"
  fs_tempNames :: "string list"
  fs_entropy :: string
  fs_fixedPerm :: "nat option"
  fs_windows :: bool
  fs_darwin :: bool
  fs_exec :: "string \<Rightarrow> string list \<Rightarrow> string result"
  fs_registry :: "string \<Rightarrow> string \<Rightarrow> string result result"

definition ErrNotExist :: goerror where "ErrNotExist = OtherError ''file does not exist''"
definition ErrExist :: goerror where "ErrExist = OtherError ''file already exists''"

definition renderPath :: "path \<Rightarrow> string" where
  "renderPath p = concat (map (\<lambda>s. ''/'' @ s) p)"

definition pathError :: "string \<Rightarrow> path \<Rightarrow> goerror \<Rightarrow> goerror" where
  "pathError op p e = Errorf [Txt op, Txt '' '', Txt (renderPath p), Txt '': '', Wrapped e]"

definition sysErr :: "string \<Rightarrow> goerror" where "sysErr msg = Errorf [Txt msg]"

definition nextFault :: "osenv \<Rightarrow> (string \<times> nat) option \<times> osenv" where
  "nextFault env =
     (case fs_faults env of
        [] \<Rightarrow> (None, env)
      | f # rest \<Rightarrow> (f, env\<lparr>fs_faults := rest\<rparr>))"

text \<open>\<open>errors.Join\<close> of an error with one that may be nil, and of two that may be nil.\<close>

definition joinError :: "goerror \<Rightarrow> goerror option \<Rightarrow> goerror" where
  "joinError e rest =
     (case rest of
        None \<Rightarrow> Errorf [Wrapped e]
      | Some e' \<Rightarrow> Errorf [Wrapped e, Txt [CHR 0x0A], Wrapped e'])"

fun joinErrors :: "goerror option \<Rightarrow> goerror option \<Rightarrow> goerror option" where
  "joinErrors None rest = map_option (\<lambda>e. joinError e None) rest"
| "joinErrors (Some e) rest = Some (joinError e rest)"

section \<open>Names\<close>

definition maxLinks :: nat where "maxLinks = 40"

fun resolve :: "nat \<Rightarrow> path \<Rightarrow> osenv \<Rightarrow> nat result" where
  "resolve 0 p env = Inl (sysErr ''too many levels of symbolic links'')"
| "resolve (Suc n) p env =
     (case fs_names env p of
        None \<Rightarrow> Inl ErrNotExist
      | Some i \<Rightarrow>
          (case i_type (fs_inodes env i) of
             Symlink q \<Rightarrow> resolve n q env
           | _ \<Rightarrow> Inr i))"

definition isDirectory :: "path \<Rightarrow> osenv \<Rightarrow> bool" where
  "isDirectory p env \<longleftrightarrow>
     p = [] \<or> (case resolve maxLinks p env of Inl _ \<Rightarrow> False | Inr i \<Rightarrow> i_type (fs_inodes env i) = Directory)"

definition addInode :: "path \<Rightarrow> finode \<Rightarrow> osenv \<Rightarrow> osenv" where
  "addInode p nd env =
     env\<lparr>fs_names := (fs_names env)(p \<mapsto> fs_next env),
         fs_inodes := (fs_inodes env)(fs_next env := nd), fs_next := Suc (fs_next env)\<rparr>"

definition permOr :: "nat \<Rightarrow> osenv \<Rightarrow> nat" where
  "permOr mode env = (case fs_fixedPerm env of None \<Rightarrow> mode | Some m \<Rightarrow> m)"

fun createTempLoop :: "path \<Rightarrow> string \<Rightarrow> string list \<Rightarrow> osenv \<Rightarrow> (path \<times> nat) result \<times> osenv" where
  "createTempLoop dir pre [] env =
     (Inl (pathError ''createtemp'' (dir @ [pre @ ''*'']) ErrExist), env\<lparr>fs_tempNames := []\<rparr>)"
| "createTempLoop dir pre (r # rs) env =
     (let p = dir @ [pre @ r]
      in if fs_names env p \<noteq> None then createTempLoop dir pre rs env
         else (Inr (p, fs_next env),
               (addInode p \<lparr>i_type = RegularFile, i_perm = permOr 384 env, i_data = '''', i_synced = False\<rparr> env)
                 \<lparr>fs_tempNames := rs\<rparr>))"

text \<open>\<open>os.CreateTemp(dir, pre + "*")\<close>: the new file's name and handle.\<close>

definition os_CreateTemp :: "path \<Rightarrow> string \<Rightarrow> osenv \<Rightarrow> (path \<times> nat) result \<times> osenv" where
  "os_CreateTemp dir pre env =
     (case nextFault env of
        (Some (msg, _), env) \<Rightarrow> (Inl (pathError ''open'' dir (sysErr msg)), env)
      | (None, env) \<Rightarrow>
          if \<not> isDirectory dir env then (Inl (pathError ''open'' dir ErrNotExist), env)
          else createTempLoop dir pre (fs_tempNames env) env)"

definition os_Remove :: "path \<Rightarrow> osenv \<Rightarrow> goerror option \<times> osenv" where
  "os_Remove p env =
     (case nextFault env of
        (Some (msg, _), env) \<Rightarrow> (Some (pathError ''remove'' p (sysErr msg)), env)
      | (None, env) \<Rightarrow>
          if fs_names env p = None then (Some (pathError ''remove'' p ErrNotExist), env)
          else (None, env\<lparr>fs_names := (fs_names env)(p := None)\<rparr>))"

definition os_Rename :: "path \<Rightarrow> path \<Rightarrow> osenv \<Rightarrow> goerror option \<times> osenv" where
  "os_Rename a b env =
     (case nextFault env of
        (Some (msg, _), env) \<Rightarrow> (Some (pathError ''rename'' a (sysErr msg)), env)
      | (None, env) \<Rightarrow>
          (case (fs_names env a, fs_names env b) of
             (None, _) \<Rightarrow> (Some (pathError ''rename'' a ErrNotExist), env)
           | (Some i, Some j) \<Rightarrow>
               if i_type (fs_inodes env j) = Directory then (Some (pathError ''rename'' a ErrExist), env)
               else (None, env\<lparr>fs_names := (fs_names env)(a := None, b \<mapsto> i)\<rparr>)
           | (Some i, None) \<Rightarrow> (None, env\<lparr>fs_names := (fs_names env)(a := None, b \<mapsto> i)\<rparr>)))"

definition os_Link :: "path \<Rightarrow> path \<Rightarrow> osenv \<Rightarrow> goerror option \<times> osenv" where
  "os_Link a b env =
     (case nextFault env of
        (Some (msg, _), env) \<Rightarrow> (Some (pathError ''link'' a (sysErr msg)), env)
      | (None, env) \<Rightarrow>
          (case fs_names env a of
             None \<Rightarrow> (Some (pathError ''link'' a ErrNotExist), env)
           | Some i \<Rightarrow>
               if fs_names env b \<noteq> None then (Some (pathError ''link'' a ErrExist), env)
               else (None, env\<lparr>fs_names := (fs_names env)(b \<mapsto> i)\<rparr>)))"

definition os_Lstat :: "path \<Rightarrow> osenv \<Rightarrow> (nat \<times> finode) result \<times> osenv" where
  "os_Lstat p env =
     (case nextFault env of
        (Some (msg, _), env) \<Rightarrow> (Inl (pathError ''lstat'' p (sysErr msg)), env)
      | (None, env) \<Rightarrow>
          (case fs_names env p of
             None \<Rightarrow> (Inl (pathError ''lstat'' p ErrNotExist), env)
           | Some i \<Rightarrow> (Inr (i, fs_inodes env i), env)))"

text \<open>\<open>os.Stat\<close> and \<open>os.Open\<close> follow symbolic links; the root directory always exists.\<close>

definition os_Stat :: "path \<Rightarrow> osenv \<Rightarrow> nat result \<times> osenv" where
  "os_Stat p env =
     (case nextFault env of
        (Some (msg, _), env) \<Rightarrow> (Inl (pathError ''stat'' p (sysErr msg)), env)
      | (None, env) \<Rightarrow>
          (case resolve maxLinks p env of
             Inl e \<Rightarrow> (Inl (pathError ''stat'' p e), env)
           | Inr i \<Rightarrow> (Inr i, env)))"

definition os_Open :: "path \<Rightarrow> osenv \<Rightarrow> nat result \<times> osenv" where
  "os_Open p env =
     (case nextFault env of
        (Some (msg, _), env) \<Rightarrow> (Inl (pathError ''open'' p (sysErr msg)), env)
      | (None, env) \<Rightarrow>
          (case resolve maxLinks p env of
             Inl e \<Rightarrow> (Inl (pathError ''open'' p e), env)
           | Inr i \<Rightarrow> (Inr i, env)))"

definition os_Mkdir :: "path \<Rightarrow> nat \<Rightarrow> osenv \<Rightarrow> goerror option \<times> osenv" where
  "os_Mkdir p mode env =
     (case nextFault env of
        (Some (msg, _), env) \<Rightarrow> (Some (pathError ''mkdir'' p (sysErr msg)), env)
      | (None, env) \<Rightarrow>
          if fs_names env p \<noteq> None then (Some (pathError ''mkdir'' p ErrExist), env)
          else if \<not> isDirectory (butlast p) env then (Some (pathError ''mkdir'' p ErrNotExist), env)
          else (None, addInode p \<lparr>i_type = Directory, i_perm = permOr mode env, i_data = '''', i_synced = True\<rparr> env))"

text \<open>\<open>os.MkdirAll\<close>, over the reversed path.\<close>

fun mkdirAllRev :: "string list \<Rightarrow> nat \<Rightarrow> osenv \<Rightarrow> goerror option \<times> osenv" where
  "mkdirAllRev [] mode env = (None, env)"
| "mkdirAllRev (x # r) mode env =
     (let p = rev (x # r)
      in case os_Stat p env of
           (Inr i, env) \<Rightarrow>
             (if i_type (fs_inodes env i) = Directory then (None, env)
              else (Some (pathError ''mkdir'' p (sysErr ''not a directory'')), env))
         | (Inl _, env) \<Rightarrow>
             (case mkdirAllRev r mode env of
                (Some e, env) \<Rightarrow> (Some e, env)
              | (None, env) \<Rightarrow>
                  (case os_Mkdir p mode env of
                     (None, env) \<Rightarrow> (None, env)
                   | (Some e, env) \<Rightarrow>
                       (case os_Lstat p env of
                          (Inr (i, nd), env) \<Rightarrow> (if i_type nd = Directory then (None, env) else (Some e, env))
                        | (Inl _, env) \<Rightarrow> (Some e, env)))))"

definition os_MkdirAll :: "path \<Rightarrow> nat \<Rightarrow> osenv \<Rightarrow> goerror option \<times> osenv" where
  "os_MkdirAll p mode env = mkdirAllRev (rev p) mode env"

section \<open>Open files\<close>

definition setInode :: "nat \<Rightarrow> finode \<Rightarrow> osenv \<Rightarrow> osenv" where
  "setInode i nd env = env\<lparr>fs_inodes := (fs_inodes env)(i := nd)\<rparr>"

definition file_Chmod :: "nat \<Rightarrow> nat \<Rightarrow> osenv \<Rightarrow> goerror option \<times> osenv" where
  "file_Chmod i mode env =
     (case nextFault env of
        (Some (msg, _), env) \<Rightarrow> (Some (sysErr msg), env)
      | (None, env) \<Rightarrow> (None, setInode i ((fs_inodes env i)\<lparr>i_perm := permOr mode env\<rparr>) env))"

definition file_Stat :: "nat \<Rightarrow> osenv \<Rightarrow> finode result \<times> osenv" where
  "file_Stat i env =
     (case nextFault env of
        (Some (msg, _), env) \<Rightarrow> (Inl (sysErr msg), env)
      | (None, env) \<Rightarrow> (Inr (fs_inodes env i), env))"

definition file_Write :: "nat \<Rightarrow> string \<Rightarrow> osenv \<Rightarrow> goerror option \<times> osenv" where
  "file_Write i data env =
     (case nextFault env of
        (Some (msg, n), env) \<Rightarrow>
          (Some (sysErr msg),
           setInode i ((fs_inodes env i)\<lparr>i_data := i_data (fs_inodes env i) @ take n data, i_synced := False\<rparr>) env)
      | (None, env) \<Rightarrow>
          (None,
           setInode i ((fs_inodes env i)\<lparr>i_data := i_data (fs_inodes env i) @ data, i_synced := False\<rparr>) env))"

definition file_Sync :: "nat \<Rightarrow> osenv \<Rightarrow> goerror option \<times> osenv" where
  "file_Sync i env =
     (case nextFault env of
        (Some (msg, _), env) \<Rightarrow> (Some (sysErr msg), env)
      | (None, env) \<Rightarrow> (None, setInode i ((fs_inodes env i)\<lparr>i_synced := True\<rparr>) env))"

definition file_Close :: "nat \<Rightarrow> osenv \<Rightarrow> goerror option \<times> osenv" where
  "file_Close i env =
     (case nextFault env of
        (Some (msg, _), env) \<Rightarrow> (Some (sysErr msg), env)
      | (None, env) \<Rightarrow> (None, env))"

text \<open>\<open>file.Sync\<close> on a directory: its entries are on disk.\<close>

definition inDirectory :: "path \<Rightarrow> path \<Rightarrow> bool" where
  "inDirectory dir p \<longleftrightarrow> p \<noteq> [] \<and> butlast p = dir"

definition dir_Sync :: "path \<Rightarrow> osenv \<Rightarrow> goerror option \<times> osenv" where
  "dir_Sync dir env =
     (case nextFault env of
        (Some (msg, _), env) \<Rightarrow> (Some (sysErr msg), env)
      | (None, env) \<Rightarrow>
          (None, env\<lparr>fs_durable := (\<lambda>p. if inDirectory dir p then fs_names env p else fs_durable env p)\<rparr>))"

text \<open>\<open>io.ReadFull\<close> on the random source and on a file read from its start.\<close>

definition random_ReadFull :: "nat \<Rightarrow> osenv \<Rightarrow> string result \<times> osenv" where
  "random_ReadFull n env =
     (if length (fs_entropy env) < n then (Inl (OtherError ''unexpected EOF''), env\<lparr>fs_entropy := ''''\<rparr>)
      else (Inr (take n (fs_entropy env)), env\<lparr>fs_entropy := drop n (fs_entropy env)\<rparr>))"

definition file_ReadFull :: "nat \<Rightarrow> nat \<Rightarrow> osenv \<Rightarrow> string result \<times> osenv" where
  "file_ReadFull i n env =
     (case nextFault env of
        (Some (msg, _), env) \<Rightarrow> (Inl (sysErr msg), env)
      | (None, env) \<Rightarrow>
          if length (i_data (fs_inodes env i)) < n then (Inl (OtherError ''unexpected EOF''), env)
          else (Inr (take n (i_data (fs_inodes env i))), env))"

text \<open>One more byte after the first \<open>n\<close>: whether the reader is exactly at the end.\<close>

definition file_AtEOF :: "nat \<Rightarrow> nat \<Rightarrow> osenv \<Rightarrow> bool \<times> osenv" where
  "file_AtEOF i n env =
     (case nextFault env of
        (Some _, env) \<Rightarrow> (False, env)
      | (None, env) \<Rightarrow> (length (i_data (fs_inodes env i)) \<le> n, env))"

text \<open>\<open>os.ReadFile\<close> changes nothing, so its fault is a field of its own.\<close>

definition os_ReadFile :: "path \<Rightarrow> osenv \<Rightarrow> string result" where
  "os_ReadFile p env =
     (case fs_readFault env of
        Some msg \<Rightarrow> Inl (pathError ''read'' p (sysErr msg))
      | None \<Rightarrow>
          (case resolve maxLinks p env of
             Inl e \<Rightarrow> Inl (pathError ''open'' p e)
           | Inr i \<Rightarrow>
               if i_type (fs_inodes env i) = Directory then Inl (pathError ''read'' p (sysErr ''is a directory''))
               else Inr (i_data (fs_inodes env i))))"

text \<open>\<open>fmt.Errorf("msg: %w", err)\<close>.\<close>

definition wrap :: "string \<Rightarrow> goerror \<Rightarrow> goerror" where
  "wrap msg err = Errorf [Txt msg, Txt '': '', Wrapped err]"

end
