(* ===== verification/Machine_Id.thy ===== *)
theory Machine_Id
  imports OS_Files "HOL-Library.Word"
begin

text \<open>
  The machine identifier the store's key is bound to (\<open>filestore/machineid_linux.go\<close>,
  \<open>machineid_darwin.go\<close>, \<open>machineid_windows.go\<close>): a file, the output of a program searched
  with a regular expression, and a registry value in UTF-16.
\<close>

section \<open>Linux\<close>

definition machineID_linux :: "osenv \<Rightarrow> string result" where
  "machineID_linux env =
     (case os_ReadFile [''etc'', ''machine-id''] env of
        Inl err \<Rightarrow> Inl err
      | Inr data \<Rightarrow> Inr (trimSpace data))"

section \<open>macOS\<close>

text \<open>
  The regular expression is a quoted \<open>IOPlatformUUID\<close>, an equals sign between optional white
  space, and a quoted group without quotes. Greedy matching needs no backtracking here: what
  follows each repeated class is not in it.
\<close>

definition isReSpace :: "char \<Rightarrow> bool" where
  "isReSpace ch \<longleftrightarrow> ch \<in> {CHR '' '', CHR 0x09, CHR 0x0A, CHR 0x0C, CHR 0x0D}"

definition quoteChar :: char where "quoteChar = CHR 0x22"

definition uuidKey :: string where "uuidKey = [quoteChar] @ ''IOPlatformUUID'' @ [quoteChar]"

text \<open>A literal character after optional white space.\<close>

definition skipTo :: "char \<Rightarrow> string \<Rightarrow> string option" where
  "skipTo ch s =
     (case dropWhile isReSpace s of
        [] \<Rightarrow> None
      | x # rest \<Rightarrow> if x = ch then Some rest else None)"

definition quotedGroup :: "string \<Rightarrow> string option" where
  "quotedGroup s =
     (let v = takeWhile (\<lambda>ch. ch \<noteq> quoteChar) s
      in if v = '''' \<or> length v = length s then None else Some v)"

definition uuidHere :: "string \<Rightarrow> string option" where
  "uuidHere s =
     (if take (length uuidKey) s \<noteq> uuidKey then None
      else case skipTo CHR ''='' (drop (length uuidKey) s) of
             None \<Rightarrow> None
           | Some s \<Rightarrow> (case skipTo quoteChar s of None \<Rightarrow> None | Some s \<Rightarrow> quotedGroup s))"

fun findUUID :: "string \<Rightarrow> string option" where
  "findUUID [] = None"
| "findUUID (ch # s) = (case uuidHere (ch # s) of Some v \<Rightarrow> Some v | None \<Rightarrow> findUUID s)"

definition machineID_darwin :: "osenv \<Rightarrow> string result" where
  "machineID_darwin env =
     (case fs_exec env ''ioreg'' [''-rd1'', ''-c'', ''IOPlatformExpertDevice''] of
        Inl err \<Rightarrow> Inl (wrap ''exec ioreg'' err)
      | Inr out \<Rightarrow>
          (case findUUID out of
             None \<Rightarrow> Inl (OtherError ''IOPlatformUUID not found in ioreg output'')
           | Some v \<Rightarrow> Inr (trimSpace v)))"

section \<open>Windows\<close>

text \<open>
  \<open>RegQueryValueEx\<close> fails when the value is longer than the buffer it was told of: 128 bytes
  here, although the buffer has 128 units of two bytes. What the value does not fill stays zero.
\<close>

definition bufLen :: nat where "bufLen = 128"

fun utf16Units :: "string \<Rightarrow> 16 word list" where
  "utf16Units (lo # hi # bs) = word_of_nat (of_char lo + 256 * of_char hi) # utf16Units bs"
| "utf16Units _ = []"

definition RegQueryValueEx :: "string result \<Rightarrow> 16 word list result" where
  "RegQueryValueEx value =
     (case value of
        Inl err \<Rightarrow> Inl err
      | Inr data \<Rightarrow>
          if bufLen < length data then Inl (OtherError ''More data is available.'')
          else Inr (utf16Units (data @ replicate (2 * bufLen - length data) CHR 0x00)))"

text \<open>\<open>syscall.UTF16ToString\<close>: up to the first zero unit, a surrogate without its partner kept as it is.\<close>

definition utf8Encode :: "nat \<Rightarrow> string" where
  "utf8Encode n =
     (if n < 128 then [char_of n]
      else if n < 2048 then [char_of (192 + n div 64), char_of (128 + n mod 64)]
      else if n < 65536
      then [char_of (224 + n div 4096), char_of (128 + n div 64 mod 64), char_of (128 + n mod 64)]
      else [char_of (240 + n div 262144), char_of (128 + n div 4096 mod 64),
            char_of (128 + n div 64 mod 64), char_of (128 + n mod 64)])"

definition highSurrogate :: "16 word \<Rightarrow> bool" where "highSurrogate u \<longleftrightarrow> 0xD800 \<le> u \<and> u < 0xDC00"
definition lowSurrogate :: "16 word \<Rightarrow> bool" where "lowSurrogate u \<longleftrightarrow> 0xDC00 \<le> u \<and> u < 0xE000"

fun decodeWTF16 :: "16 word list \<Rightarrow> string" where
  "decodeWTF16 [] = ''''"
| "decodeWTF16 (u # us) =
     (case us of
        v # us' \<Rightarrow>
          if highSurrogate u \<and> lowSurrogate v
          then utf8Encode (0x10000 + (unat u - 0xD800) * 1024 + (unat v - 0xDC00)) @ decodeWTF16 us'
          else utf8Encode (unat u) @ decodeWTF16 us
      | [] \<Rightarrow> utf8Encode (unat u))"

definition UTF16ToString :: "16 word list \<Rightarrow> string" where
  "UTF16ToString us = decodeWTF16 (takeWhile (\<lambda>u. u \<noteq> 0) us)"

definition cryptographyKey :: string where
  "cryptographyKey = ''SOFTWARE'' @ [CHR 0x5C] @ ''Microsoft'' @ [CHR 0x5C] @ ''Cryptography''"

definition machineID_windows :: "osenv \<Rightarrow> string result" where
  "machineID_windows env =
     (case fs_registry env cryptographyKey ''MachineGuid'' of
        Inl err \<Rightarrow> Inl (wrap ''open registry key'' err)
      | Inr value \<Rightarrow>
          (case RegQueryValueEx value of
             Inl err \<Rightarrow> Inl (wrap ''query registry value'' err)
           | Inr buf \<Rightarrow> Inr (UTF16ToString buf)))"

section \<open>The platform's identifier\<close>

definition machineID :: "osenv \<Rightarrow> string result" where
  "machineID env =
     (if fs_windows env then machineID_windows env
      else if fs_darwin env then machineID_darwin env
      else machineID_linux env)"

section \<open>What is found\<close>

text \<open>The regular expression as the set of its matches at the start of a text.\<close>

definition matchesUUID :: "string \<Rightarrow> string \<Rightarrow> bool" where
  "matchesUUID s v \<longleftrightarrow>
     (\<exists>sp1 sp2 rest. s = uuidKey @ sp1 @ ''='' @ sp2 @ [quoteChar] @ v @ [quoteChar] @ rest \<and>
        (\<forall>ch \<in> set (sp1 @ sp2). isReSpace ch) \<and> v \<noteq> '''' \<and> quoteChar \<notin> set v)"

lemma skipTo_Some:
  assumes "\<not> isReSpace ch"
  shows "skipTo ch s = Some rest \<longleftrightarrow> (\<exists>sp. s = sp @ ch # rest \<and> (\<forall>x \<in> set sp. isReSpace x))"
proof
  assume "skipTo ch s = Some rest"
  then have "dropWhile isReSpace s = ch # rest" by (auto simp: skipTo_def split: list.splits if_splits)
  then have "s = takeWhile isReSpace s @ ch # rest" by (metis takeWhile_dropWhile_id)
  then show "\<exists>sp. s = sp @ ch # rest \<and> (\<forall>x \<in> set sp. isReSpace x)" using set_takeWhileD by metis
next
  assume "\<exists>sp. s = sp @ ch # rest \<and> (\<forall>x \<in> set sp. isReSpace x)"
  then have "dropWhile isReSpace s = ch # rest" using assms by (auto simp: dropWhile_append3 dropWhile_append2)
  then show "skipTo ch s = Some rest" by (simp add: skipTo_def)
qed

lemma quotedGroup_Some:
  "quotedGroup s = Some v \<longleftrightarrow> (\<exists>rest. s = v @ quoteChar # rest) \<and> v \<noteq> '''' \<and> quoteChar \<notin> set v"
proof
  assume g: "quotedGroup s = Some v"
  then have v: "v = takeWhile (\<lambda>ch. ch \<noteq> quoteChar) s" "v \<noteq> ''''" "length v \<noteq> length s"
    by (auto simp: quotedGroup_def Let_def split: if_splits)
  have "dropWhile (\<lambda>ch. ch \<noteq> quoteChar) s \<noteq> []" using v by (metis append_Nil2 takeWhile_dropWhile_id)
  then obtain x rest where d: "dropWhile (\<lambda>ch. ch \<noteq> quoteChar) s = x # rest" by (meson neq_Nil_conv)
  then have "x = quoteChar" using hd_dropWhile [of "\<lambda>ch. ch \<noteq> quoteChar" s] by simp
  with d v(1,2) show "(\<exists>rest. s = v @ quoteChar # rest) \<and> v \<noteq> '''' \<and> quoteChar \<notin> set v"
    by (metis (mono_tags, lifting) set_takeWhileD takeWhile_dropWhile_id)
next
  assume "(\<exists>rest. s = v @ quoteChar # rest) \<and> v \<noteq> '''' \<and> quoteChar \<notin> set v"
  then obtain rest where r: "s = v @ quoteChar # rest" "v \<noteq> ''''" "quoteChar \<notin> set v" by blast
  have "takeWhile (\<lambda>ch. ch \<noteq> quoteChar) (v @ quoteChar # rest) = v"
    using r(3) by (induction v) auto
  with r show "quotedGroup s = Some v" by (simp add: quotedGroup_def)
qed

lemma uuidHere_Some: "uuidHere s = Some v \<longleftrightarrow> matchesUUID s v"
proof -
  have sp: "\<not> isReSpace CHR ''=''" "\<not> isReSpace quoteChar" by (simp_all add: isReSpace_def quoteChar_def)
  have key: "take (length uuidKey) s = uuidKey \<longleftrightarrow> (\<exists>t. s = uuidKey @ t)"
    by (metis append_eq_conv_conj append_take_drop_id)
  have "uuidHere s = Some v \<longleftrightarrow>
      (\<exists>t t2 t3. s = uuidKey @ t \<and> skipTo CHR ''='' t = Some t2 \<and> skipTo quoteChar t2 = Some t3 \<and>
         quotedGroup t3 = Some v)"
    unfolding uuidHere_def using key by (auto split: option.splits)
  then show ?thesis
    unfolding matchesUUID_def skipTo_Some [OF sp(1)] skipTo_Some [OF sp(2)] quotedGroup_Some
    by fastforce
qed

text \<open>The search returns the group of the leftmost match, and fails only when there is none.\<close>

lemma findUUID_leftmost:
  "findUUID s = Some v \<longleftrightarrow>
     (\<exists>k. matchesUUID (drop k s) v \<and> (\<forall>j < k. \<forall>w. \<not> matchesUUID (drop j s) w))"
proof (induction s)
  case Nil
  have "\<not> matchesUUID [] v" by (simp add: matchesUUID_def uuidKey_def)
  then show ?case by simp
next
  case (Cons ch s)
  show ?case
  proof (cases "uuidHere (ch # s)")
    case (Some w)
    then have m: "matchesUUID (drop 0 (ch # s)) w" and "matchesUUID (drop 0 (ch # s)) v \<longleftrightarrow> v = w"
      using uuidHere_Some by (simp, metis drop_0 option.inject)
    with Some show ?thesis by (metis findUUID.simps(2) not_less_zero not_gr_zero option.inject option.simps(5))
  next
    case None
    then have none: "\<not> matchesUUID (ch # s) w" for w using uuidHere_Some by (metis option.distinct(1))
    have "(\<exists>k. matchesUUID (drop k (ch # s)) v \<and> (\<forall>j < k. \<forall>w. \<not> matchesUUID (drop j (ch # s)) w)) \<longleftrightarrow>
        (\<exists>k. matchesUUID (drop k s) v \<and> (\<forall>j < k. \<forall>w. \<not> matchesUUID (drop j s) w))" (is "?l \<longleftrightarrow> ?r")
    proof
      assume ?l
      then obtain k where k: "matchesUUID (drop k (ch # s)) v"
        "\<forall>j < k. \<forall>w. \<not> matchesUUID (drop j (ch # s)) w" by blast
      with none obtain i where i: "k = Suc i" by (cases k) auto
      have "\<forall>j < i. \<forall>w. \<not> matchesUUID (drop j s) w" using k(2) i by (metis Suc_mono drop_Suc_Cons)
      with k(1) i show ?r by auto
    next
      assume ?r
      then obtain k where "matchesUUID (drop (Suc k) (ch # s)) v"
        and k: "\<forall>j < k. \<forall>w. \<not> matchesUUID (drop j s) w" by auto
      moreover have "\<forall>w. \<not> matchesUUID (drop j (ch # s)) w" if "j < Suc k" for j
        using none k that by (cases j) auto
      ultimately show ?l by blast
    qed
    with None Cons.IH show ?thesis by simp
  qed
qed

lemma machineID_darwin_reads:
  assumes "fs_exec env ''ioreg'' [''-rd1'', ''-c'', ''IOPlatformExpertDevice''] = Inr out"
    and "matchesUUID (drop k out) v" and "\<forall>j < k. \<forall>w. \<not> matchesUUID (drop j out) w"
  shows "machineID_darwin env = Inr (trimSpace v)"
proof -
  have "findUUID out = Some v" using assms(2,3) findUUID_leftmost by blast
  then show ?thesis using assms(1) by (simp add: machineID_darwin_def)
qed

text \<open>A value of ASCII characters in little-endian UTF-16, ended by a zero unit.\<close>

definition utf16le :: "string \<Rightarrow> string" where
  "utf16le s = concat (map (\<lambda>ch. [ch, CHR 0x00]) s)"

definition asciiText :: "string \<Rightarrow> bool" where
  "asciiText s \<longleftrightarrow> (\<forall>ch \<in> set s. 0 < (of_char ch :: nat) \<and> (of_char ch :: nat) < 128)"

lemma length_utf16le [simp]: "length (utf16le s) = 2 * length s"
  by (induction s) (simp_all add: utf16le_def)

lemma units_utf16le:
  "utf16Units (utf16le s @ CHR 0x00 # CHR 0x00 # rest) = map (\<lambda>ch. word_of_nat (of_char ch)) s @ 0 # utf16Units rest"
  by (induction s) (simp_all add: utf16le_def)

lemma ascii_unit:
  assumes "0 < (of_char ch :: nat)" and "(of_char ch :: nat) < 128"
  shows "(word_of_nat (of_char ch) :: 16 word) \<noteq> 0" and "unat (word_of_nat (of_char ch) :: 16 word) = of_char ch"
    and "\<not> highSurrogate (word_of_nat (of_char ch))"
proof -
  show u: "unat (word_of_nat (of_char ch) :: 16 word) = of_char ch"
    using assms(2) by (simp add: unat_of_nat)
  then show "(word_of_nat (of_char ch) :: 16 word) \<noteq> 0" using assms(1) by auto
  have "\<not> (0xD800 :: 16 word) \<le> word_of_nat (of_char ch)"
    unfolding word_le_nat_alt u using assms(2) by simp
  then show "\<not> highSurrogate (word_of_nat (of_char ch))" by (simp add: highSurrogate_def)
qed

lemma decodeWTF16_plain:
  "\<not> highSurrogate u \<Longrightarrow> decodeWTF16 (u # us) = utf8Encode (unat u) @ decodeWTF16 us"
  by (cases us) simp_all

declare decodeWTF16.simps(2) [simp del]

lemma UTF16ToString_ascii:
  assumes "asciiText s"
  shows "UTF16ToString (map (\<lambda>ch. word_of_nat (of_char ch)) s @ 0 # us) = s"
proof -
  have "takeWhile (\<lambda>u. u \<noteq> 0) (map (\<lambda>ch. word_of_nat (of_char ch) :: 16 word) s @ 0 # us) =
      map (\<lambda>ch. word_of_nat (of_char ch)) s"
    using assms ascii_unit(1) by (induction s) (auto simp: asciiText_def)
  moreover have "decodeWTF16 (map (\<lambda>ch. word_of_nat (of_char ch)) s) = s"
    using assms
  proof (induction s)
    case (Cons ch s)
    then have ch: "0 < (of_char ch :: nat)" "(of_char ch :: nat) < 128" and s: "asciiText s"
      by (simp_all add: asciiText_def)
    have "utf8Encode (unat (word_of_nat (of_char ch) :: 16 word)) = [ch]"
      unfolding ascii_unit(2) [OF ch] utf8Encode_def using ch(2) by simp
    with Cons.IH [OF s] show ?case
      unfolding list.map decodeWTF16_plain [OF ascii_unit(3) [OF ch]] by simp
  qed simp
  ultimately show ?thesis by (simp add: UTF16ToString_def)
qed

lemma machineID_windows_reads:
  assumes "fs_registry env cryptographyKey ''MachineGuid'' = Inr (Inr (utf16le guid @ [CHR 0x00, CHR 0x00]))"
    and "asciiText guid" and "length guid \<le> 63"
  shows "machineID_windows env = Inr guid"
proof -
  have "RegQueryValueEx (Inr (utf16le guid @ [CHR 0x00, CHR 0x00])) =
      Inr (utf16Units (utf16le guid @ CHR 0x00 # CHR 0x00 # replicate (254 - 2 * length guid) CHR 0x00))"
    using assms(3) by (simp add: RegQueryValueEx_def bufLen_def)
  then show ?thesis
    using assms(1,2) by (simp add: machineID_windows_def units_utf16le UTF16ToString_ascii)
qed

text \<open>A longer value is refused although the buffer could hold it.\<close>

lemma machineID_windows_long:
  assumes "fs_registry env cryptographyKey ''MachineGuid'' = Inr (Inr data)" and "128 < length data"
  shows "machineID_windows env =
    Inl (wrap ''query registry value'' (OtherError ''More data is available.''))"
  using assms by (simp add: machineID_windows_def RegQueryValueEx_def bufLen_def)

end
