(* ===== verification/Filestore.thy ===== *)
theory Filestore
  imports Machine_Id Token_State
begin

text \<open>
  The encrypted file store (\<open>filestore/\<close>): private files staged and published atomically
  (\<open>privatefile.go\<close>, \<open>permissions.go\<close>, \<open>syncdir_*.go\<close>), the encryption key and its fallback
  file (\<open>machineid.go\<close>, \<open>machineid_linux.go\<close>), the sealed format (\<open>encrypt.go\<close>), and the
  store itself (\<open>filestore.go\<close>). AES-GCM, SHA-256 and the JSON form of a token state are
  parameters, gathered in a record.
\<close>

section \<open>Permissions\<close>

fun octal :: "nat \<Rightarrow> string" where
  "octal n = (if n < 8 then [char_of (48 + n)] else octal (n div 8) @ [char_of (48 + n mod 8)])"

declare octal.simps [simp del]

definition dirPerm :: nat where "dirPerm = 448"
definition filePerm :: nat where "filePerm = 384"
definition keySize :: nat where "keySize = 32"

definition permsError :: "nat \<Rightarrow> nat \<Rightarrow> goerror" where
  "permsError got want = OtherError (''permissions are '' @ octal got @ '', want '' @ octal want)"

definition secureFile :: "nat \<Rightarrow> nat \<Rightarrow> osenv \<Rightarrow> goerror option \<times> osenv" where
  "secureFile file mode env =
     (case file_Chmod file mode env of
        (Some err, env) \<Rightarrow> (Some err, env)
      | (None, env) \<Rightarrow>
          if fs_windows env then (None, env)
          else (case file_Stat file env of
                  (Inl err, env) \<Rightarrow> (Some err, env)
                | (Inr info, env) \<Rightarrow>
                    if i_perm info \<noteq> mode then (Some (permsError (i_perm info) mode), env)
                    else (None, env)))"

text \<open>\<open>os.Chmod\<close> by name resolves the name first.\<close>

definition securePath :: "path \<Rightarrow> nat \<Rightarrow> osenv \<Rightarrow> goerror option \<times> osenv" where
  "securePath p mode env =
     (case resolve maxLinks p env of
        Inl err \<Rightarrow> (Some (pathError ''chmod'' p err), env)
      | Inr i \<Rightarrow>
          (case file_Chmod i mode env of
             (Some err, env) \<Rightarrow> (Some (pathError ''chmod'' p err), env)
           | (None, env) \<Rightarrow>
               if fs_windows env then (None, env)
               else (case os_Stat p env of
                       (Inl err, env) \<Rightarrow> (Some err, env)
                     | (Inr i, env) \<Rightarrow>
                         if i_perm (fs_inodes env i) \<noteq> mode
                         then (Some (permsError (i_perm (fs_inodes env i)) mode), env)
                         else (None, env))))"

section \<open>Private files\<close>

text \<open>Windows has no portable flush of a directory.\<close>

definition syncDirectory_windows :: "path \<Rightarrow> osenv \<Rightarrow> goerror option \<times> osenv" where
  [simp]: "syncDirectory_windows p env = (None, env)"

definition syncDirectory :: "path \<Rightarrow> osenv \<Rightarrow> goerror option \<times> osenv" where
  "syncDirectory p env =
     (if fs_windows env then syncDirectory_windows p env
      else if \<not> isDirectory p env then (Some (wrap ''open directory'' ErrNotExist), env)
      else (case nextFault env of
              (Some (msg, _), env) \<Rightarrow> (Some (wrap ''open directory'' (sysErr msg)), env)
            | (None, env) \<Rightarrow>
                (case dir_Sync p env of
                   (Some err, env) \<Rightarrow> (Some (wrap ''sync directory'' err), snd (nextFault env))
                 | (None, env) \<Rightarrow>
                     (case nextFault env of
                        (Some (msg, _), env) \<Rightarrow> (Some (wrap ''close directory'' (sysErr msg)), env)
                      | (None, env) \<Rightarrow> (None, env)))))"

definition removeStagedFile :: "path \<Rightarrow> osenv \<Rightarrow> goerror option \<times> osenv" where
  "removeStagedFile p env =
     (case os_Remove p env of
        (None, env) \<Rightarrow> (None, env)
      | (Some err, env) \<Rightarrow>
          if errors_is err ErrNotExist then (None, env)
          else (Some (wrap (''remove temporary file '' @ renderPath p) err), env))"

text \<open>The deferred function of \<open>stagePrivateFile\<close> on a failure.\<close>

definition discardStaged :: "bool \<Rightarrow> path \<Rightarrow> nat \<Rightarrow> goerror \<Rightarrow> osenv \<Rightarrow> path result \<times> osenv" where
  "discardStaged closed p file resultErr env =
     (let (cleanupErr, env) =
            (if closed then (None, env)
             else case file_Close file env of
                    (None, env) \<Rightarrow> (None, env)
                  | (Some err, env) \<Rightarrow> (Some (wrap ''close failed temporary file'' err), env));
          (removeErr, env) = removeStagedFile p env
      in (Inl (joinError resultErr (joinErrors cleanupErr removeErr)), env))"

definition stagePrivateFile :: "path \<Rightarrow> string \<Rightarrow> string \<Rightarrow> osenv \<Rightarrow> path result \<times> osenv" where
  "stagePrivateFile dir pre data env =
     (case os_CreateTemp dir pre env of
        (Inl err, env) \<Rightarrow> (Inl (wrap ''create temporary file'' err), env)
      | (Inr (p, file), env) \<Rightarrow>
          (case secureFile file filePerm env of
             (Some err, env) \<Rightarrow> discardStaged False p file (wrap ''secure temporary file'' err) env
           | (None, env) \<Rightarrow>
               (case file_Write file data env of
                  (Some err, env) \<Rightarrow> discardStaged False p file (wrap ''write temporary file'' err) env
                | (None, env) \<Rightarrow>
                    (case file_Sync file env of
                       (Some err, env) \<Rightarrow> discardStaged False p file (wrap ''sync temporary file'' err) env
                     | (None, env) \<Rightarrow>
                         (case file_Close file env of
                            (Some err, env) \<Rightarrow> discardStaged True p file (wrap ''close temporary file'' err) env
                          | (None, env) \<Rightarrow> (Inr p, env))))))"

text \<open>The staging directory and the pattern the two callers use for a path.\<close>

definition stageFor :: "path \<Rightarrow> string \<Rightarrow> osenv \<Rightarrow> path result \<times> osenv" where
  "stageFor p data env = stagePrivateFile (butlast p) (''.'' @ last p @ ''-'') data env"

definition writePrivateFileAtomic :: "path \<Rightarrow> string \<Rightarrow> osenv \<Rightarrow> goerror option \<times> osenv" where
  "writePrivateFileAtomic p data env =
     (case stageFor p data env of
        (Inl err, env) \<Rightarrow> (Some err, env)
      | (Inr tempPath, env) \<Rightarrow>
          (case os_Rename tempPath p env of
             (Some err, env) \<Rightarrow>
               (let (removeErr, env) = removeStagedFile tempPath env
                in (Some (joinError (wrap ''replace file'' err) removeErr), env))
           | (None, env) \<Rightarrow>
               (case syncDirectory (butlast p) env of
                  (Some err, env) \<Rightarrow> (Some (wrap ''sync replacement directory'' err), env)
                | (None, env) \<Rightarrow> (None, env))))"

section \<open>The key\<close>

text \<open>
  What other processes do to the file system at the three points where the fallback key's
  code gives them room: before the key file is opened, before it is read, and before a new
  key is published.
\<close>

record keyRace =
  kr_beforeOpen :: "osenv \<Rightarrow> osenv"
  kr_beforeRead :: "osenv \<Rightarrow> osenv"
  kr_beforePublish :: "osenv \<Rightarrow> osenv"

definition keyError :: "path \<Rightarrow> string \<Rightarrow> goerror" where
  "keyError p what = OtherError (''fallback key '' @ renderPath p @ what)"

definition readFallbackKey :: "keyRace \<Rightarrow> path \<Rightarrow> osenv \<Rightarrow> string result \<times> osenv" where
  "readFallbackKey race p env =
     (case os_Lstat p env of
        (Inl err, env) \<Rightarrow> (Inl (wrap (''inspect fallback key '' @ renderPath p) err), env)
      | (Inr (ino, before), env) \<Rightarrow>
          if (case i_type before of Symlink _ \<Rightarrow> True | _ \<Rightarrow> False)
          then (Inl (keyError p '' must not be a symlink''), env)
          else if i_type before \<noteq> RegularFile then (Inl (keyError p '' must be a regular file''), env)
          else if length (i_data before) \<noteq> keySize then (Inl (keyError p '' must be exactly 32 bytes''), env)
          else
            (case os_Open p (kr_beforeOpen race env) of
               (Inl err, env) \<Rightarrow> (Inl (wrap (''open fallback key '' @ renderPath p) err), env)
             | (Inr file, env) \<Rightarrow>
                 (case file_Stat file env of
                    (Inl err, env) \<Rightarrow> (Inl (wrap (''stat fallback key '' @ renderPath p) err), env)
                  | (Inr afterInfo, env) \<Rightarrow>
                      if i_type afterInfo \<noteq> RegularFile \<or> file \<noteq> ino \<or> length (i_data afterInfo) \<noteq> keySize
                      then (Inl (keyError p '' changed while opening''), env)
                      else
                        (case secureFile file filePerm env of
                           (Some err, env) \<Rightarrow> (Inl (wrap (''secure fallback key '' @ renderPath p) err), env)
                         | (None, env) \<Rightarrow>
                             (case file_ReadFull file keySize (kr_beforeRead race env) of
                                (Inl err, env) \<Rightarrow> (Inl (wrap (''read fallback key '' @ renderPath p) err), env)
                              | (Inr key, env) \<Rightarrow>
                                  (case file_AtEOF file keySize env of
                                     (False, env) \<Rightarrow> (Inl (keyError p '' changed while reading''), env)
                                   | (True, env) \<Rightarrow> (Inr key, env)))))))"

definition publishFallbackKey :: "path \<Rightarrow> string \<Rightarrow> osenv \<Rightarrow> goerror option \<times> osenv" where
  "publishFallbackKey p key env =
     (case stageFor p key env of
        (Inl err, env) \<Rightarrow> (Some (wrap (''stage fallback key '' @ renderPath p) err), env)
      | (Inr tempPath, env) \<Rightarrow>
          (case os_Link tempPath p env of
             (Some err, env) \<Rightarrow>
               (case removeStagedFile tempPath env of
                  (Some cleanupErr, env) \<Rightarrow> (Some cleanupErr, env)
                | (None, env) \<Rightarrow> (Some (wrap (''publish fallback key '' @ renderPath p) err), env))
           | (None, env) \<Rightarrow>
               (case removeStagedFile tempPath env of
                  (Some err, env) \<Rightarrow> (Some err, env)
                | (None, env) \<Rightarrow>
                    (case syncDirectory (butlast p) env of
                       (Some err, env) \<Rightarrow> (Some (wrap ''sync fallback key directory'' err), env)
                     | (None, env) \<Rightarrow> (None, env)))))"

definition syncedKey :: "string \<Rightarrow> path \<Rightarrow> string \<Rightarrow> osenv \<Rightarrow> string result \<times> osenv" where
  "syncedKey msg p key env =
     (case syncDirectory (butlast p) env of
        (Some err, env) \<Rightarrow> (Inl (wrap msg err), env)
      | (None, env) \<Rightarrow> (Inr key, env))"

definition fallbackKeyWithReader :: "keyRace \<Rightarrow> path \<Rightarrow> osenv \<Rightarrow> string result \<times> osenv" where
  "fallbackKeyWithReader race p env =
     (case readFallbackKey race p env of
        (Inr key, env) \<Rightarrow> syncedKey ''sync existing fallback key'' p key env
      | (Inl err, env) \<Rightarrow>
          if \<not> errors_is err ErrNotExist then (Inl err, env)
          else
            (case random_ReadFull keySize env of
               (Inl err, env) \<Rightarrow> (Inl (wrap ''generate fallback key'' err), env)
             | (Inr candidate, env) \<Rightarrow>
                 (case publishFallbackKey p candidate (kr_beforePublish race env) of
                    (None, env) \<Rightarrow> (Inr candidate, env)
                  | (Some err, env) \<Rightarrow>
                      if \<not> errors_is err ErrExist then (Inl err, env)
                      else
                        (case readFallbackKey race p env of
                           (Inl err, env) \<Rightarrow> (Inl (wrap ''read concurrently published fallback key'' err), env)
                         | (Inr key, env) \<Rightarrow>
                             syncedKey ''sync concurrently published fallback key'' p key env))))"

section \<open>Sealing\<close>

text \<open>
  The foreign functions: JSON (\<open>representable\<close> are the states JSON keeps: valid UTF-8 tokens,
  times of years 0 to 9999 in zones of whole minutes), AES-GCM and SHA-256. Their documented
  laws are \<open>codecLaws\<close>.
\<close>

record codec =
  marshalState :: "token_state \<Rightarrow> string result"
  unmarshalState :: "string \<Rightarrow> token_state result"
  representable :: "token_state \<Rightarrow> bool"
  gcmSeal :: "string \<Rightarrow> string \<Rightarrow> string \<Rightarrow> string"
  gcmOpen :: "string \<Rightarrow> string \<Rightarrow> string \<Rightarrow> string result"
  sum256 :: "string \<Rightarrow> string"

definition codecLaws :: "codec \<Rightarrow> bool" where
  "codecLaws cd \<longleftrightarrow>
     (\<forall>key nonce p. gcmOpen cd key nonce (gcmSeal cd key nonce p) = Inr p) \<and>
     (\<forall>ts p. representable cd ts \<and> marshalState cd ts = Inr p \<longrightarrow>
        (\<exists>ts'. unmarshalState cd p = Inr ts' \<and> sameTokenState ts ts')) \<and>
     (\<forall>s. length (sum256 cd s) = 32)"

definition nonceSize :: nat where "nonceSize = 12"

definition cipherKeyError :: "string \<Rightarrow> goerror option" where
  "cipherKeyError key =
     (if length key \<in> {16, 24, 32} then None
      else Some (wrap ''aes cipher'' (OtherError ''crypto/aes: invalid key size'')))"

definition encrypt :: "codec \<Rightarrow> string \<Rightarrow> string \<Rightarrow> osenv \<Rightarrow> string result \<times> osenv" where
  "encrypt cd key plaintext env =
     (case cipherKeyError key of
        Some err \<Rightarrow> (Inl err, env)
      | None \<Rightarrow>
          (case random_ReadFull nonceSize env of
             (Inl err, env) \<Rightarrow> (Inl (wrap ''generate nonce'' err), env)
           | (Inr nonce, env) \<Rightarrow> (Inr (nonce @ gcmSeal cd key nonce plaintext), env)))"

definition decrypt :: "codec \<Rightarrow> string \<Rightarrow> string \<Rightarrow> string result" where
  "decrypt cd key data =
     (case cipherKeyError key of
        Some err \<Rightarrow> Inl err
      | None \<Rightarrow>
          if length data < nonceSize then Inl (OtherError ''ciphertext too short'')
          else (case gcmOpen cd key (take nonceSize data) (drop nonceSize data) of
                  Inl err \<Rightarrow> Inl (wrap ''decrypt'' err)
                | Inr plaintext \<Rightarrow> Inr plaintext))"

section \<open>The store\<close>

record fileStore =
  fst_dir :: path
  fst_key :: string
  fst_path :: path

definition tokenFileName :: string where "tokenFileName = ''tokens.enc''"
definition keyFileName :: string where "keyFileName = ''.keyfile''"

definition Store_Save :: "codec \<Rightarrow> fileStore \<Rightarrow> token_state \<Rightarrow> osenv \<Rightarrow> goerror option \<times> osenv" where
  "Store_Save cd s st env =
     (case marshalState cd st of
        Inl err \<Rightarrow> (Some (wrap ''filestore: marshal token state'' err), env)
      | Inr plaintext \<Rightarrow>
          (case encrypt cd (fst_key s) plaintext env of
             (Inl err, env) \<Rightarrow> (Some (wrap ''filestore: encrypt'' err), env)
           | (Inr ciphertext, env) \<Rightarrow>
               (case writePrivateFileAtomic (fst_path s) ciphertext env of
                  (Some err, env) \<Rightarrow> (Some (wrap (''filestore: write '' @ renderPath (fst_path s)) err), env)
                | (None, env) \<Rightarrow> (None, env))))"

definition Store_Load :: "codec \<Rightarrow> fileStore \<Rightarrow> osenv \<Rightarrow> token_state result" where
  "Store_Load cd s env =
     (case os_ReadFile (fst_path s) env of
        Inl err \<Rightarrow>
          if errors_is err ErrNotExist then Inr zeroTokenState
          else Inl (wrap (''filestore: read '' @ renderPath (fst_path s)) err)
      | Inr ciphertext \<Rightarrow>
          (case decrypt cd (fst_key s) ciphertext of
             Inl _ \<Rightarrow> Inr zeroTokenState
           | Inr plaintext \<Rightarrow>
               (case unmarshalState cd plaintext of
                  Inl _ \<Rightarrow> Inr zeroTokenState
                | Inr st \<Rightarrow> Inr st)))"

definition Store_Delete :: "fileStore \<Rightarrow> osenv \<Rightarrow> goerror option \<times> osenv" where
  "Store_Delete s env =
     (case os_Remove (fst_path s) env of
        (None, env) \<Rightarrow> (None, env)
      | (Some err, env) \<Rightarrow>
          if errors_is err ErrNotExist then (None, env)
          else (Some (wrap (''filestore: delete '' @ renderPath (fst_path s)) err), env))"

definition fileStoreOps :: "codec \<Rightarrow> fileStore \<Rightarrow> osenv token_persistence" where
  "fileStoreOps cd s = \<lparr>Save = Store_Save cd s, Load = Store_Load cd s, Delete = Store_Delete s\<rparr>"

definition deriveKeyWithSources ::
  "codec \<Rightarrow> keyRace \<Rightarrow> string \<Rightarrow> path \<Rightarrow> string result \<Rightarrow> osenv \<Rightarrow> string result \<times> osenv" where
  "deriveKeyWithSources cd race appID dir machineIDSource env =
     (case machineIDSource of
        Inr mid \<Rightarrow>
          if mid \<noteq> '''' then (Inr (sum256 cd (appID @ '':'' @ mid)), env)
          else fallbackKeyWithReader race (dir @ [keyFileName]) env
      | Inl _ \<Rightarrow> fallbackKeyWithReader race (dir @ [keyFileName]) env)"

definition deriveKey :: "codec \<Rightarrow> keyRace \<Rightarrow> string \<Rightarrow> path \<Rightarrow> osenv \<Rightarrow> string result \<times> osenv" where
  "deriveKey cd race appID dir env = deriveKeyWithSources cd race appID dir (machineID env) env"

definition validateAppID :: "string \<Rightarrow> goerror option" where
  "validateAppID appID =
     (if trimSpace appID = '''' then Some (OtherError ''filestore: appID is required'') else None)"

definition newStore :: "codec \<Rightarrow> keyRace \<Rightarrow> string \<Rightarrow> path \<Rightarrow> osenv \<Rightarrow> fileStore result \<times> osenv" where
  "newStore cd race appID dir env =
     (case validateAppID appID of
        Some err \<Rightarrow> (Inl err, env)
      | None \<Rightarrow>
          (case os_MkdirAll dir dirPerm env of
             (Some err, env) \<Rightarrow> (Inl (wrap (''filestore: create directory '' @ renderPath dir) err), env)
           | (None, env) \<Rightarrow>
               (case securePath dir dirPerm env of
                  (Some err, env) \<Rightarrow> (Inl (wrap (''filestore: secure directory '' @ renderPath dir) err), env)
                | (None, env) \<Rightarrow>
                    (case deriveKey cd race appID dir env of
                       (Inl err, env) \<Rightarrow> (Inl (wrap ''filestore: derive key'' err), env)
                     | (Inr key, env) \<Rightarrow>
                         (Inr \<lparr>fst_dir = dir, fst_key = key, fst_path = dir @ [tokenFileName]\<rparr>, env)))))"

text \<open>\<open>filepath.Join\<close> of a clean absolute path with a name the caller chose.\<close>

definition joinPath :: "path \<Rightarrow> string \<Rightarrow> path" where
  "joinPath p name =
     foldl (\<lambda>p c. if c = '''' \<or> c = ''.'' then p else if c = ''..'' then butlast p else p @ [c])
       p (splitOn CHR ''/'' name)"

definition DefaultDir :: "path result \<Rightarrow> string \<Rightarrow> path result" where
  "DefaultDir userConfigDir appID =
     (case validateAppID appID of
        Some err \<Rightarrow> Inl err
      | None \<Rightarrow>
          (case userConfigDir of
             Inl err \<Rightarrow> Inl (wrap ''filestore: resolve user config dir'' err)
           | Inr base \<Rightarrow> Inr (joinPath base appID)))"

definition NewDefault ::
  "codec \<Rightarrow> keyRace \<Rightarrow> path result \<Rightarrow> string \<Rightarrow> osenv \<Rightarrow> fileStore result \<times> osenv" where
  "NewDefault cd race userConfigDir appID env =
     (case DefaultDir userConfigDir appID of
        Inl err \<Rightarrow> (Inl err, env)
      | Inr dir \<Rightarrow> newStore cd race appID dir env)"

section \<open>What the system calls change\<close>

text \<open>An operation on an open file changes at most that file's inode.\<close>

definition touched :: "nat \<Rightarrow> finode \<Rightarrow> osenv \<Rightarrow> osenv \<Rightarrow> bool" where
  "touched i nd env env' \<longleftrightarrow>
     fs_names env' = fs_names env \<and> fs_durable env' = fs_durable env \<and> fs_next env' = fs_next env \<and>
     (fs_windows env' \<longleftrightarrow> fs_windows env) \<and> fs_fixedPerm env' = fs_fixedPerm env \<and>
     fs_readFault env' = fs_readFault env \<and> fs_inodes env' = (fs_inodes env)(i := nd)"

lemma nextFault_frame: "nextFault env = (f, env') \<Longrightarrow> \<exists>fs. env' = env\<lparr>fs_faults := fs\<rparr>"
  by (cases "fs_faults env") (auto simp: nextFault_def intro: exI [of _ "fs_faults env"])

lemma touched_same: "\<exists>fs. env' = env\<lparr>fs_faults := fs\<rparr> \<Longrightarrow> touched i (fs_inodes env i) env env'"
  by (auto simp: touched_def)

lemma touched_faults [simp]: "touched i (fs_inodes env i) env (env\<lparr>fs_faults := fs\<rparr>)"
  by (auto simp: touched_def)

lemma touched_trans: "touched i nd env env1 \<Longrightarrow> touched i nd' env1 env2 \<Longrightarrow> touched i nd' env env2"
  by (auto simp: touched_def)

lemma touched_simps:
  assumes "touched i nd env env'"
  shows "fs_names env' = fs_names env" "fs_durable env' = fs_durable env" "fs_next env' = fs_next env"
    "fs_windows env' = fs_windows env" "fs_fixedPerm env' = fs_fixedPerm env"
    "fs_readFault env' = fs_readFault env" "fs_inodes env' = (fs_inodes env)(i := nd)"
  using assms by (auto simp: touched_def)

lemma file_Chmod_touched:
  assumes "file_Chmod i m env = (r, env')"
  shows "\<exists>pm. touched i ((fs_inodes env i)\<lparr>i_perm := pm\<rparr>) env env'"
proof (cases "nextFault env")
  case (Pair f e)
  then obtain fs where e: "e = env\<lparr>fs_faults := fs\<rparr>" using nextFault_frame by blast
  have "touched i ((fs_inodes env i)\<lparr>i_perm := i_perm (fs_inodes env i)\<rparr>) env e"
    by (simp add: e)
  moreover have "touched i ((fs_inodes env i)\<lparr>i_perm := permOr m e\<rparr>) env
      (setInode i ((fs_inodes e i)\<lparr>i_perm := permOr m e\<rparr>) e)"
    using e by (auto simp: touched_def setInode_def)
  ultimately show ?thesis using assms Pair by (cases f) (auto simp only: file_Chmod_def split: prod.splits option.splits)
qed

lemma file_Write_touched:
  assumes "file_Write i data env = (r, env')"
  shows "\<exists>nd. touched i nd env env' \<and>
           (r = None \<longrightarrow> nd = (fs_inodes env i)\<lparr>i_data := i_data (fs_inodes env i) @ data, i_synced := False\<rparr>)"
proof (cases "nextFault env")
  case (Pair f e)
  then obtain fs where e: "e = env\<lparr>fs_faults := fs\<rparr>" using nextFault_frame by blast
  have "touched i ((fs_inodes env i)\<lparr>i_data := d, i_synced := False\<rparr>) env
      (setInode i ((fs_inodes e i)\<lparr>i_data := d, i_synced := False\<rparr>) e)" for d
    using e by (auto simp: touched_def setInode_def)
  then show ?thesis using assms Pair e
    by (auto simp: file_Write_def split: option.splits)
qed

lemma file_Sync_touched:
  assumes "file_Sync i env = (r, env')"
  shows "\<exists>nd. touched i nd env env' \<and> (r = None \<longrightarrow> nd = (fs_inodes env i)\<lparr>i_synced := True\<rparr>)"
proof (cases "nextFault env")
  case (Pair f e)
  then obtain fs where e: "e = env\<lparr>fs_faults := fs\<rparr>" using nextFault_frame by blast
  have "touched i (fs_inodes env i) env e" by (simp add: e)
  moreover have "touched i ((fs_inodes env i)\<lparr>i_synced := True\<rparr>) env
      (setInode i ((fs_inodes e i)\<lparr>i_synced := True\<rparr>) e)"
    using e by (auto simp: touched_def setInode_def)
  ultimately show ?thesis using assms Pair
    by (auto simp: file_Sync_def split: option.splits)
qed

lemma file_Close_touched: "file_Close i env = (r, env') \<Longrightarrow> touched i (fs_inodes env i) env env'"
  by (rule touched_same) (auto simp: file_Close_def split: prod.splits option.splits dest!: nextFault_frame)

lemma file_Stat_touched:
  "file_Stat i env = (r, env') \<Longrightarrow>
   touched i (fs_inodes env i) env env' \<and> (\<forall>nd. r = Inr nd \<longrightarrow> nd = fs_inodes env i)"
  by (auto simp: file_Stat_def intro!: touched_same split: prod.splits option.splits dest!: nextFault_frame)

lemma secureFile_touched:
  assumes "secureFile i m env = (r, env')"
  shows "\<exists>pm. touched i ((fs_inodes env i)\<lparr>i_perm := pm\<rparr>) env env' \<and>
           (r = None \<and> \<not> fs_windows env \<longrightarrow> pm = m)"
proof (cases "file_Chmod i m env")
  case (Pair r1 e1)
  then obtain pm where t: "touched i ((fs_inodes env i)\<lparr>i_perm := pm\<rparr>) env e1"
    using file_Chmod_touched by blast
  note s = touched_simps [OF t]
  show ?thesis
  proof (cases "r1 = None \<and> \<not> fs_windows e1")
    case True
    obtain r2 e2 where st: "file_Stat i e1 = (r2, e2)" by fastforce
    note t2 = file_Stat_touched [OF st]
    have "touched i ((fs_inodes env i)\<lparr>i_perm := pm\<rparr>) env e2"
      using touched_trans [OF t conjunct1 [OF t2]] s(7) by simp
    then show ?thesis using assms Pair True st t2 s(4,7)
      by (auto simp: secureFile_def split: sum.splits if_splits)
  next
    case False
    then show ?thesis using assms Pair t s(4)
      by (auto simp: secureFile_def split: option.splits if_splits)
  qed
qed

section \<open>Staging\<close>

text \<open>The names \<open>stageFor\<close> may create for a path, and the changes confined to them.\<close>

definition tempOf :: "path \<Rightarrow> path \<Rightarrow> bool" where
  "tempOf p q \<longleftrightarrow> (\<exists>r. q = butlast p @ [''.'' @ last p @ ''-'' @ r])"

definition onlyTemp :: "path \<Rightarrow> osenv \<Rightarrow> osenv \<Rightarrow> bool" where
  "onlyTemp p env env' \<longleftrightarrow>
     fs_durable env' = fs_durable env \<and> fs_windows env' = fs_windows env \<and>
     fs_readFault env' = fs_readFault env \<and> fs_next env \<le> fs_next env' \<and>
     (\<forall>q. \<not> tempOf p q \<longrightarrow> fs_names env' q = fs_names env q) \<and>
     (\<forall>i < fs_next env. fs_inodes env' i = fs_inodes env i) \<and>
     (\<forall>q i. fs_names env' q = Some i \<longrightarrow> fs_names env q = Some i \<or> fs_next env \<le> i \<and> i < fs_next env')"

lemma not_tempOf_self [simp]: "p \<noteq> [] \<Longrightarrow> \<not> tempOf p p"
proof
  assume "p \<noteq> []" and "tempOf p p"
  then obtain r where "p = butlast p @ [''.'' @ last p @ ''-'' @ r]" by (auto simp: tempOf_def)
  then have "last p = ''.'' @ last p @ ''-'' @ r" by (metis last_snoc)
  then have "length (last p) = length (''.'' @ last p @ ''-'' @ r)" by metis
  then show False by simp
qed

lemma onlyTemp_faults: "\<exists>fs. env' = env\<lparr>fs_faults := fs\<rparr> \<Longrightarrow> onlyTemp p env env'"
  by (auto simp: onlyTemp_def)

lemma onlyTemp_touched:
  assumes "onlyTemp p env e" and "touched i nd e e'" and "fs_next env \<le> i"
  shows "onlyTemp p env e'"
  using assms(1,3) touched_simps [OF assms(2)] by (auto simp: onlyTemp_def)

lemma onlyTemp_remove:
  assumes "onlyTemp p env e" and "tempOf p q" and "removeStagedFile q e = (r, e')"
  shows "onlyTemp p env e'"
proof -
  have "\<exists>fs. e' = e\<lparr>fs_faults := fs\<rparr> \<or> e' = e\<lparr>fs_faults := fs, fs_names := (fs_names e)(q := None)\<rparr>"
    using assms(3)
    by (auto simp: removeStagedFile_def os_Remove_def split: prod.splits option.splits if_splits
        dest!: nextFault_frame)
  then show ?thesis using assms(1,2)
    by (elim exE disjE; simp add: onlyTemp_def; metis option.distinct(1))
qed

lemma createTempLoop_spec:
  assumes "createTempLoop (butlast p) (''.'' @ last p @ ''-'') rs env = (r, env')"
  shows "onlyTemp p env env' \<and>
         (\<forall>t i. r = Inr (t, i) \<longrightarrow> tempOf p t \<and> i = fs_next env \<and> fs_names env' t = Some i \<and>
            i_type (fs_inodes env' i) = RegularFile \<and> i_data (fs_inodes env' i) = '''')"
  using assms
proof (induction "butlast p" "''.'' @ last p @ ''-''" rs env rule: createTempLoop.induct)
  case (1 env)
  then show ?case by (auto simp: onlyTemp_def)
next
  case (2 x rs env)
  then show ?case
    by (auto simp: Let_def onlyTemp_def tempOf_def addInode_def split: if_splits)
qed

lemma os_CreateTemp_spec:
  assumes "os_CreateTemp (butlast p) (''.'' @ last p @ ''-'') env = (r, env')"
  shows "onlyTemp p env env' \<and>
         (\<forall>t i. r = Inr (t, i) \<longrightarrow> tempOf p t \<and> i = fs_next env \<and> fs_names env' t = Some i \<and>
            i_type (fs_inodes env' i) = RegularFile \<and> i_data (fs_inodes env' i) = '''')"
proof (cases "nextFault env")
  case (Pair f e)
  then obtain fs where e: "e = env\<lparr>fs_faults := fs\<rparr>" using nextFault_frame by blast
  then have same: "onlyTemp p env e" by (intro onlyTemp_faults) blast
  show ?thesis
  proof (cases "f = None \<and> isDirectory (butlast p) e")
    case True
    then have "createTempLoop (butlast p) (''.'' @ last p @ ''-'') (fs_tempNames e) e = (r, env')"
      using assms Pair by (simp add: os_CreateTemp_def)
    from createTempLoop_spec [OF this] show ?thesis using e by (auto simp: onlyTemp_def)
  next
    case False
    then show ?thesis using assms Pair same
      by (auto simp: os_CreateTemp_def split: option.splits if_splits)
  qed
qed
definition privateFile :: "bool \<Rightarrow> string \<Rightarrow> finode \<Rightarrow> bool" where
  "privateFile onWindows data nd \<longleftrightarrow>
     i_type nd = RegularFile \<and> i_data nd = data \<and> i_synced nd \<and> (\<not> onWindows \<longrightarrow> i_perm nd = filePerm)"

lemma discardStaged_spec:
  assumes "onlyTemp p env e" and "tempOf p t" and "fs_next env \<le> i"
    and "discardStaged closed t i err e = (r, e')"
  shows "onlyTemp p env e' \<and> isl r"
proof -
  obtain ce e1 where c: "(if closed then (None, e) else case file_Close i e of
       (None, env) \<Rightarrow> (None, env) | (Some err, env) \<Rightarrow> (Some (wrap ''close failed temporary file'' err), env)) = (ce, e1)"
    by fastforce
  then have "touched i (fs_inodes e i) e e1 \<or> e1 = e"
    by (auto split: if_splits prod.splits option.splits dest: file_Close_touched)
  then have o1: "onlyTemp p env e1" using onlyTemp_touched [OF assms(1) _ assms(3)] assms(1) by blast
  obtain re e2 where rm: "removeStagedFile t e1 = (re, e2)" by fastforce
  have "e' = e2" "isl r" using assms(4) c rm by (auto simp: discardStaged_def)
  then show ?thesis using onlyTemp_remove [OF o1 assms(2) rm] by simp
qed

lemma stagePrivateFile_Inr:
  assumes "stagePrivateFile dir pre data env = (Inr t, env')"
  obtains i e1 e2 e3 e4 where "os_CreateTemp dir pre env = (Inr (t, i), e1)"
    and "secureFile i filePerm e1 = (None, e2)" and "file_Write i data e2 = (None, e3)"
    and "file_Sync i e3 = (None, e4)" and "file_Close i e4 = (None, env')"
proof -
  have no: "discardStaged closed p i e en \<noteq> (Inr t, env')" for closed p i e en
    by (simp add: discardStaged_def case_prod_beta)
  obtain r e1 where c: "os_CreateTemp dir pre env = (r, e1)" by fastforce
  with assms obtain t' i where r: "r = Inr (t', i)"
    by (cases r) (auto simp: stagePrivateFile_def)
  obtain r2 e2 where s: "secureFile i filePerm e1 = (r2, e2)" by fastforce
  obtain r3 e3 where w: "file_Write i data e2 = (r3, e3)" by fastforce
  obtain r4 e4 where y: "file_Sync i e3 = (r4, e4)" by fastforce
  obtain r5 e5 where cl: "file_Close i e4 = (r5, e5)" by fastforce
  have "r2 = None \<and> r3 = None \<and> r4 = None \<and> r5 = None \<and> t' = t \<and> e5 = env'"
    using assms c r s w y cl no by (auto simp: stagePrivateFile_def split: option.splits)
  with that c r s w y cl show thesis by blast
qed

lemma stageFor_Inr:
  assumes "stageFor p data env = (Inr t, env')"
  shows "onlyTemp p env env' \<and> tempOf p t \<and>
         (\<exists>i \<ge> fs_next env. fs_names env' t = Some i \<and> privateFile (fs_windows env) data (fs_inodes env' i))"
proof -
  from assms obtain i e1 e2 e3 e4 where
      c: "os_CreateTemp (butlast p) (''.'' @ last p @ ''-'') env = (Inr (t, i), e1)"
    and s: "secureFile i filePerm e1 = (None, e2)" and w: "file_Write i data e2 = (None, e3)"
    and y: "file_Sync i e3 = (None, e4)" and cl: "file_Close i e4 = (None, env')"
    unfolding stageFor_def by (rule stagePrivateFile_Inr)
  from os_CreateTemp_spec [OF c] have o: "onlyTemp p env e1" "tempOf p t" "i = fs_next env"
    "fs_names e1 t = Some i" "i_type (fs_inodes e1 i) = RegularFile" "i_data (fs_inodes e1 i) = ''''" by auto
  have win: "fs_windows e1 = fs_windows env" using o(1) by (simp add: onlyTemp_def)
  from secureFile_touched [OF s] obtain pm where t2: "touched i ((fs_inodes e1 i)\<lparr>i_perm := pm\<rparr>) e1 e2"
    and pm: "\<not> fs_windows env \<longrightarrow> pm = filePerm" using win by auto
  have n2: "fs_inodes e2 i = (fs_inodes e1 i)\<lparr>i_perm := pm\<rparr>" using touched_simps(7) [OF t2] by simp
  from file_Write_touched [OF w] have t3: "touched i ((fs_inodes e2 i)\<lparr>i_data := data, i_synced := False\<rparr>) e2 e3"
    using n2 o(6) by auto
  have n3: "fs_inodes e3 i = (fs_inodes e2 i)\<lparr>i_data := data, i_synced := False\<rparr>" using touched_simps(7) [OF t3] by simp
  from file_Sync_touched [OF y] have t4: "touched i ((fs_inodes e3 i)\<lparr>i_synced := True\<rparr>) e3 e4" by auto
  have n4: "fs_inodes e4 i = (fs_inodes e3 i)\<lparr>i_synced := True\<rparr>" using touched_simps(7) [OF t4] by simp
  have t: "touched i (fs_inodes e4 i) e1 env'"
    using touched_trans [OF touched_trans [OF touched_trans [OF t2 t3] t4] file_Close_touched [OF cl]] .
  note ts = touched_simps [OF t]
  have "privateFile (fs_windows env) data (fs_inodes env' i)"
    using n2 n3 n4 o(5) pm ts(7) by (simp add: privateFile_def)
  then show ?thesis using onlyTemp_touched [OF o(1) t] o(2,3,4) ts(1) by auto
qed

lemma stageFor_Inl:
  assumes "stageFor p data env = (Inl err, env')"
  shows "onlyTemp p env env'"
proof (cases "os_CreateTemp (butlast p) (''.'' @ last p @ ''-'') env")
  case (Pair r e1)
  note o = os_CreateTemp_spec [OF Pair]
  show ?thesis
  proof (cases r)
    case (Inl e)
    then show ?thesis using assms Pair o by (simp add: stageFor_def stagePrivateFile_def)
  next
    case (Inr a)
    obtain t i where a: "a = (t, i)" by fastforce
    with o Inr have o: "onlyTemp p env e1" "tempOf p t" and i: "fs_next env \<le> i" by auto
    note step = onlyTemp_touched [OF _ _ i]
    obtain r2 e2 where s: "secureFile i filePerm e1 = (r2, e2)" by fastforce
    have o2: "onlyTemp p env e2" using secureFile_touched [OF s] step o(1) by blast
    obtain r3 e3 where w: "file_Write i data e2 = (r3, e3)" by fastforce
    have o3: "onlyTemp p env e3" using file_Write_touched [OF w] step o2 by blast
    obtain r4 e4 where y: "file_Sync i e3 = (r4, e4)" by fastforce
    have o4: "onlyTemp p env e4" using file_Sync_touched [OF y] step o3 by blast
    obtain r5 e5 where c: "file_Close i e4 = (r5, e5)" by fastforce
    have o5: "onlyTemp p env e5" using file_Close_touched [OF c] step o4 by blast
    show ?thesis using assms Pair Inr a s w y c
      by (auto simp: stageFor_def stagePrivateFile_def split: option.splits
          dest: discardStaged_spec [OF o2 o(2) i] discardStaged_spec [OF o3 o(2) i]
            discardStaged_spec [OF o4 o(2) i] discardStaged_spec [OF o5 o(2) i])
  qed
qed

section \<open>Atomic replacement\<close>

lemma syncDirectory_spec:
  assumes "syncDirectory d env = (r, env')"
  shows "fs_names env' = fs_names env" and "fs_inodes env' = fs_inodes env" and "fs_next env' = fs_next env"
    and "fs_windows env' = fs_windows env" and "fs_readFault env' = fs_readFault env"
    and "fs_durable env' q \<in> {fs_durable env q, fs_names env q}"
    and "\<lbrakk>r = None; \<not> fs_windows env; inDirectory d q\<rbrakk> \<Longrightarrow> fs_durable env' q = fs_names env q"
  using assms
  by (auto simp: syncDirectory_def dir_Sync_def split: if_splits prod.splits option.splits
      dest!: nextFault_frame)

text \<open>Every inode a name refers to, in memory or on disk, is an allocated one.\<close>

definition wfFS :: "osenv \<Rightarrow> bool" where
  "wfFS env \<longleftrightarrow>
     (\<forall>q i. fs_names env q = Some i \<or> fs_durable env q = Some i \<longrightarrow> i < fs_next env)"

lemma onlyTemp_wfFS: "onlyTemp p env env' \<Longrightarrow> wfFS env \<Longrightarrow> wfFS env'"
  unfolding onlyTemp_def wfFS_def by (metis order_less_le_trans)

text \<open>
  What an attempt to replace the file at a path may have done: left the name alone, or moved
  it, in memory and possibly on disk, to a new complete private file.
\<close>

definition replaceOutcome :: "path \<Rightarrow> string \<Rightarrow> osenv \<Rightarrow> bool \<Rightarrow> osenv \<Rightarrow> bool" where
  "replaceOutcome p data env ok env' \<longleftrightarrow>
     (fs_names env' p = fs_names env p \<and> fs_durable env' p = fs_durable env p \<and> \<not> ok) \<or>
     (\<exists>i. fs_next env \<le> i \<and> fs_names env' p = Some i \<and> privateFile (fs_windows env) data (fs_inodes env' i) \<and>
        fs_durable env' p \<in> {fs_durable env p, Some i} \<and>
        (ok \<and> \<not> fs_windows env \<longrightarrow> fs_durable env' p = Some i))"

definition oldInodesKept :: "osenv \<Rightarrow> osenv \<Rightarrow> bool" where
  "oldInodesKept env env' \<longleftrightarrow>
     (\<forall>i < fs_next env. fs_inodes env' i = fs_inodes env i) \<and>
     (fs_windows env' \<longleftrightarrow> fs_windows env) \<and> fs_readFault env' = fs_readFault env"

lemma onlyTemp_kept: "onlyTemp p env env' \<Longrightarrow> oldInodesKept env env'"
  by (simp add: onlyTemp_def oldInodesKept_def)

lemma os_Rename_Some:
  "os_Rename a b env = (Some err, env') \<Longrightarrow> \<exists>fs. env' = env\<lparr>fs_faults := fs\<rparr>"
  by (auto simp: os_Rename_def split: prod.splits option.splits if_splits dest!: nextFault_frame)

lemma os_Rename_None:
  "os_Rename a b env = (None, env') \<Longrightarrow> fs_names env a = Some i \<Longrightarrow>
   \<exists>fs. env' = env\<lparr>fs_faults := fs, fs_names := (fs_names env)(a := None, b \<mapsto> i)\<rparr>"
  by (auto simp: os_Rename_def split: prod.splits option.splits if_splits dest!: nextFault_frame)

lemma writePrivateFileAtomic_spec:
  assumes "p \<noteq> []" and "wfFS env" and "writePrivateFileAtomic p data env = (r, env')"
  shows "wfFS env' \<and> oldInodesKept env env' \<and> replaceOutcome p data env (r = None) env'"
proof (cases "stageFor p data env")
  case (Pair r1 e1)
  show ?thesis
  proof (cases r1)
    case (Inl err)
    with Pair have o: "onlyTemp p env e1" using stageFor_Inl by blast
    moreover have "env' = e1" "r \<noteq> None" using assms(3) Pair Inl by (auto simp: writePrivateFileAtomic_def)
    ultimately show ?thesis using assms(1,2) onlyTemp_wfFS onlyTemp_kept
      by (auto simp: replaceOutcome_def onlyTemp_def)
  next
    case (Inr t)
    with Pair have st: "onlyTemp p env e1" "tempOf p t" using stageFor_Inr by blast+
    from Pair Inr obtain i where i: "fs_next env \<le> i" "fs_names e1 t = Some i"
      "privateFile (fs_windows env) data (fs_inodes e1 i)" using stageFor_Inr by blast
    have wf1: "wfFS e1" using onlyTemp_wfFS [OF st(1) assms(2)] .
    obtain r2 e2 where rn: "os_Rename t p e1 = (r2, e2)" by fastforce
    show ?thesis
    proof (cases r2)
      case (Some err)
      then obtain fs where e2: "e2 = e1\<lparr>fs_faults := fs\<rparr>" using rn os_Rename_Some by blast
      have o2: "onlyTemp p env e2" using st(1) e2 by (simp add: onlyTemp_def)
      obtain r3 e3 where rm: "removeStagedFile t e2 = (r3, e3)" by fastforce
      have "env' = e3" "r \<noteq> None"
        using assms(3) Pair Inr rn Some rm by (auto simp: writePrivateFileAtomic_def)
      moreover have o3: "onlyTemp p env e3" using onlyTemp_remove [OF o2 st(2) rm] .
      ultimately show ?thesis using assms(1,2) onlyTemp_wfFS onlyTemp_kept
        by (auto simp: replaceOutcome_def onlyTemp_def)
    next
      case None
      with rn i(2) obtain fs where e2: "e2 = e1\<lparr>fs_faults := fs, fs_names := (fs_names e1)(t := None, p \<mapsto> i)\<rparr>"
        using os_Rename_None by blast
      obtain r3 e3 where sd: "syncDirectory (butlast p) e2 = (r3, e3)" by fastforce
      note y = syncDirectory_spec [OF sd]
      have r: "env' = e3" "r = None \<longleftrightarrow> r3 = None"
        using assms(3) Pair Inr rn None sd by (auto simp: writePrivateFileAtomic_def split: option.splits)
      have f: "fs_durable e2 = fs_durable env" "fs_windows e2 = fs_windows env" "fs_inodes e2 = fs_inodes e1"
        "fs_names e2 p = Some i" "fs_next e2 = fs_next e1"
        using st(1) e2 by (auto simp: onlyTemp_def)
      have "inDirectory (butlast p) p" using assms(1) by (simp add: inDirectory_def)
      then have d: "fs_durable e3 p \<in> {fs_durable env p, Some i}"
        "r = None \<Longrightarrow> \<not> fs_windows env \<Longrightarrow> fs_durable e3 p = Some i"
        using y(6) [of p] y(7) [of p] f r(2) by simp_all
      have out: "replaceOutcome p data env (r = None) env'"
        unfolding replaceOutcome_def using d y(1,2) f(3,4) i(1,3) r(1) by (intro disjI2 exI [of _ i]) simp
      have "fs_names e2 q = Some j \<Longrightarrow> j < fs_next e1" for q j
        using wf1 i(2) e2 by (auto simp: wfFS_def split: if_splits)
      moreover have "fs_durable e2 q = Some j \<Longrightarrow> j < fs_next e1" for q j
        using wf1 e2 by (auto simp: wfFS_def)
      ultimately have "wfFS env'" using y(1,3) y(6) f(5) r(1) unfolding wfFS_def by (metis insertE singletonD)
      moreover have "oldInodesKept env env'"
        using onlyTemp_kept [OF st(1)] y(2,4,5) f(2,3) e2 r(1) by (simp add: oldInodesKept_def)
      ultimately show ?thesis using out by simp
    qed
  qed
qed

section \<open>The store keeps the persistence contract\<close>

lemma errors_is_pathError [simp]:
  "errors_is (pathError op p e) (OtherError s) \<longleftrightarrow> errors_is e (OtherError s)"
  by (simp add: pathError_def)

lemma errors_is_wrap [simp]: "errors_is (wrap msg e) (OtherError s) \<longleftrightarrow> errors_is e (OtherError s)"
  by (simp add: wrap_def)

lemma errors_is_sysErr [simp]: "\<not> errors_is (sysErr msg) (OtherError s)"
  by (simp add: sysErr_def)

lemma errors_is_ErrNotExist [simp]: "errors_is ErrNotExist ErrNotExist" "errors_is ErrExist ErrExist"
    "\<not> errors_is ErrExist ErrNotExist" "\<not> errors_is ErrNotExist ErrExist"
  by (simp_all add: ErrNotExist_def ErrExist_def)

lemma errors_is_wrapped_os [simp]:
  "errors_is (pathError op p e) ErrNotExist \<longleftrightarrow> errors_is e ErrNotExist"
  "errors_is (pathError op p e) ErrExist \<longleftrightarrow> errors_is e ErrExist"
  "errors_is (wrap msg e) ErrNotExist \<longleftrightarrow> errors_is e ErrNotExist"
  "errors_is (wrap msg e) ErrExist \<longleftrightarrow> errors_is e ErrExist"
  "\<not> errors_is (sysErr msg) ErrNotExist" "\<not> errors_is (sysErr msg) ErrExist"
  by (simp_all add: ErrNotExist_def ErrExist_def)

lemma decrypt_sealed:
  assumes "codecLaws cd" and "length key = 32" and "length nonce = nonceSize"
  shows "decrypt cd key (nonce @ gcmSeal cd key nonce plaintext) = Inr plaintext"
  using assms by (simp add: decrypt_def cipherKeyError_def codecLaws_def)

lemma encrypt_Inr:
  assumes "encrypt cd key plaintext env = (Inr c, env')"
  shows "\<exists>nonce. length nonce = nonceSize \<and> c = nonce @ gcmSeal cd key nonce plaintext"
  using assms
  by (intro exI [of _ "take nonceSize (fs_entropy env)"])
    (auto simp: encrypt_def random_ReadFull_def split: option.splits prod.splits sum.splits if_splits)

lemma encrypt_frame:
  assumes "encrypt cd key plaintext env = (r, env')"
  shows "\<exists>en. env' = env\<lparr>fs_entropy := en\<rparr>"
proof -
  have "env = env\<lparr>fs_entropy := fs_entropy env\<rparr>" by simp
  then have "env' = env \<Longrightarrow> ?thesis" by metis
  then show ?thesis using assms
    by (auto simp: encrypt_def random_ReadFull_def split: option.splits prod.splits sum.splits if_splits)
qed

text \<open>What a \<open>Load\<close> makes of a plain file and of no file.\<close>

lemma maxLinks_Suc: "maxLinks = Suc 39"
  by (simp add: maxLinks_def)

lemmas resolve_maxLinks = resolve.simps(2) [of 39, folded maxLinks_Suc]

lemma os_ReadFile_regular:
  assumes "fs_readFault env = None" and "fs_names env p = Some i" and "i_type (fs_inodes env i) = RegularFile"
  shows "os_ReadFile p env = Inr (i_data (fs_inodes env i))"
proof -
  have "resolve maxLinks p env = Inr i" using assms(2,3) by (simp add: resolve_maxLinks)
  then show ?thesis using assms(1,3) by (simp add: os_ReadFile_def)
qed

lemma os_ReadFile_missing:
  assumes "fs_readFault env = None" and "fs_names env p = None"
  shows "os_ReadFile p env = Inl (pathError ''open'' p ErrNotExist)"
proof -
  have "resolve maxLinks p env = Inl ErrNotExist" using assms(2) by (simp add: resolve_maxLinks)
  then show ?thesis using assms(1) by (simp add: os_ReadFile_def)
qed

lemma os_ReadFile_fault: "fs_readFault env = Some msg \<Longrightarrow> os_ReadFile p env = Inl (pathError ''read'' p (sysErr msg))"
  by (simp add: os_ReadFile_def)

text \<open>A \<open>Save\<close> either fails before it touches a file or is an attempt to replace the token file.\<close>

lemma Store_Save_cases:
  assumes "fst_path s \<noteq> []" and "wfFS env" and "Store_Save cd s ts env = (r, env')"
  shows "wfFS env' \<and> oldInodesKept env env' \<and>
         ((r \<noteq> None \<and> fs_names env' = fs_names env \<and> fs_durable env' = fs_durable env) \<or>
          (\<exists>plain nonce. marshalState cd ts = Inr plain \<and> length nonce = nonceSize \<and>
             replaceOutcome (fst_path s) (nonce @ gcmSeal cd (fst_key s) nonce plain) env (r = None) env'))"
proof (cases "marshalState cd ts")
  case (Inl err)
  then show ?thesis using assms by (auto simp: Store_Save_def oldInodesKept_def)
next
  case (Inr plain)
  obtain r1 e1 where en: "encrypt cd (fst_key s) plain env = (r1, e1)" by fastforce
  then obtain ent where e1: "e1 = env\<lparr>fs_entropy := ent\<rparr>" using encrypt_frame by blast
  have wf1: "wfFS e1" using assms(2) e1 by (simp add: wfFS_def)
  show ?thesis
  proof (cases r1)
    case (Inl err)
    then have "env' = e1 \<and> r \<noteq> None" using assms(3) Inr en by (auto simp: Store_Save_def)
    then show ?thesis using wf1 e1 by (simp add: oldInodesKept_def)
  next
    case c: (Inr c)
    obtain r2 e2 where w: "writePrivateFileAtomic (fst_path s) c e1 = (r2, e2)" by fastforce
    have r: "env' = e2" "r = None \<longleftrightarrow> r2 = None"
      using assms(3) Inr en c w by (auto simp: Store_Save_def split: option.splits)
    from en c obtain nonce where n: "length nonce = nonceSize"
      "c = nonce @ gcmSeal cd (fst_key s) nonce plain" using encrypt_Inr by blast
    note sp = writePrivateFileAtomic_spec [OF assms(1) wf1 w]
    have "wfFS env'" "oldInodesKept env env'"
      using sp r(1) e1 by (simp_all add: oldInodesKept_def)
    moreover have "replaceOutcome (fst_path s) c env (r = None) env'"
      using sp r e1 by (simp add: replaceOutcome_def)
    ultimately show ?thesis using Inr n by blast
  qed
qed

text \<open>Reading back a private file that holds a sealed state.\<close>

lemma Store_Load_sealed:
  assumes "codecLaws cd" and "length (fst_key s) = 32" and "length nonce = nonceSize"
    and "representable cd ts" and "marshalState cd ts = Inr plain" and "unmarshalState cd plain = Inr ts'"
    and "fs_names env (fst_path s) = Some i"
    and "privateFile w (nonce @ gcmSeal cd (fst_key s) nonce plain) (fs_inodes env i)"
    and "fs_readFault env = None"
  shows "Store_Load cd s env = Inr ts'"
  using os_ReadFile_regular [OF assms(9,7)] assms(6,8) decrypt_sealed [OF assms(1,2,3)]
  by (simp add: Store_Load_def privateFile_def)

lemma Store_contract:
  assumes "codecLaws cd" and "length (fst_key s) = 32" and "fst_path s \<noteq> []"
  shows "persistence_contract (fileStoreOps cd s) wfFS (representable cd)"
proof
  fix env env' ts ts'
  assume wf: "wfFS env" and rep: "representable cd ts"
    and save: "Save (fileStoreOps cd s) ts env = (None, env')"
    and load: "Load (fileStoreOps cd s) env' = Inr ts'"
  have save: "Store_Save cd s ts env = (None, env')" and load: "Store_Load cd s env' = Inr ts'"
    using save load by (simp_all add: fileStoreOps_def)
  from Store_Save_cases [OF assms(3) wf save] obtain plain nonce i
    where m: "marshalState cd ts = Inr plain" and n: "length nonce = nonceSize"
      and i: "fs_names env' (fst_path s) = Some i"
        "privateFile (fs_windows env) (nonce @ gcmSeal cd (fst_key s) nonce plain) (fs_inodes env' i)"
    by (auto simp: replaceOutcome_def)
  from assms(1) rep m obtain ts2 where u: "unmarshalState cd plain = Inr ts2" "sameTokenState ts ts2"
    unfolding codecLaws_def by blast
  have "fs_readFault env' = None"
    using load os_ReadFile_fault [of env'] by (cases "fs_readFault env'") (auto simp: Store_Load_def)
  from Store_Load_sealed [OF assms(1,2) n rep m u(1) i this] load u(2)
  show "sameTokenState ts ts'" by simp
next
  fix env env' ts'
  assume wf: "wfFS env" and del: "Delete (fileStoreOps cd s) env = (None, env')"
    and load: "Load (fileStoreOps cd s) env' = Inr ts'"
  have gone: "fs_names env' (fst_path s) = None"
    using del by (auto simp: fileStoreOps_def Store_Delete_def os_Remove_def
        split: prod.splits option.splits if_splits dest!: nextFault_frame)
  have "fs_readFault env' = None"
    using load os_ReadFile_fault [of env'] by (cases "fs_readFault env'") (auto simp: fileStoreOps_def Store_Load_def)
  from os_ReadFile_missing [OF this gone] load show "TokenState_IsZero ts'"
    by (simp add: fileStoreOps_def Store_Load_def)
next
  fix env ts assume "wfFS env"
  then show "wfFS (snd (Save (fileStoreOps cd s) ts env))"
    using Store_Save_cases [OF assms(3), of env cd ts] by (simp add: fileStoreOps_def) (metis prod.collapse)
next
  fix env assume "wfFS env"
  moreover obtain r e where "os_Remove (fst_path s) env = (r, e)" by fastforce
  ultimately show "wfFS (snd (Delete (fileStoreOps cd s) env))"
    by (auto simp: fileStoreOps_def Store_Delete_def os_Remove_def wfFS_def
        split: prod.splits option.splits if_splits dest!: nextFault_frame)
qed


section \<open>The fallback key\<close>

text \<open>A key file, and what no operation here takes away from one.\<close>

definition keyAt :: "path \<Rightarrow> string \<Rightarrow> osenv \<Rightarrow> bool" where
  "keyAt p k env \<longleftrightarrow>
     (case fs_names env p of
        None \<Rightarrow> False
      | Some i \<Rightarrow> i_type (fs_inodes env i) = RegularFile \<and> i_data (fs_inodes env i) = k)"

definition keyKept :: "path \<Rightarrow> osenv \<Rightarrow> osenv \<Rightarrow> bool" where
  "keyKept p env env' \<longleftrightarrow>
     (\<forall>k. keyAt p k env \<longrightarrow> keyAt p k env') \<and>
     (\<forall>i. fs_names env p = Some i \<longrightarrow> fs_names env' p = Some i) \<and> (fs_windows env' \<longleftrightarrow> fs_windows env)"

definition quietRace :: keyRace where
  "quietRace = \<lparr>kr_beforeOpen = id, kr_beforeRead = id, kr_beforePublish = id\<rparr>"

lemma keyKept_trans: "keyKept p a b \<Longrightarrow> keyKept p b c \<Longrightarrow> keyKept p a c"
  by (auto simp: keyKept_def)

lemma touched_perm_keyKept:
  assumes "touched i ((fs_inodes env i)\<lparr>i_perm := pm\<rparr>) env env'"
  shows "keyKept p env env'" "wfFS env' = wfFS env"
  using touched_simps [OF assms]
  by (auto simp: keyKept_def keyAt_def wfFS_def split: option.splits)

lemma faults_keyKept [simp]: "keyKept p env (env\<lparr>fs_faults := fs\<rparr>)" "wfFS (env\<lparr>fs_faults := fs\<rparr>) = wfFS env"
  by (auto simp: keyKept_def keyAt_def wfFS_def split: option.splits)

lemma onlyTemp_keyKept:
  assumes "p \<noteq> []" and "onlyTemp p env env'" and "wfFS env"
  shows "keyKept p env env'"
  using assms not_tempOf_self [OF assms(1)]
  by (auto simp: keyKept_def keyAt_def onlyTemp_def wfFS_def split: option.splits)

lemma readFallbackKey_length:
  "readFallbackKey race p env = (Inr k, env') \<Longrightarrow> length k = 32"
  by (auto simp: readFallbackKey_def file_ReadFull_def keySize_def
      split: prod.splits sum.splits if_splits option.splits bool.splits)

text \<open>Without interference the key read is the content of the file, which becomes private.\<close>

lemma readFallbackKey_quiet:
  assumes "kr_beforeOpen race = id" and "kr_beforeRead race = id"
    and "readFallbackKey race p env = (r, env')"
  shows "\<exists>i pm. touched i ((fs_inodes env i)\<lparr>i_perm := pm\<rparr>) env env' \<and>
           (\<forall>k. r = Inr k \<longrightarrow> keyAt p k env \<and> length k = 32 \<and> fs_names env p = Some i \<and>
                  (\<not> fs_windows env \<longrightarrow> pm = filePerm)) \<and>
           (\<forall>err. r = Inl err \<and> errors_is err ErrNotExist \<longrightarrow> fs_names env p = None)"
proof -
  have keep: ?thesis if "env' = env\<lparr>fs_faults := fs\<rparr>" and "r = Inl e"
      and "errors_is e ErrNotExist \<Longrightarrow> fs_names env p = None" for fs e
    using that by (intro exI [of _ 0] exI [of _ "i_perm (fs_inodes env 0)"]) simp
  obtain r1 e1 where l: "os_Lstat p env = (r1, e1)" by fastforce
  then obtain fs1 where e1: "e1 = env\<lparr>fs_faults := fs1\<rparr>"
    by (auto simp: os_Lstat_def split: prod.splits option.splits dest!: nextFault_frame)
  show ?thesis
  proof (cases r1)
    case (Inl err)
    have "errors_is err ErrNotExist \<Longrightarrow> fs_names env p = None"
      using l Inl by (auto simp: os_Lstat_def split: prod.splits option.splits dest!: nextFault_frame)
    then have "errors_is (wrap (''inspect fallback key '' @ renderPath p) err) ErrNotExist \<Longrightarrow> fs_names env p = None"
      by simp
    moreover have "env' = env\<lparr>fs_faults := fs1\<rparr>" "r = Inl (wrap (''inspect fallback key '' @ renderPath p) err)"
      using assms(3) l Inl e1 by (auto simp: readFallbackKey_def)
    ultimately show ?thesis by (intro keep)
  next
    case (Inr a)
    obtain i nd where a: "a = (i, nd)" by fastforce
    have i: "fs_names env p = Some i" "nd = fs_inodes env i"
      using l Inr a by (auto simp: os_Lstat_def split: prod.splits option.splits dest!: nextFault_frame)
    have notKey: "\<not> errors_is (keyError p what) ErrNotExist" for what
      by (simp add: keyError_def ErrNotExist_def)
    show ?thesis
    proof (cases "i_type nd = RegularFile \<and> length (i_data nd) = keySize")
      case False
      then have "env' = e1 \<and> (\<exists>what. r = Inl (keyError p what))"
        using assms(3) l Inr a by (auto simp: readFallbackKey_def split: ftype.splits if_splits)
      then show ?thesis using keep e1 notKey by blast
    next
      case True
      obtain r2 e2 where o: "os_Open p e1 = (r2, e2)" by fastforce
      obtain fs2 where e2: "e2 = env\<lparr>fs_faults := fs2\<rparr>"
        using o e1 by (auto simp: os_Open_def split: prod.splits option.splits sum.splits dest!: nextFault_frame)
      have r2: "r2 = Inr i \<or> (\<exists>e. r2 = Inl e \<and> \<not> errors_is e ErrNotExist)"
        using o e1 i True by (auto simp: os_Open_def resolve_maxLinks
            split: prod.splits option.splits dest!: nextFault_frame)
      obtain r3 e3 where st: "file_Stat i e2 = (r3, e3)" by fastforce
      obtain fs3 where e3: "e3 = env\<lparr>fs_faults := fs3\<rparr>"
        using st e2 by (auto simp: file_Stat_def split: prod.splits option.splits dest!: nextFault_frame)
      have r3: "r3 = Inr nd \<or> (\<exists>e. r3 = Inl e \<and> \<not> errors_is e ErrNotExist)"
        using st e2 i by (auto simp: file_Stat_def split: prod.splits option.splits dest!: nextFault_frame)
      obtain r4 e4 where s: "secureFile i filePerm e3 = (r4, e4)" by fastforce
      then obtain pm where t4: "touched i ((fs_inodes env i)\<lparr>i_perm := pm\<rparr>) env e4"
        and pm: "r4 = None \<and> \<not> fs_windows env \<longrightarrow> pm = filePerm"
        using secureFile_touched [OF s] e3 by (auto simp: touched_def)
      have r4: "r4 = None \<or> (\<exists>e. r4 = Some e \<and> \<not> errors_is e ErrNotExist)"
        using s by (auto simp: secureFile_def file_Chmod_def file_Stat_def permsError_def ErrNotExist_def
            split: prod.splits option.splits if_splits sum.splits)
      obtain r5 e5 where f: "file_ReadFull i keySize e4 = (r5, e5)" by fastforce
      obtain fs5 where e5: "e5 = e4\<lparr>fs_faults := fs5\<rparr>"
        using f by (auto simp: file_ReadFull_def split: prod.splits option.splits if_splits dest!: nextFault_frame)
      have r5: "r5 = Inr (i_data nd) \<or> (\<exists>e. r5 = Inl e \<and> \<not> errors_is e ErrNotExist)"
        using f True i touched_simps(7) [OF t4]
        by (auto simp: file_ReadFull_def ErrNotExist_def split: prod.splits option.splits if_splits dest!: nextFault_frame)
      obtain r6 e6 where q: "file_AtEOF i keySize e5 = (r6, e6)" by fastforce
      obtain fs6 where e6: "e6 = e4\<lparr>fs_faults := fs6\<rparr>"
        using q e5 by (auto simp: file_AtEOF_def split: prod.splits option.splits dest!: nextFault_frame)
      have t5: "touched i ((fs_inodes env i)\<lparr>i_perm := pm\<rparr>) env e5"
        "touched i ((fs_inodes env i)\<lparr>i_perm := pm\<rparr>) env e6"
        using t4 e5 e6 by (simp_all add: touched_def)
      have key: "keyAt p (i_data nd) env" using i True by (simp add: keyAt_def)
      have len: "length (i_data nd) = 32" using True by (simp add: keySize_def)
      note run = assms(3) [unfolded readFallbackKey_def l Inr a]
      have "r2 = Inr i \<and> r3 = Inr nd \<and> r4 = None \<and> (r5 = Inr (i_data nd) \<and> env' = e6 \<and>
              (r = Inr (i_data nd) \<or> (\<exists>e. r = Inl e \<and> \<not> errors_is e ErrNotExist)) \<or>
              env' = e5 \<and> (\<exists>e. r = Inl e \<and> \<not> errors_is e ErrNotExist)) \<or>
            (env' = e2 \<or> env' = e3 \<or> env' = e4) \<and> (\<exists>e. r = Inl e \<and> \<not> errors_is e ErrNotExist)"
        using run True o st s f q r2 r3 r4 r5 assms(1,2) notKey
        by (auto split: bool.splits)
      then consider "env' = e2 \<or> env' = e3" "\<exists>e. r = Inl e \<and> \<not> errors_is e ErrNotExist"
        | "env' \<in> {e4, e5, e6}" "\<exists>e. r = Inl e \<and> \<not> errors_is e ErrNotExist"
        | "env' = e6" "r4 = None" "r = Inr (i_data nd)" by blast
      then show ?thesis
      proof cases
        case 1
        then show ?thesis using keep e2 e3 by blast
      next
        case 2
        then show ?thesis using t4 t5 by (intro exI [of _ i] exI [of _ pm]) auto
      next
        case 3
        then show ?thesis using t5(2) key len i(1) pm by (intro exI [of _ i] exI [of _ pm]) simp
      qed
    qed
  qed
qed

lemma os_Link_Some:
  "os_Link a b env = (Some err, env') \<Longrightarrow> \<exists>fs. env' = env\<lparr>fs_faults := fs\<rparr>"
  by (auto simp: os_Link_def split: prod.splits option.splits if_splits dest!: nextFault_frame)

lemma os_Link_None:
  "os_Link a b env = (None, env') \<Longrightarrow> fs_names env a = Some i \<Longrightarrow>
   fs_names env b = None \<and> (\<exists>fs. env' = env\<lparr>fs_faults := fs, fs_names := (fs_names env)(b \<mapsto> i)\<rparr>)"
  by (auto simp: os_Link_def split: prod.splits option.splits if_splits dest!: nextFault_frame)

lemma removeStagedFile_frame:
  assumes "removeStagedFile t env = (r, env')"
  shows "\<exists>fs nm. env' = env\<lparr>fs_faults := fs, fs_names := nm\<rparr> \<and> (\<forall>q. q \<noteq> t \<longrightarrow> nm q = fs_names env q) \<and>
           nm t \<in> {fs_names env t, None}"
proof -
  have same: "env\<lparr>fs_faults := fs\<rparr> = env\<lparr>fs_faults := fs, fs_names := fs_names env\<rparr>" for fs by simp
  have "(\<exists>fs. env' = env\<lparr>fs_faults := fs\<rparr>) \<or> (\<exists>fs. env' = env\<lparr>fs_faults := fs, fs_names := (fs_names env)(t := None)\<rparr>)"
    using assms
    by (auto simp: removeStagedFile_def os_Remove_def split: prod.splits option.splits if_splits
        dest!: nextFault_frame)
  then show ?thesis
  proof
    assume "\<exists>fs. env' = env\<lparr>fs_faults := fs\<rparr>"
    then show ?thesis using same by (metis insertI1)
  next
    assume "\<exists>fs. env' = env\<lparr>fs_faults := fs, fs_names := (fs_names env)(t := None)\<rparr>"
    then obtain fs where "env' = env\<lparr>fs_faults := fs, fs_names := (fs_names env)(t := None)\<rparr>" ..
    then show ?thesis by (intro exI [of _ fs] exI [of _ "(fs_names env)(t := None)"]) simp
  qed
qed

lemma syncDirectory_keyKept:
  assumes "syncDirectory d env = (r, env')" and "wfFS env"
  shows "keyKept p env env' \<and> wfFS env'"
proof -
  note y = syncDirectory_spec [OF assms(1)]
  have "i < fs_next env" if "fs_durable env' q = Some i" for q i
    using y(6) [of q] that assms(2) by (auto simp: wfFS_def)
  then have "wfFS env'" using assms(2) y(1,3) by (auto simp: wfFS_def)
  then show ?thesis using y(1,2,4) by (simp add: keyKept_def keyAt_def split: option.split)
qed

text \<open>Publishing never replaces a file that is there.\<close>

lemma publishFallbackKey_spec:
  assumes "p \<noteq> []" and "wfFS env" and "publishFallbackKey p key env = (r, env')"
  shows "wfFS env' \<and> keyKept p env env' \<and>
         (r = None \<longrightarrow> (\<exists>i. fs_names env p = None \<and> fs_names env' p = Some i \<and>
            privateFile (fs_windows env) key (fs_inodes env' i) \<and>
            (\<not> fs_windows env \<longrightarrow> fs_durable env' p = Some i)))"
proof (cases "stageFor p key env")
  case (Pair r1 e1)
  show ?thesis
  proof (cases r1)
    case (Inl err)
    with Pair have o: "onlyTemp p env e1" using stageFor_Inl by blast
    moreover have "env' = e1 \<and> r \<noteq> None" using assms(3) Pair Inl by (auto simp: publishFallbackKey_def)
    ultimately show ?thesis using onlyTemp_wfFS [OF o assms(2)] onlyTemp_keyKept [OF assms(1) o assms(2)] by auto
  next
    case (Inr t)
    with Pair have st: "onlyTemp p env e1" "tempOf p t" using stageFor_Inr by blast+
    from Pair Inr obtain i where i: "fs_next env \<le> i" "fs_names e1 t = Some i"
      "privateFile (fs_windows env) key (fs_inodes e1 i)" using stageFor_Inr by blast
    have tp: "t \<noteq> p" using st(2) not_tempOf_self [OF assms(1)] by blast
    have wf1: "wfFS e1" using onlyTemp_wfFS [OF st(1) assms(2)] .
    have k1: "keyKept p env e1" using onlyTemp_keyKept [OF assms(1) st(1) assms(2)] .
    obtain r2 e2 where ln: "os_Link t p e1 = (r2, e2)" by fastforce
    obtain r3 e3 where rm: "removeStagedFile t e2 = (r3, e3)" by fastforce
    from removeStagedFile_frame [OF rm] obtain fs3 nm where e3: "e3 = e2\<lparr>fs_faults := fs3, fs_names := nm\<rparr>"
      "\<forall>q. q \<noteq> t \<longrightarrow> nm q = fs_names e2 q" "nm t \<in> {fs_names e2 t, None}" by blast
    have k23: "keyKept p e2 e3" using e3 tp by (auto simp: keyKept_def keyAt_def split: option.splits)
    have wf23: "wfFS e3" if "wfFS e2"
      using that e3 unfolding wfFS_def by (simp) (metis option.distinct(1))
    show ?thesis
    proof (cases r2)
      case (Some err)
      then obtain fs where e2: "e2 = e1\<lparr>fs_faults := fs\<rparr>" using ln os_Link_Some by blast
      have "env' = e3 \<and> r \<noteq> None"
        using assms(3) Pair Inr ln Some rm by (auto simp: publishFallbackKey_def split: option.splits)
      then show ?thesis using k1 k23 wf1 wf23 e2 keyKept_trans faults_keyKept by (metis (no_types, lifting))
    next
      case None
      from os_Link_None [OF ln [unfolded None] i(2)] obtain fs where free: "fs_names e1 p = None"
        and e2: "e2 = e1\<lparr>fs_faults := fs, fs_names := (fs_names e1)(p \<mapsto> i)\<rparr>" by blast
      have freeE: "fs_names env p = None" using free st(1) assms(1) by (simp add: onlyTemp_def)
      have wf2: "wfFS e2" using wf1 i(2) e2 by (auto simp: wfFS_def)
      note wf3 = wf23 [OF wf2]
      have e3p: "fs_names e3 p = Some i" "fs_inodes e3 i = fs_inodes e1 i" "fs_windows e3 = fs_windows env"
        using e3 e2 tp st(1) by (auto simp: onlyTemp_def)
      obtain r4 e4 where sd: "syncDirectory (butlast p) e3 = (r4, e4)" by fastforce
      note y = syncDirectory_spec [OF sd]
      have run: "env' = e3 \<and> r \<noteq> None \<or> env' = e4 \<and> r3 = None \<and> (r = None \<longleftrightarrow> r4 = None)"
        using assms(3) Pair Inr ln None rm sd by (auto simp: publishFallbackKey_def split: option.splits)
      have "wfFS e4" using syncDirectory_keyKept [OF sd wf3] by simp
      moreover have "keyKept p env e" if "fs_windows e = fs_windows env" for e
        using freeE that by (simp add: keyKept_def keyAt_def)
      moreover have "inDirectory (butlast p) p" using assms(1) by (simp add: inDirectory_def)
      ultimately show ?thesis using run wf3 e3p freeE i(3) y(1,2,4) y(7) [of p] by auto
    qed
  qed
qed

text \<open>
  The file system another process finds when it runs between this process's decision that
  there is no key and its publication of one.
\<close>

definition keyWindow :: "path \<Rightarrow> osenv \<Rightarrow> osenv" where
  "keyWindow p env = snd (random_ReadFull keySize (snd (readFallbackKey quietRace p env)))"

definition racing :: "(osenv \<Rightarrow> osenv) \<Rightarrow> keyRace" where
  "racing other = quietRace\<lparr>kr_beforePublish := other\<rparr>"

definition decent :: "(osenv \<Rightarrow> osenv) \<Rightarrow> bool" where
  "decent other \<longleftrightarrow> (\<forall>e. wfFS e \<longrightarrow> wfFS (other e) \<and> (fs_windows (other e) \<longleftrightarrow> fs_windows e))"

lemma readFallbackKey_race:
  assumes "kr_beforeOpen race = kr_beforeOpen race'" and "kr_beforeRead race = kr_beforeRead race'"
  shows "readFallbackKey race = readFallbackKey race'"
  unfolding readFallbackKey_def fun_eq_iff assms by blast

lemma racing_simps [simp]:
  "kr_beforeOpen (racing other) = id" "kr_beforeRead (racing other) = id"
  "kr_beforePublish (racing other) = other" "racing id = quietRace"
  "readFallbackKey (racing other) = readFallbackKey quietRace"
  by (simp_all add: racing_def quietRace_def readFallbackKey_race)

lemma keyAt_unique: "keyAt p k env \<Longrightarrow> keyAt p k' env \<Longrightarrow> k = k'"
  by (simp add: keyAt_def split: option.splits)

lemma keyAt_present: "keyAt p k env \<Longrightarrow> fs_names env p \<noteq> None"
  by (simp add: keyAt_def split: option.splits)

text \<open>The file a returned key stands in.\<close>

definition keyReady :: "path \<Rightarrow> string \<Rightarrow> osenv \<Rightarrow> bool" where
  "keyReady p k env \<longleftrightarrow>
     keyAt p k env \<and> length k = 32 \<and>
     (\<not> fs_windows env \<longrightarrow> fs_durable env p = fs_names env p \<and>
        i_perm (fs_inodes env (the (fs_names env p))) = filePerm)"

lemma readFallbackKey_Inr:
  assumes "readFallbackKey quietRace p env = (Inr k, env')" and "wfFS env"
  shows "keyAt p k env" and "keyAt p k env'" and "keyKept p env env'" and "wfFS env'" and "length k = 32"
    and "\<not> fs_windows env \<Longrightarrow> i_perm (fs_inodes env' (the (fs_names env' p))) = filePerm"
proof -
  from readFallbackKey_quiet [OF _ _ assms(1)] obtain i pm where
      t: "touched i ((fs_inodes env i)\<lparr>i_perm := pm\<rparr>) env env'" and k: "keyAt p k env" "length k = 32"
        "fs_names env p = Some i" "\<not> fs_windows env \<longrightarrow> pm = filePerm"
    by (auto simp: quietRace_def)
  note kept = touched_perm_keyKept [OF t]
  show "keyAt p k env" "keyKept p env env'" "wfFS env'" "length k = 32" using k kept assms(2) by simp_all
  show "keyAt p k env'" using k(1) kept(1) [of p] by (simp add: keyKept_def)
  show "\<not> fs_windows env \<Longrightarrow> i_perm (fs_inodes env' (the (fs_names env' p))) = filePerm"
    using touched_simps(1,7) [OF t] k(3,4) by simp
qed

lemma syncedKey_Inr:
  assumes "syncedKey msg p k env = (Inr k', env')" and "p \<noteq> []" and "wfFS env" and "keyAt p k env"
    and "length k = 32" and "\<not> fs_windows env \<Longrightarrow> i_perm (fs_inodes env (the (fs_names env p))) = filePerm"
  shows "k' = k \<and> keyReady p k env' \<and> keyKept p env env' \<and> wfFS env'"
proof -
  obtain r e where sd: "syncDirectory (butlast p) env = (r, e)" by fastforce
  with assms(1) have r: "r = None" "env' = e" "k' = k" by (auto simp: syncedKey_def split: option.splits)
  note y = syncDirectory_spec [OF sd] and kw = syncDirectory_keyKept [OF sd assms(3)]
  have "inDirectory (butlast p) p" using assms(2) by (simp add: inDirectory_def)
  then have "keyReady p k e" using y(1,2,4) y(7) [of p] r(1) assms(4-6) by (auto simp: keyReady_def keyAt_def split: option.splits)
  then show ?thesis using r kw by simp
qed

lemma fallbackKeyWithReader_Inr:
  assumes "p \<noteq> []" and "wfFS env" and "decent other"
    and "fallbackKeyWithReader (racing other) p env = (Inr k, env')"
  shows "wfFS env' \<and> keyReady p k env' \<and>
         ((\<exists>e. readFallbackKey quietRace p env = (Inr k, e)) \<or>
          fs_names env p = None \<and> keyKept p (other (keyWindow p env)) env')"
proof (cases "readFallbackKey quietRace p env")
  case (Pair r1 e1)
  show ?thesis
  proof (cases r1)
    case (Inr k1)
    note rd = readFallbackKey_Inr [OF Pair [unfolded Inr] assms(2)]
    have sk: "syncedKey ''sync existing fallback key'' p k1 e1 = (Inr k, env')"
      using assms(4) Pair Inr by (simp add: fallbackKeyWithReader_def)
    have "fs_windows e1 = fs_windows env" using rd(3) by (simp add: keyKept_def)
    then show ?thesis using syncedKey_Inr [OF sk assms(1) rd(4,2,5)] rd(6) Pair Inr by auto
  next
    case (Inl err)
    from readFallbackKey_quiet [OF _ _ Pair] obtain i pm where
        t: "touched i ((fs_inodes env i)\<lparr>i_perm := pm\<rparr>) env e1"
      and absent: "errors_is err ErrNotExist \<Longrightarrow> fs_names env p = None"
      using Inl by (auto simp: quietRace_def)
    obtain r2 e2 where rnd: "random_ReadFull keySize e1 = (r2, e2)" by fastforce
    then obtain en where e2: "e2 = e1\<lparr>fs_entropy := en\<rparr>" by (auto simp: random_ReadFull_def split: if_splits)
    have win: "e2 = keyWindow p env" using Pair rnd by (simp add: keyWindow_def)
    have wf2: "wfFS e2" using touched_perm_keyKept(2) [OF t] assms(2) e2 by (simp add: wfFS_def)
    have wfo: "wfFS (other e2)" using wf2 assms(3) by (simp add: decent_def)
    obtain cand where none: "fs_names env p = None" and c: "r2 = Inr cand"
      using assms(4) Pair Inl rnd absent
      by (auto simp: fallbackKeyWithReader_def split: if_splits sum.splits)
    have len: "length cand = 32" using rnd c by (auto simp: random_ReadFull_def keySize_def split: if_splits)
    obtain r3 e3 where pub: "publishFallbackKey p cand (other e2) = (r3, e3)" by fastforce
    note ps = publishFallbackKey_spec [OF assms(1) wfo pub]
    show ?thesis
    proof (cases r3)
      case None
      then have "k = cand" "env' = e3"
        using assms(4) Pair Inl rnd c pub by (auto simp: fallbackKeyWithReader_def split: if_splits)
      moreover have "keyReady p cand e3" using ps None len
        by (auto simp: keyReady_def keyAt_def privateFile_def keyKept_def)
      ultimately show ?thesis using ps none win by simp
    next
      case (Some err3)
      obtain r4 e4 where rd4: "readFallbackKey quietRace p e3 = (r4, e4)" by fastforce
      obtain k4 where k4: "r4 = Inr k4"
        and sk: "syncedKey ''sync concurrently published fallback key'' p k4 e4 = (Inr k, env')"
        using assms(4) Pair Inl rnd c pub Some rd4
        by (cases r4) (auto simp: fallbackKeyWithReader_def split: if_splits)
      note rd = readFallbackKey_Inr [OF rd4 [unfolded k4] conjunct1 [OF ps]]
      have "fs_windows e4 = fs_windows e3" using rd(3) by (simp add: keyKept_def)
      then have fin: "keyReady p k env'" "keyKept p e4 env'" "wfFS env'"
        using syncedKey_Inr [OF sk assms(1) rd(4,2,5)] rd(6) by auto
      then show ?thesis using ps rd(3) none win keyKept_trans by blast
    qed
  qed
qed

section \<open>Crashes\<close>

text \<open>
  What a crash may leave: for every name its entry in memory or the one on disk, and of a
  synced file its data.
\<close>

definition crashImage :: "osenv \<Rightarrow> osenv \<Rightarrow> bool" where
  "crashImage env env' \<longleftrightarrow>
     (\<forall>q. fs_names env' q \<in> {fs_names env q, fs_durable env q}) \<and>
     (\<forall>i. i_synced (fs_inodes env i) \<longrightarrow> fs_inodes env' i = fs_inodes env i) \<and> fs_readFault env' = None"

definition settledFile :: "path \<Rightarrow> osenv \<Rightarrow> bool" where
  "settledFile p env \<longleftrightarrow>
     fs_durable env p = fs_names env p \<and>
     (case fs_names env p of
        None \<Rightarrow> True
      | Some i \<Rightarrow> i_type (fs_inodes env i) = RegularFile \<and> i_synced (fs_inodes env i))"

lemma Store_Load_cong:
  "os_ReadFile (fst_path s) env = os_ReadFile (fst_path s) env' \<Longrightarrow> Store_Load cd s env = Store_Load cd s env'"
  by (simp add: Store_Load_def)

lemma settled_read:
  assumes "wfFS env" and "settledFile p env" and "fs_readFault env = None" and "oldInodesKept env env'"
    and "crashImage env' env''" and "fs_names env'' p = fs_names env p"
  shows "os_ReadFile p env'' = os_ReadFile p env"
proof (cases "fs_names env p")
  case None
  then show ?thesis using assms(3,5,6) by (simp add: os_ReadFile_missing crashImage_def)
next
  case (Some i)
  then have i: "i < fs_next env" "i_type (fs_inodes env i) = RegularFile" "i_synced (fs_inodes env i)"
    using assms(1,2) by (auto simp: wfFS_def settledFile_def)
  then have "fs_inodes env'' i = fs_inodes env i"
    using assms(4,5) by (simp add: oldInodesKept_def crashImage_def)
  then show ?thesis using Some i(2) assms(3,5,6) by (simp add: os_ReadFile_regular crashImage_def)
qed

text \<open>
  C11: saving is atomic against failures and crashes. Whatever calls fail and however the
  process or the machine stops during or after a \<open>Save\<close> over a settled token file, a later
  \<open>Load\<close> returns the state that was being saved or what it returned before, never anything
  else; after a \<open>Save\<close> that returned nil it returns the saved state even after a crash, and
  the file is settled again (the last two where directories can be synced, so not on Windows).
\<close>

theorem save_crash_atomic:
  assumes "codecLaws cd" and "length (fst_key s) = 32" and "fst_path s \<noteq> []"
    and "wfFS env" and "settledFile (fst_path s) env" and "fs_readFault env = None"
    and "representable cd ts" and "Store_Save cd s ts env = (r, env')" and "crashImage env' env''"
  shows "((\<exists>ts'. Store_Load cd s env'' = Inr ts' \<and> sameTokenState ts ts') \<or>
          Store_Load cd s env'' = Store_Load cd s env \<and> (r \<noteq> None \<or> fs_windows env)) \<and>
         (r = None \<and> \<not> fs_windows env \<longrightarrow> settledFile (fst_path s) env')"
proof -
  let ?p = "fst_path s"
  note sc = Store_Save_cases [OF assms(3,4,8)]
  have kept: "oldInodesKept env env'" using sc by simp
  have dur: "fs_durable env ?p = fs_names env ?p" using assms(5) by (simp add: settledFile_def)
  have old: "Store_Load cd s env'' = Store_Load cd s env" if "fs_names env'' ?p = fs_names env ?p"
    using settled_read [OF assms(4,5,6) kept assms(9) that] by (rule Store_Load_cong)
  have img: "fs_names env'' ?p \<in> {fs_names env' ?p, fs_durable env' ?p}"
    using assms(9) by (simp add: crashImage_def)
  from sc consider "r \<noteq> None" "fs_names env' ?p = fs_names env ?p" "fs_durable env' ?p = fs_durable env ?p"
    | plain nonce i where "marshalState cd ts = Inr plain" "length nonce = nonceSize"
        "fs_names env' ?p = Some i" "privateFile (fs_windows env) (nonce @ gcmSeal cd (fst_key s) nonce plain) (fs_inodes env' i)"
        "fs_durable env' ?p \<in> {fs_durable env ?p, Some i}"
        "r = None \<and> \<not> fs_windows env \<longrightarrow> fs_durable env' ?p = Some i"
    by (auto simp: replaceOutcome_def)
  then show ?thesis
  proof cases
    case 1
    then show ?thesis using old img dur by auto
  next
    case 2
    from assms(1,7) 2(1) obtain ts' where u: "unmarshalState cd plain = Inr ts'" "sameTokenState ts ts'"
      unfolding codecLaws_def by blast
    have sync: "i_synced (fs_inodes env' i)" "i_type (fs_inodes env' i) = RegularFile"
      using 2(4) by (simp_all add: privateFile_def)
    then have "fs_inodes env'' i = fs_inodes env' i" and rf: "fs_readFault env'' = None"
      using assms(9) by (simp_all add: crashImage_def)
    then have pf: "privateFile (fs_windows env) (nonce @ gcmSeal cd (fst_key s) nonce plain) (fs_inodes env'' i)"
      using 2(4) by simp
    have new: "Store_Load cd s env'' = Inr ts'" if "fs_names env'' ?p = Some i"
      using Store_Load_sealed [OF assms(1,2) 2(2) assms(7) 2(1) u(1) that pf rf] .
    have "settledFile ?p env'" if "r = None" "\<not> fs_windows env"
      using that 2(3,6) sync by (simp add: settledFile_def)
    moreover have "fs_names env'' ?p = Some i \<or> fs_names env'' ?p = fs_names env ?p \<and> (r \<noteq> None \<or> fs_windows env)"
      using img 2(3,5,6) dur by auto
    ultimately show ?thesis using new old u(2) by blast
  qed
qed


section \<open>Stores made by New\<close>

lemma fallbackKeyWithReader_length:
  assumes "fallbackKeyWithReader race p env = (Inr k, env')"
  shows "length k = 32"
  using assms readFallbackKey_length
  by (auto simp: fallbackKeyWithReader_def syncedKey_def random_ReadFull_def keySize_def
      split: prod.splits sum.splits if_splits option.splits)

lemma deriveKey_length:
  assumes "codecLaws cd" and "deriveKey cd race appID dir env = (Inr k, env')"
  shows "length k = 32"
  using assms fallbackKeyWithReader_length
  by (auto simp: deriveKey_def deriveKeyWithSources_def codecLaws_def split: sum.splits if_splits)

text \<open>
  Where the platform names the machine, the key is bound to it and no key file is read or
  written; the Windows identifier is the registry's GUID, the one of macOS the quoted group.
\<close>

lemma deriveKey_from_machine:
  assumes "machineID env = Inr mid" and "mid \<noteq> ''''"
  shows "deriveKey cd race appID dir env = (Inr (sum256 cd (appID @ '':'' @ mid)), env)"
  using assms by (simp add: deriveKey_def deriveKeyWithSources_def)

lemma deriveKey_windows:
  assumes "fs_windows env" and "asciiText guid" and "length guid \<le> 63" and "guid \<noteq> ''''"
    and "fs_registry env cryptographyKey ''MachineGuid'' = Inr (Inr (utf16le guid @ [CHR 0x00, CHR 0x00]))"
  shows "deriveKey cd race appID dir env = (Inr (sum256 cd (appID @ '':'' @ guid)), env)"
  using machineID_windows_reads [OF assms(5,2,3)] assms(1,4)
  by (intro deriveKey_from_machine) (simp_all add: machineID_def)

lemma deriveKey_darwin:
  assumes "\<not> fs_windows env" and "fs_darwin env" and "trimSpace v \<noteq> ''''"
    and "fs_exec env ''ioreg'' [''-rd1'', ''-c'', ''IOPlatformExpertDevice''] = Inr out"
    and "matchesUUID (drop k out) v" and "\<forall>j < k. \<forall>w. \<not> matchesUUID (drop j out) w"
  shows "deriveKey cd race appID dir env = (Inr (sum256 cd (appID @ '':'' @ trimSpace v)), env)"
  using machineID_darwin_reads [OF assms(4-6)] assms(1-3)
  by (intro deriveKey_from_machine) (simp_all add: machineID_def)

lemma newStore_Inr:
  assumes "codecLaws cd" and "newStore cd race appID dir env = (Inr s, env')"
  shows "length (fst_key s) = 32" and "fst_path s = dir @ [tokenFileName]"
proof -
  obtain e1 e2 where k: "deriveKey cd race appID dir e1 = (Inr (fst_key s), e2)"
    and "fst_path s = dir @ [tokenFileName]"
    using assms(2) by (auto simp: newStore_def split: prod.splits sum.splits option.splits)
  then show "fst_path s = dir @ [tokenFileName]" by simp
  show "length (fst_key s) = 32"
    using deriveKey_length [OF assms(1) k] .
qed


section \<open>A concrete codec\<close>

text \<open>
  The laws of the parameters are satisfiable: a codec that writes each byte after an escape
  byte and numbers in binary, and seals by appending the key and a tag.
\<close>

fun putString :: "string \<Rightarrow> string" where
  "putString [] = ''|''"
| "putString (ch # s) = CHR ''.'' # ch # putString s"

fun getString :: "string \<Rightarrow> string \<times> string" where
  "getString (a # s) =
     (if a = CHR ''.'' then (case s of [] \<Rightarrow> ('''', '''') | ch # r \<Rightarrow> (let (x, rest) = getString r in (ch # x, rest)))
      else ('''', s))"
| "getString [] = ('''', '''')"

fun putNat :: "nat \<Rightarrow> string" where
  "putNat n = (if n = 0 then '''' else (if n mod 2 = 1 then CHR ''1'' else CHR ''0'') # putNat (n div 2))"

declare putNat.simps [simp del]

primrec getNat :: "string \<Rightarrow> nat" where
  "getNat [] = 0"
| "getNat (ch # s) = (if ch = CHR ''1'' then 1 else 0) + 2 * getNat s"

definition putInt :: "int \<Rightarrow> string" where
  "putInt x = (if x < 0 then CHR ''-'' # putNat (nat (- x)) else CHR ''+'' # putNat (nat x))"

definition getInt :: "string \<Rightarrow> int" where
  "getInt s = (if s \<noteq> [] \<and> hd s = CHR ''-'' then - int (getNat (tl s)) else int (getNat (tl s)))"

lemma getNat_putNat [simp]: "getNat (putNat n) = n"
proof (induction n rule: putNat.induct)
  case (1 n)
  then show ?case by (subst putNat.simps) (auto, presburger+)
qed

lemma getInt_putInt [simp]: "getInt (putInt x) = x"
  by (simp add: getInt_def putInt_def)

lemma getString_putString [simp]: "getString (putString s @ rest) = (s, rest)"
  by (induction s) simp_all

lemmas getString_putString_end [simp] = getString_putString [of _ "[]", simplified]

definition plainCodec :: codec where
  "plainCodec =
     \<lparr>marshalState = (\<lambda>ts. Inr (concat (map putString
          [AccessToken ts, RefreshToken ts, IDToken ts, putInt (t_ns (ExpiresAt ts)), putInt (t_ns (LastAuthAt ts))]))),
      unmarshalState = (\<lambda>s.
         let (a, s) = getString s; (r, s) = getString s; (i, s) = getString s;
             (e, s) = getString s; (l, s) = getString s
         in Inr \<lparr>AccessToken = a, RefreshToken = r, IDToken = i,
                 ExpiresAt = \<lparr>t_ns = getInt e, t_rep = 0\<rparr>, LastAuthAt = \<lparr>t_ns = getInt l, t_rep = 0\<rparr>\<rparr>),
      representable = (\<lambda>_. True),
      gcmSeal = (\<lambda>key nonce p. key @ p),
      gcmOpen = (\<lambda>key nonce c. if take (length key) c = key then Inr (drop (length key) c)
                                else Inl (OtherError ''cipher: message authentication failed'')),
      sum256 = (\<lambda>s. take 32 (s @ replicate 32 CHR ''0''))\<rparr>"

lemma plainCodec_laws: "codecLaws plainCodec"
  by (simp add: codecLaws_def plainCodec_def sameTokenState_def min_def)

definition sampleFS :: osenv where
  "sampleFS =
     \<lparr>fs_names = [[''app''] \<mapsto> 0], fs_durable = [[''app''] \<mapsto> 0],
      fs_inodes = (\<lambda>_. \<lparr>i_type = Directory, i_perm = 448, i_data = '''', i_synced = True\<rparr>),
      fs_next = 1, fs_faults = [], fs_readFault = None, fs_tempNames = [''1'', ''2'', ''3''],
      fs_entropy = replicate 100 CHR ''r'', fs_fixedPerm = None, fs_windows = False, fs_darwin = False,
      fs_exec = (\<lambda>_ _. Inl (OtherError ''not found'')), fs_registry = (\<lambda>_ _. Inl (OtherError ''not found''))\<rparr>"

definition sampleStore :: fileStore where
  "sampleStore = \<lparr>fst_dir = [''app''], fst_key = replicate 32 CHR ''k'', fst_path = [''app'', ''tokens.enc'']\<rparr>"

definition sampleTokens :: token_state where
  "sampleTokens = zeroTokenState\<lparr>AccessToken := ''at'', RefreshToken := ''rt''\<rparr>"

lemma sampleFS_wf: "wfFS sampleFS"
  by (simp add: wfFS_def sampleFS_def)

theorem save_crash_atomic_witness:
  "fst (Store_Save plainCodec sampleStore sampleTokens sampleFS) = None \<and>
   (\<exists>ts'. Store_Load plainCodec sampleStore (snd (Store_Save plainCodec sampleStore sampleTokens sampleFS)) = Inr ts' \<and>
          sameTokenState sampleTokens ts')"
proof -
  let ?r = "Store_Save plainCodec sampleStore sampleTokens sampleFS"
  have 1: "length (fst_key sampleStore) = 32" "fst_path sampleStore \<noteq> []" by (simp_all add: sampleStore_def)
  have 2: "settledFile (fst_path sampleStore) sampleFS" "fs_readFault sampleFS = None" by code_simp+
  have 3: "representable plainCodec sampleTokens" by (simp add: plainCodec_def)
  have 4: "?r = (fst ?r, snd ?r)" by simp
  have ok: "fst ?r = None" by code_simp
  have "fs_readFault (snd ?r) = None" by code_simp
  then have 5: "crashImage (snd ?r) (snd ?r)" by (simp add: crashImage_def)
  have win: "\<not> fs_windows sampleFS" by code_simp
  from save_crash_atomic [OF plainCodec_laws 1 sampleFS_wf 2 3 4 5] ok win show ?thesis by blast
qed



end
