(* ===== verification/Eventbus.thy ===== *)
theory Eventbus
  imports Go_Errors "HOL-Library.Multiset"
begin

text \<open>
  The deferred event bus (\<open>eventbus/deferred.go\<close>). Its two mutexes make an \<open>Emit\<close> two steps:
  the section under \<open>mu\<close>, which buffers the event or picks the target, and the delivery under
  \<open>sendMu\<close>; and a \<open>SetTarget\<close> a swap followed by one delivery per buffered event, all under
  \<open>sendMu\<close>. The steps of concurrent calls interleave. Targets are addresses of emitters;
  setting a nil target is outside the documented use and not modelled.
\<close>

section \<open>The bus\<close>

text \<open>
  \<open>bus_flush\<close> is the rest of a flush in progress, present exactly while \<open>SetTarget\<close> holds
  \<open>sendMu\<close>; \<open>bus_direct\<close> are the emitters' calls that have picked a target and not delivered.
  \<open>bus_log\<close> is what the targets have received, in order.
\<close>

record 'd bus =
  bus_target :: "nat option"
  bus_buffered :: "(string \<times> 'd) list"
  bus_flush :: "(nat \<times> (string \<times> 'd) list) option"
  bus_direct :: "(nat \<times> string \<times> 'd) list"
  bus_log :: "(nat \<times> string \<times> 'd) list"

definition newBus :: "'d bus" where
  "newBus = \<lparr>bus_target = None, bus_buffered = [], bus_flush = None, bus_direct = [], bus_log = []\<rparr>"

definition Emit_begin :: "string \<Rightarrow> 'd \<Rightarrow> 'd bus \<Rightarrow> 'd bus" where
  "Emit_begin event data d =
     (case bus_target d of
        None \<Rightarrow> d\<lparr>bus_buffered := bus_buffered d @ [(event, data)]\<rparr>
      | Some target \<Rightarrow> d\<lparr>bus_direct := bus_direct d @ [(target, event, data)]\<rparr>)"

text \<open>The delivery of the \<open>n\<close>-th waiting call; it needs \<open>sendMu\<close>.\<close>

definition Emit_send :: "nat \<Rightarrow> 'd bus \<Rightarrow> 'd bus option" where
  "Emit_send n d =
     (if bus_flush d \<noteq> None \<or> length (bus_direct d) \<le> n then None
      else Some (d\<lparr>bus_log := bus_log d @ [bus_direct d ! n],
                   bus_direct := take n (bus_direct d) @ drop (Suc n) (bus_direct d)\<rparr>))"

definition SetTarget_begin :: "nat \<Rightarrow> 'd bus \<Rightarrow> 'd bus option" where
  "SetTarget_begin target d =
     (if bus_flush d \<noteq> None then None
      else Some (d\<lparr>bus_target := Some target, bus_flush := Some (target, bus_buffered d), bus_buffered := []\<rparr>))"

text \<open>The next delivery of the flush, or the release of \<open>sendMu\<close> after the last.\<close>

definition SetTarget_flush :: "'d bus \<Rightarrow> 'd bus option" where
  "SetTarget_flush d =
     (case bus_flush d of
        None \<Rightarrow> None
      | Some (target, ev # rest) \<Rightarrow>
          Some (d\<lparr>bus_flush := Some (target, rest), bus_log := bus_log d @ [(target, ev)]\<rparr>)
      | Some (target, []) \<Rightarrow> Some (d\<lparr>bus_flush := None\<rparr>))"

definition NoopEventBus_Emit :: "string \<Rightarrow> 'd \<Rightarrow> 'd bus \<Rightarrow> 'd bus" where
  "NoopEventBus_Emit event data d = d"

text \<open>
  Runs: interleavings of the steps of any number of calls. The two lists record the events
  emitted before a target was set and after, each in the order of their \<open>mu\<close> sections.
\<close>

inductive busRun :: "(string \<times> 'd) list \<Rightarrow> (string \<times> 'd) list \<Rightarrow> 'd bus \<Rightarrow> bool" where
  start: "busRun [] [] newBus"
| emit_early: "busRun bs ds d \<Longrightarrow> bus_target d = None \<Longrightarrow> busRun (bs @ [(e, x)]) ds (Emit_begin e x d)"
| emit_late: "busRun bs ds d \<Longrightarrow> bus_target d = Some t \<Longrightarrow> busRun bs (ds @ [(e, x)]) (Emit_begin e x d)"
| send: "busRun bs ds d \<Longrightarrow> Emit_send n d = Some d' \<Longrightarrow> busRun bs ds d'"
| set_target: "busRun bs ds d \<Longrightarrow> SetTarget_begin t d = Some d' \<Longrightarrow> busRun bs ds d'"
| flush: "busRun bs ds d \<Longrightarrow> SetTarget_flush d = Some d' \<Longrightarrow> busRun bs ds d'"

section \<open>Nothing is lost, repeated or overtaken\<close>

definition flushRest :: "'d bus \<Rightarrow> (string \<times> 'd) list" where
  "flushRest d = (case bus_flush d of None \<Rightarrow> [] | Some (_, rest) \<Rightarrow> rest)"

text \<open>The waiting events in the order in which they are due for delivery.\<close>

abbreviation pendingEvents :: "'d bus \<Rightarrow> (string \<times> 'd) list" where
  "pendingEvents d \<equiv> flushRest d @ bus_buffered d"

definition busInv :: "(string \<times> 'd) list \<Rightarrow> (string \<times> 'd) list \<Rightarrow> 'd bus \<Rightarrow> bool" where
  "busInv bs ds d \<longleftrightarrow>
     (\<exists>late. map snd (bus_log d) @ pendingEvents d = bs @ late \<and> (pendingEvents d \<noteq> [] \<longrightarrow> late = []) \<and>
        mset late + mset (map snd (bus_direct d)) = mset ds) \<and>
     (bus_target d = None \<longrightarrow> bus_log d = [] \<and> bus_flush d = None \<and> bus_direct d = [] \<and> ds = []) \<and>
     (bus_target d \<noteq> None \<longrightarrow> bus_buffered d = [])"

lemma mset_remove_nth:
  assumes "n < length xs"
  shows "mset xs = add_mset (xs ! n) (mset (take n xs @ drop (Suc n) xs))"
proof -
  have "xs = take n xs @ xs ! n # drop (Suc n) xs" using assms by (rule id_take_nth_drop)
  then have "mset xs = mset (take n xs @ xs ! n # drop (Suc n) xs)" by (rule arg_cong)
  then show ?thesis by simp
qed

lemma busRun_inv: "busRun bs ds d \<Longrightarrow> busInv bs ds d"
proof (induction rule: busRun.induct)
  case start
  show ?case by (simp add: busInv_def newBus_def flushRest_def)
next
  case (emit_early bs ds d e x)
  then show ?case by (auto simp: busInv_def Emit_begin_def flushRest_def)
next
  case (emit_late bs ds d t e x)
  then show ?case by (auto simp: busInv_def Emit_begin_def flushRest_def)
next
  case (send bs ds d n d')
  then have n: "n < length (bus_direct d)" and noflush: "bus_flush d = None"
    and d': "d' = d\<lparr>bus_log := bus_log d @ [bus_direct d ! n],
                    bus_direct := take n (bus_direct d) @ drop (Suc n) (bus_direct d)\<rparr>"
    by (cases "bus_flush d"; auto simp: Emit_send_def split: if_splits)+
  have set: "bus_target d \<noteq> None" "bus_buffered d = []"
    using send.IH n by (auto simp: busInv_def)
  from send.IH noflush set obtain late where late: "map snd (bus_log d) = bs @ late"
    "mset late + mset (map snd (bus_direct d)) = mset ds" by (auto simp: busInv_def flushRest_def)
  have rest: "mset (map snd (bus_direct d)) =
      add_mset (snd (bus_direct d ! n)) (mset (map snd (bus_direct d')))"
    using mset_remove_nth [of n "map snd (bus_direct d)"] n d' by (simp add: take_map drop_map del: mset_map)
  have "mset (late @ [snd (bus_direct d ! n)]) + mset (map snd (bus_direct d')) = mset ds"
    using late(2) rest by simp
  then show ?case using late(1) noflush set d' unfolding busInv_def
    by (intro conjI exI [of _ "late @ [snd (bus_direct d ! n)]"]) (simp_all add: flushRest_def)
next
  case (set_target bs ds d t d')
  then show ?case
    by (cases "bus_target d"; cases "bus_flush d")
      (auto simp: busInv_def SetTarget_begin_def flushRest_def split: if_splits)
next
  case (flush bs ds d d')
  then show ?case
    by (auto simp: busInv_def SetTarget_flush_def flushRest_def split: option.splits list.splits prod.splits)
qed

text \<open>The steps left to the calls under way: the flush first, then the waiting deliveries.\<close>

fun finishBus :: "nat \<Rightarrow> 'd bus \<Rightarrow> 'd bus" where
  "finishBus 0 d = d"
| "finishBus (Suc n) d =
     (case (if bus_flush d \<noteq> None then SetTarget_flush d else Emit_send 0 d) of
        None \<Rightarrow> d
      | Some d' \<Rightarrow> finishBus n d')"

definition stepsLeft :: "'d bus \<Rightarrow> nat" where
  "stepsLeft d =
     (case bus_flush d of None \<Rightarrow> 0 | Some (_, rest) \<Rightarrow> Suc (length rest)) + length (bus_direct d)"

lemma finishBus_run:
  "busRun bs ds d \<Longrightarrow> stepsLeft d \<le> n \<Longrightarrow>
   busRun bs ds (finishBus n d) \<and> bus_flush (finishBus n d) = None \<and> bus_direct (finishBus n d) = [] \<and>
   bus_target (finishBus n d) = bus_target d"
proof (induction n arbitrary: d)
  case 0
  then show ?case by (auto simp: stepsLeft_def split: option.splits)
next
  case (Suc n)
  show ?case
  proof (cases "bus_flush d")
    case (Some fl)
    obtain t rest where fl: "fl = (t, rest)" by fastforce
    obtain d' where d': "SetTarget_flush d = Some d'" "stepsLeft d' < stepsLeft d" "bus_target d' = bus_target d"
      using Some fl by (cases rest) (auto simp: SetTarget_flush_def stepsLeft_def)
    then show ?thesis using Suc.IH [OF busRun.flush [OF Suc.prems(1) d'(1)]] Suc.prems(2) Some by simp
  next
    case None
    show ?thesis
    proof (cases "bus_direct d")
      case Nil
      then have "Emit_send 0 d = None" by (simp add: Emit_send_def)
      then show ?thesis using None Nil Suc.prems(1) by simp
    next
      case (Cons x xs)
      then obtain d' where d': "Emit_send 0 d = Some d'" "stepsLeft d' < stepsLeft d" "bus_target d' = bus_target d"
        using None by (auto simp: Emit_send_def stepsLeft_def)
      then show ?thesis using Suc.IH [OF busRun.send [OF Suc.prems(1) d'(1)]] Suc.prems(2) None by simp
    qed
  qed
qed

text \<open>
  C28: however the calls interleave, the bus neither loses nor repeats an event and lets none
  overtake a buffered one: what the targets have received, followed by what waits, starts
  with the events emitted before a target was set, in their order, and no later event is
  delivered while one of them waits. Once a target is set, the calls under way can finish,
  and then every event has been delivered.
\<close>

theorem event_bus_order:
  assumes "busRun bs ds d"
  shows "(\<exists>late. map snd (bus_log d) @ pendingEvents d = bs @ late \<and> (pendingEvents d \<noteq> [] \<longrightarrow> late = []) \<and>
            mset late + mset (map snd (bus_direct d)) = mset ds) \<and>
         (bus_target d \<noteq> None \<longrightarrow>
            (\<exists>late. map snd (bus_log (finishBus (stepsLeft d) d)) = bs @ late \<and> mset late = mset ds))"
proof -
  have inv: "busInv bs ds d" using assms by (rule busRun_inv)
  have "\<exists>late. map snd (bus_log (finishBus (stepsLeft d) d)) = bs @ late \<and> mset late = mset ds"
    if "bus_target d \<noteq> None"
  proof -
    let ?f = "finishBus (stepsLeft d) d"
    note f = finishBus_run [OF assms order.refl]
    have "busInv bs ds ?f" using f busRun_inv by blast
    then show ?thesis using f that by (auto simp: busInv_def flushRest_def)
  qed
  then show ?thesis using inv by (auto simp: busInv_def)
qed

definition sampleBus :: "nat bus" where
  "sampleBus = Emit_begin ''c'' 3 (the (SetTarget_begin 7 (Emit_begin ''b'' 2 (Emit_begin ''a'' 1 newBus))))"

lemma sampleBus_run: "busRun [(''a'', 1), (''b'', 2)] [(''c'', 3)] sampleBus"
proof -
  have 1: "busRun [(''a'', 1)] [] (Emit_begin ''a'' (1 :: nat) newBus)"
    using busRun.emit_early [OF busRun.start] by (simp add: newBus_def)
  have 2: "busRun [(''a'', 1), (''b'', 2)] [] (Emit_begin ''b'' 2 (Emit_begin ''a'' (1 :: nat) newBus))"
    using busRun.emit_early [OF 1, of "''b''" 2] by (simp add: newBus_def Emit_begin_def)
  let ?d = "Emit_begin ''b'' 2 (Emit_begin ''a'' (1 :: nat) newBus)"
  have s: "SetTarget_begin 7 ?d = Some (the (SetTarget_begin 7 ?d))"
    by (simp add: SetTarget_begin_def Emit_begin_def newBus_def)
  have t: "bus_target (the (SetTarget_begin 7 ?d)) = Some 7"
    by (simp add: SetTarget_begin_def Emit_begin_def newBus_def)
  show ?thesis using busRun.emit_late [OF busRun.set_target [OF 2 s] t, of "''c''" 3]
    by (simp add: sampleBus_def)
qed

theorem event_bus_order_witness:
  "\<exists>late. map snd (bus_log (finishBus (stepsLeft sampleBus) sampleBus)) = [(''a'', 1), (''b'', 2)] @ late \<and>
     mset late = {#(''c'', 3)#}"
proof -
  have "bus_target sampleBus \<noteq> None" by code_simp
  with event_bus_order [OF sampleBus_run] show ?thesis by simp
qed

end
