(* ===== verification/Fake_IDP.thy ===== *)
theory Fake_IDP
  imports Go_Http
begin

text \<open>
  The state of the fake identity provider of \<open>oidctest\<close> (\<open>fakeserver.go\<close>, \<open>hooks.go\<close>): its
  fields, options and setters, the request recorder, hooks and per-grant errors. An RSA key
  is a number that stands for the key \<open>rsa.GenerateKey\<close> drew, and a signer the pair of the key
  and the \<open>kid\<close> it writes; signing itself is go-jose's and a parameter of the handlers. A hook
  is a function of the request and the response writer.
\<close>

section \<open>hooks.go\<close>

record requestRecord =
  rec_Endpoint :: string
  rec_Method :: string
  rec_Params :: url_values

type_synonym jwk = "nat \<times> string \<times> string \<times> string"
type_synonym response = "jwk list respWriter"
type_synonym endpointHook = "serverRequest \<Rightarrow> response \<Rightarrow> bool \<times> response"

record hooks =
  hk_authorize :: "endpointHook option"
  hk_token :: "endpointHook option"
  hk_jwks :: "endpointHook option"
  hk_endSession :: "endpointHook option"
  hk_revocation :: "endpointHook option"
  hk_discovery :: "endpointHook option"
  hk_userinfo :: "endpointHook option"

definition noHooks :: hooks where
  "noHooks =
     \<lparr>hk_authorize = None, hk_token = None, hk_jwks = None, hk_endSession = None,
      hk_revocation = None, hk_discovery = None, hk_userinfo = None\<rparr>"

text \<open>The body the seven \<open>run\<close> methods share.\<close>

definition runHook :: "endpointHook option \<Rightarrow> serverRequest \<Rightarrow> response \<Rightarrow> bool \<times> response" where
  "runHook hook r w = (case hook of Some h \<Rightarrow> h r w | None \<Rightarrow> (False, w))"

definition SetAuthorizeHook :: "endpointHook option \<Rightarrow> hooks \<Rightarrow> hooks" where
  "SetAuthorizeHook hook h = h\<lparr>hk_authorize := hook\<rparr>"

definition SetTokenHook :: "endpointHook option \<Rightarrow> hooks \<Rightarrow> hooks" where
  "SetTokenHook hook h = h\<lparr>hk_token := hook\<rparr>"

definition SetJWKSHook :: "endpointHook option \<Rightarrow> hooks \<Rightarrow> hooks" where
  "SetJWKSHook hook h = h\<lparr>hk_jwks := hook\<rparr>"

definition SetEndSessionHook :: "endpointHook option \<Rightarrow> hooks \<Rightarrow> hooks" where
  "SetEndSessionHook hook h = h\<lparr>hk_endSession := hook\<rparr>"

definition SetRevocationHook :: "endpointHook option \<Rightarrow> hooks \<Rightarrow> hooks" where
  "SetRevocationHook hook h = h\<lparr>hk_revocation := hook\<rparr>"

definition SetDiscoveryHook :: "endpointHook option \<Rightarrow> hooks \<Rightarrow> hooks" where
  "SetDiscoveryHook hook h = h\<lparr>hk_discovery := hook\<rparr>"

definition SetUserinfoHook :: "endpointHook option \<Rightarrow> hooks \<Rightarrow> hooks" where
  "SetUserinfoHook hook h = h\<lparr>hk_userinfo := hook\<rparr>"

definition runAuthorize :: "hooks \<Rightarrow> serverRequest \<Rightarrow> response \<Rightarrow> bool \<times> response" where
  "runAuthorize h = runHook (hk_authorize h)"

definition runToken :: "hooks \<Rightarrow> serverRequest \<Rightarrow> response \<Rightarrow> bool \<times> response" where
  "runToken h = runHook (hk_token h)"

definition runJWKS :: "hooks \<Rightarrow> serverRequest \<Rightarrow> response \<Rightarrow> bool \<times> response" where
  "runJWKS h = runHook (hk_jwks h)"

definition runEndSession :: "hooks \<Rightarrow> serverRequest \<Rightarrow> response \<Rightarrow> bool \<times> response" where
  "runEndSession h = runHook (hk_endSession h)"

definition runRevocation :: "hooks \<Rightarrow> serverRequest \<Rightarrow> response \<Rightarrow> bool \<times> response" where
  "runRevocation h = runHook (hk_revocation h)"

definition runDiscovery :: "hooks \<Rightarrow> serverRequest \<Rightarrow> response \<Rightarrow> bool \<times> response" where
  "runDiscovery h = runHook (hk_discovery h)"

definition runUserinfo :: "hooks \<Rightarrow> serverRequest \<Rightarrow> response \<Rightarrow> bool \<times> response" where
  "runUserinfo h = runHook (hk_userinfo h)"

text \<open>\<open>GrantTypeErrorMap\<close>: a nil map and an empty one behave the same.\<close>

definition GrantErrors_Set :: "string \<Rightarrow> string \<Rightarrow> (string \<rightharpoonup> string) \<Rightarrow> (string \<rightharpoonup> string)" where
  "GrantErrors_Set grantType errorCode m = m(grantType \<mapsto> errorCode)"

definition GrantErrors_Clear :: "string \<Rightarrow> (string \<rightharpoonup> string) \<Rightarrow> (string \<rightharpoonup> string)" where
  "GrantErrors_Clear grantType m = m(grantType := None)"

definition GrantErrors_ClearAll :: "(string \<rightharpoonup> string) \<Rightarrow> (string \<rightharpoonup> string)" where
  "GrantErrors_ClearAll m = (\<lambda>_. None)"

definition GrantErrors_check :: "string \<Rightarrow> (string \<rightharpoonup> string) \<Rightarrow> string option" where
  "GrantErrors_check grantType m = m grantType"

text \<open>\<open>RequestRecorder\<close>. Records are values, so the deep copies of the code are the records.\<close>

definition record_request :: "string \<Rightarrow> string \<Rightarrow> url_values \<Rightarrow> requestRecord list \<Rightarrow> requestRecord list" where
  "record_request endpoint meth params recs =
     recs @ [\<lparr>rec_Endpoint = endpoint, rec_Method = meth, rec_Params = params\<rparr>]"

definition RecordsFor :: "string \<Rightarrow> requestRecord list \<Rightarrow> requestRecord list" where
  "RecordsFor endpoint recs = filter (\<lambda>rec. rec_Endpoint rec = endpoint) recs"

section \<open>The provider\<close>

record pendingCode =
  pc_clientID :: string
  pc_redirectURI :: string
  pc_nonce :: string
  pc_codeVerifier :: string
  pc_subject :: string
  pc_createdAt :: gotime

record idpTokenState =
  ts_subject :: string
  ts_clientID :: string
  ts_createdAt :: gotime

record fakeIDP =
  f_URL :: string
  f_Hooks :: hooks
  f_Recorder :: "requestRecord list"
  f_GrantErrors :: "string \<rightharpoonup> string"
  f_key :: nat
  f_signer :: "nat \<times> string"
  f_keyID :: string
  f_extraKeys :: "(nat \<times> string) list"
  f_clientID :: string
  f_redirectURIs :: "string list"
  f_scopes :: "string list"
  f_accessTTL :: duration
  f_refreshTTL :: duration
  f_idTokenTTL :: duration
  f_codeTTL :: duration
  f_codes :: "string \<rightharpoonup> pendingCode"
  f_refreshTokens :: "string \<rightharpoonup> idpTokenState"
  f_errorQueue :: "string list"
  f_stickyError :: string
  f_rejectBasicAuth :: bool
  f_forceNonce :: "string option"
  f_omitRefreshID :: bool
  f_refreshSubject :: "string option"
  f_refreshRawID :: "string option"
  f_lenient :: bool
  f_omitRevocation :: bool
  f_jwksError :: "int option"
  f_forceIssuer :: "string option"
  f_forceAudience :: "string option"
  f_forceAudiences :: "string list option"
  f_forceAzpJSON :: "string option"
  f_forceExpiry :: "gotime option"
  f_forceNotBefore :: "gotime option"

subsection \<open>Options\<close>

definition WithClientID :: "string \<Rightarrow> fakeIDP \<Rightarrow> fakeIDP" where
  "WithClientID i s = s\<lparr>f_clientID := i\<rparr>"

definition WithRedirectURI :: "string \<Rightarrow> fakeIDP \<Rightarrow> fakeIDP" where
  "WithRedirectURI uri s = s\<lparr>f_redirectURIs := f_redirectURIs s @ [uri]\<rparr>"

definition WithAccessTTL :: "duration \<Rightarrow> fakeIDP \<Rightarrow> fakeIDP" where
  "WithAccessTTL d s = s\<lparr>f_accessTTL := d\<rparr>"

definition WithRefreshTTL :: "duration \<Rightarrow> fakeIDP \<Rightarrow> fakeIDP" where
  "WithRefreshTTL d s = s\<lparr>f_refreshTTL := d\<rparr>"

definition WithIDTokenTTL :: "duration \<Rightarrow> fakeIDP \<Rightarrow> fakeIDP" where
  "WithIDTokenTTL d s = s\<lparr>f_idTokenTTL := d\<rparr>"

definition WithForcedIDTokenNonce :: "string \<Rightarrow> fakeIDP \<Rightarrow> fakeIDP" where
  "WithForcedIDTokenNonce nonce s = s\<lparr>f_forceNonce := Some nonce\<rparr>"

definition WithOmitRefreshIDToken :: "fakeIDP \<Rightarrow> fakeIDP" where
  "WithOmitRefreshIDToken s = s\<lparr>f_omitRefreshID := True\<rparr>"

definition WithRefreshIDTokenSubject :: "string \<Rightarrow> fakeIDP \<Rightarrow> fakeIDP" where
  "WithRefreshIDTokenSubject subject s = s\<lparr>f_refreshSubject := Some subject\<rparr>"

definition WithRawRefreshIDToken :: "string \<Rightarrow> fakeIDP \<Rightarrow> fakeIDP" where
  "WithRawRefreshIDToken raw s = s\<lparr>f_refreshRawID := Some raw\<rparr>"

definition WithRejectBasicAuth :: "fakeIDP \<Rightarrow> fakeIDP" where
  "WithRejectBasicAuth s = s\<lparr>f_rejectBasicAuth := True\<rparr>"

definition WithAllowedScopes :: "string list \<Rightarrow> fakeIDP \<Rightarrow> fakeIDP" where
  "WithAllowedScopes scopes s = s\<lparr>f_scopes := scopes\<rparr>"

definition WithCodeTTL :: "duration \<Rightarrow> fakeIDP \<Rightarrow> fakeIDP" where
  "WithCodeTTL d s = s\<lparr>f_codeTTL := d\<rparr>"

definition WithOmitRevocationEndpoint :: "fakeIDP \<Rightarrow> fakeIDP" where
  "WithOmitRevocationEndpoint s = s\<lparr>f_omitRevocation := True\<rparr>"

definition WithLenientMode :: "fakeIDP \<Rightarrow> fakeIDP" where
  "WithLenientMode s = s\<lparr>f_lenient := True\<rparr>"

text \<open>
  \<open>NewFakeIDP\<close>: the key drawn, the URL the test server listens on, and the options in their
  order. The clock, \<open>WithClock\<close>, is a parameter of the handlers.
\<close>

definition NewFakeIDP :: "nat \<Rightarrow> string \<Rightarrow> (fakeIDP \<Rightarrow> fakeIDP) list \<Rightarrow> fakeIDP" where
  "NewFakeIDP key serverURL opts =
     fold (\<lambda>opt s. opt s) opts
       \<lparr>f_URL = serverURL, f_Hooks = noHooks, f_Recorder = [], f_GrantErrors = (\<lambda>_. None),
        f_key = key, f_signer = (key, ''test-key-1''), f_keyID = ''test-key-1'', f_extraKeys = [],
        f_clientID = ''test-client'', f_redirectURIs = [''http://127.0.0.1:0/callback''], f_scopes = [],
        f_accessTTL = 5 * minute, f_refreshTTL = 24 * hour, f_idTokenTTL = 5 * minute,
        f_codeTTL = 30 * second, f_codes = (\<lambda>_. None), f_refreshTokens = (\<lambda>_. None),
        f_errorQueue = [], f_stickyError = '''', f_rejectBasicAuth = False, f_forceNonce = None,
        f_omitRefreshID = False, f_refreshSubject = None, f_refreshRawID = None, f_lenient = False,
        f_omitRevocation = False, f_jwksError = None, f_forceIssuer = None, f_forceAudience = None,
        f_forceAudiences = None, f_forceAzpJSON = None, f_forceExpiry = None,
        f_forceNotBefore = None\<rparr>"

subsection \<open>Setters\<close>

definition QueueError :: "string \<Rightarrow> fakeIDP \<Rightarrow> fakeIDP" where
  "QueueError code s = s\<lparr>f_errorQueue := f_errorQueue s @ [code]\<rparr>"

definition SetTokenError :: "string \<Rightarrow> fakeIDP \<Rightarrow> fakeIDP" where
  "SetTokenError code s = s\<lparr>f_stickyError := code\<rparr>"

definition ClearTokenError :: "fakeIDP \<Rightarrow> fakeIDP" where
  "ClearTokenError s = s\<lparr>f_stickyError := ''''\<rparr>"

definition SetAccessTTL :: "duration \<Rightarrow> fakeIDP \<Rightarrow> fakeIDP" where
  "SetAccessTTL d s = s\<lparr>f_accessTTL := d\<rparr>"

text \<open>\<open>None\<close>: \<open>t.Fatal\<close> ends the test. \<open>newKey\<close> is the key drawn.\<close>

definition RotateKey :: "goerror + nat \<Rightarrow> string \<Rightarrow> fakeIDP \<Rightarrow> fakeIDP option" where
  "RotateKey newKey newKeyID s =
     (if newKeyID = '''' then None
      else case newKey of
        Inl _ \<Rightarrow> None
      | Inr k \<Rightarrow>
          if f_keyID s = newKeyID then None
          else if list_ex (\<lambda>ek. snd ek = newKeyID) (f_extraKeys s) then None
          else Some (s\<lparr>f_extraKeys := f_extraKeys s @ [(f_key s, f_keyID s)], f_key := k,
                       f_signer := (k, newKeyID), f_keyID := newKeyID\<rparr>))"

definition SetJWKSError :: "int \<Rightarrow> fakeIDP \<Rightarrow> fakeIDP" where
  "SetJWKSError statusCode s = s\<lparr>f_jwksError := Some statusCode\<rparr>"

definition ClearJWKSError :: "fakeIDP \<Rightarrow> fakeIDP" where
  "ClearJWKSError s = s\<lparr>f_jwksError := None\<rparr>"

definition SetForceIssuer :: "string \<Rightarrow> fakeIDP \<Rightarrow> fakeIDP" where
  "SetForceIssuer issuer s = s\<lparr>f_forceIssuer := (if issuer = '''' then None else Some issuer)\<rparr>"

definition SetForceAudience :: "string \<Rightarrow> fakeIDP \<Rightarrow> fakeIDP" where
  "SetForceAudience aud s = s\<lparr>f_forceAudience := (if aud = '''' then None else Some aud)\<rparr>"

definition SetForceAudiences :: "string list \<Rightarrow> fakeIDP \<Rightarrow> fakeIDP" where
  "SetForceAudiences auds s = s\<lparr>f_forceAudiences := (if auds = [] then None else Some auds)\<rparr>"

definition SetForceAzpRawJSON :: "string \<Rightarrow> fakeIDP \<Rightarrow> fakeIDP" where
  "SetForceAzpRawJSON raw s = s\<lparr>f_forceAzpJSON := (if raw = '''' then None else Some raw)\<rparr>"

text \<open>\<open>json.Marshal\<close> of a string is the parameter \<open>marshal\<close>.\<close>

definition SetForceAzp :: "(string \<Rightarrow> string) \<Rightarrow> string \<Rightarrow> fakeIDP \<Rightarrow> fakeIDP" where
  "SetForceAzp marshal azp s =
     (if azp = '''' then SetForceAzpRawJSON '''' s else SetForceAzpRawJSON (marshal azp) s)"

definition SetForceExpiry :: "gotime \<Rightarrow> fakeIDP \<Rightarrow> fakeIDP" where
  "SetForceExpiry t s = s\<lparr>f_forceExpiry := (if time_isZero t then None else Some t)\<rparr>"

definition SetForceNotBefore :: "gotime \<Rightarrow> fakeIDP \<Rightarrow> fakeIDP" where
  "SetForceNotBefore t s = s\<lparr>f_forceNotBefore := (if time_isZero t then None else Some t)\<rparr>"

end
