(* ===== verification/Fake_IDP_Handlers.thy ===== *)
theory Fake_IDP_Handlers
  imports Fake_IDP
begin

text \<open>
  The endpoints of the fake identity provider (\<open>fakeserver.go\<close>). The sections a handler runs
  under \<open>mu\<close> are definitions of their own; between two of them \<open>ie_gap\<close> says what other requests
  and the test did to the provider. The fields set only by options are read without the lock
  and never change. Randomness, the clock, go-jose's signer and SHA-256 are parameters.
\<close>

section \<open>Parameters\<close>

text \<open>The claims handed to go-jose. \<open>ic_Azp\<close> is raw JSON.\<close>

record idTokenClaims =
  ic_Issuer :: string
  ic_Subject :: string
  ic_Audience :: "string list"
  ic_IssuedAt :: gotime
  ic_Expiry :: gotime
  ic_NotBefore :: gotime
  ic_Nonce :: string
  ic_Email :: string
  ic_Name :: string
  ic_Azp :: "string option"

record idpEnv =
  ie_now :: gotime
  ie_nowIssued :: gotime
  ie_random1 :: string
  ie_random2 :: string
  ie_sign :: "nat \<times> string \<Rightarrow> idTokenClaims \<Rightarrow> goerror + string"
  ie_sha256 :: "string \<Rightarrow> string"
  ie_gap :: "nat \<Rightarrow> fakeIDP \<Rightarrow> fakeIDP"

section \<open>Helpers\<close>

definition generateRandomString :: "string \<Rightarrow> string" where
  "generateRandomString bytes = encodeToString bytes"

definition computeS256Challenge :: "(string \<Rightarrow> string) \<Rightarrow> string \<Rightarrow> string" where
  "computeS256Challenge sha256 v = encodeToString (sha256 v)"

definition writeJSON :: "json \<Rightarrow> response \<Rightarrow> response" where
  "writeJSON doc w = writeBody (Json doc) (setHeader ''Content-Type'' ''application/json'' w)"

definition tokenError :: "string \<Rightarrow> string \<Rightarrow> response \<Rightarrow> response" where
  "tokenError code description w =
     (let w = setHeader ''Content-Type'' ''application/json'' w;
          w = WriteHeader 400 w
      in writeBody (Json (JObj [(''error'', JStr code), (''error_description'', JStr description)])) w)"

definition redirectWithError ::
  "serverRequest \<Rightarrow> string \<Rightarrow> string \<Rightarrow> string \<Rightarrow> string \<Rightarrow> response \<Rightarrow> response" where
  "redirectWithError r redirectURI st code description w =
     (case Parse redirectURI of
        Inl _ \<Rightarrow> http_Error ''invalid redirect_uri'' 400 w
      | Inr u \<Rightarrow>
          (let q = Query u;
               q = Values_Set q ''error'' code;
               q = Values_Set q ''error_description'' description;
               q = Values_Set q ''state'' st
           in http_Redirect r (URL_String (u\<lparr>u_RawQuery := Values_Encode q\<rparr>)) 302 w))"

text \<open>One registered URI against the parsed one.\<close>

definition registeredMatches :: "url \<Rightarrow> string \<Rightarrow> bool" where
  "registeredMatches parsed registered \<longleftrightarrow>
     (case Parse registered of
        Inl _ \<Rightarrow> False
      | Inr reg \<Rightarrow>
          u_Scheme reg = u_Scheme parsed \<and> u_Path reg = u_Path parsed \<and>
          Hostname reg = Hostname parsed \<and> (Port reg = ''0'' \<or> Port reg = Port parsed))"

definition isRegisteredRedirectURI :: "string \<Rightarrow> fakeIDP \<Rightarrow> bool" where
  "isRegisteredRedirectURI uri s \<longleftrightarrow>
     (case Parse uri of
        Inl _ \<Rightarrow> False
      | Inr parsed \<Rightarrow> list_ex (registeredMatches parsed) (f_redirectURIs s))"

definition findUnknownScope :: "string \<Rightarrow> string list \<Rightarrow> string" where
  "findUnknownScope scopeStr allowed =
     (case find (\<lambda>sc. sc \<notin> set allowed) (splitFields scopeStr) of None \<Rightarrow> '''' | Some sc \<Rightarrow> sc)"

definition signIDToken ::
  "(nat \<times> string \<Rightarrow> idTokenClaims \<Rightarrow> goerror + string) \<Rightarrow> string \<Rightarrow> string \<Rightarrow> string \<Rightarrow> gotime \<Rightarrow> duration \<Rightarrow>
   fakeIDP \<Rightarrow> string result" where
  "signIDToken sign subject audience nonce now ttl s =
     (let issuer = (case f_forceIssuer s of Some i \<Rightarrow> i | None \<Rightarrow> f_URL s);
          audience = (case f_forceAudience s of Some a \<Rightarrow> a | None \<Rightarrow> audience);
          audiences = (case f_forceAudiences s of Some auds \<Rightarrow> auds | None \<Rightarrow> [audience]);
          expiry = (case f_forceExpiry s of Some t \<Rightarrow> t | None \<Rightarrow> time_add now ttl);
          notBefore = (case f_forceNotBefore s of Some t \<Rightarrow> t | None \<Rightarrow> time_add now (- minute))
      in case sign (f_signer s)
             \<lparr>ic_Issuer = issuer, ic_Subject = subject, ic_Audience = audiences, ic_IssuedAt = now,
              ic_Expiry = expiry, ic_NotBefore = notBefore, ic_Nonce = nonce,
              ic_Email = ''test@example.com'', ic_Name = ''Test User'', ic_Azp = f_forceAzpJSON s\<rparr> of
           Inl err \<Rightarrow> Inl (Errorf [Txt ''sign ID token: '', Wrapped err])
         | Inr tok \<Rightarrow> Inr tok)"

text \<open>\<open>int(accessTTL.Seconds())\<close>, the quotient truncated toward zero.\<close>

definition wholeSeconds :: "duration \<Rightarrow> int" where
  "wholeSeconds d = (if 0 \<le> d then d div second else - ((- d) div second))"

section \<open>Discovery, keys and user info\<close>

definition discoveryDocument :: "fakeIDP \<Rightarrow> claim_set" where
  "discoveryDocument s =
     [(''issuer'', JStr (f_URL s)),
      (''authorization_endpoint'', JStr (f_URL s @ ''/authorize'')),
      (''token_endpoint'', JStr (f_URL s @ ''/token'')),
      (''jwks_uri'', JStr (f_URL s @ ''/jwks'')),
      (''userinfo_endpoint'', JStr (f_URL s @ ''/userinfo'')),
      (''end_session_endpoint'', JStr (f_URL s @ ''/end_session'')),
      (''response_types_supported'', JArr [JStr ''code'']),
      (''subject_types_supported'', JArr [JStr ''public'']),
      (''id_token_signing_alg_values_supported'', JArr [JStr ''RS256'']),
      (''scopes_supported'', JArr (map JStr [''openid'', ''profile'', ''email'', ''offline_access''])),
      (''token_endpoint_auth_methods_supported'', JArr (map JStr [''none'', ''client_secret_post''])),
      (''code_challenge_methods_supported'', JArr [JStr ''S256''])] @
     (if f_omitRevocation s then [] else [(''revocation_endpoint'', JStr (f_URL s @ ''/revoke''))])"

definition handleDiscovery :: "idpEnv \<Rightarrow> serverRequest \<Rightarrow> response \<Rightarrow> fakeIDP \<Rightarrow> response \<times> fakeIDP" where
  "handleDiscovery env r w s = (writeJSON (JObj (discoveryDocument s)) w, s)"

definition handleJWKS :: "idpEnv \<Rightarrow> serverRequest \<Rightarrow> response \<Rightarrow> fakeIDP \<Rightarrow> response \<times> fakeIDP" where
  "handleJWKS env r w s =
     (case f_jwksError s of
        Some code \<Rightarrow> (http_Error ''simulated JWKS failure'' code w, s)
      | None \<Rightarrow>
          (let s = ie_gap env 0 s;
               keys = (f_key s, f_keyID s, ''RS256'', ''sig'') #
                      map (\<lambda>(k, kid). (k, kid, ''RS256'', ''sig'')) (f_extraKeys s)
           in (writeBody (KeySet keys) (setHeader ''Content-Type'' ''application/json'' w), s)))"

definition handleUserinfo :: "idpEnv \<Rightarrow> serverRequest \<Rightarrow> response \<Rightarrow> fakeIDP \<Rightarrow> response \<times> fakeIDP" where
  "handleUserinfo env r w s =
     (writeJSON (JObj [(''sub'', JStr ''test-user''), (''name'', JStr ''Test User''),
        (''email'', JStr ''test@example.com'')]) w, s)"

section \<open>The authorization endpoint\<close>

text \<open>The locked section that stores a new code.\<close>

definition issueCode :: "string \<Rightarrow> pendingCode \<Rightarrow> fakeIDP \<Rightarrow> fakeIDP" where
  "issueCode code pending s =
     (let pending = (case f_forceNonce s of Some n \<Rightarrow> pending\<lparr>pc_nonce := n\<rparr> | None \<Rightarrow> pending)
      in s\<lparr>f_codes := (f_codes s)(code \<mapsto> pending)\<rparr>)"

definition handleAuthorize :: "idpEnv \<Rightarrow> serverRequest \<Rightarrow> response \<Rightarrow> fakeIDP \<Rightarrow> response \<times> fakeIDP" where
  "handleAuthorize env r w s =
     (let query = Query (sr_URL r);
          clientID = Values_Get query ''client_id'';
          redirectURI = Values_Get query ''redirect_uri'';
          st = Values_Get query ''state'';
          responseType = Values_Get query ''response_type'';
          codeChallenge = Values_Get query ''code_challenge'';
          codeChallengeMethod = Values_Get query ''code_challenge_method'';
          scope = Values_Get query ''scope'';
          nonce = Values_Get query ''nonce'';
          refuse = (\<lambda>code description. redirectWithError r redirectURI st code description w);
          unknownScope =
            (if f_scopes s \<noteq> [] \<and> scope \<noteq> '''' then findUnknownScope scope (f_scopes s) else '''')
      in if clientID \<noteq> f_clientID s then (http_Error ''invalid client_id'' 400 w, s)
         else if redirectURI = '''' then (http_Error ''missing redirect_uri'' 400 w, s)
         else if \<not> f_lenient s \<and> \<not> isRegisteredRedirectURI redirectURI s
         then (http_Error ''unregistered redirect_uri'' 400 w, s)
         else if \<not> f_lenient s \<and> responseType \<noteq> ''code''
         then (refuse ''unsupported_response_type'' ''only code is supported'', s)
         else if \<not> f_lenient s \<and> codeChallenge = ''''
         then (refuse ''invalid_request'' ''code_challenge is required'', s)
         else if \<not> f_lenient s \<and> codeChallengeMethod \<noteq> ''S256''
         then (refuse ''invalid_request'' ''code_challenge_method must be S256'', s)
         else if f_lenient s \<and> codeChallengeMethod \<noteq> '''' \<and> codeChallengeMethod \<noteq> ''S256''
         then (refuse ''invalid_request'' ''only S256 supported'', s)
         else if unknownScope \<noteq> ''''
         then (refuse ''invalid_scope'' (''unknown scope: '' @ unknownScope), s)
         else let code = generateRandomString (ie_random1 env);
                  s = issueCode code
                        \<lparr>pc_clientID = clientID, pc_redirectURI = redirectURI, pc_nonce = nonce,
                         pc_codeVerifier = codeChallenge, pc_subject = ''test-user'',
                         pc_createdAt = ie_now env\<rparr> (ie_gap env 0 s)
              in (case Parse redirectURI of
                    Inl _ \<Rightarrow> (http_Error ''invalid redirect_uri'' 400 w, s)
                  | Inr u \<Rightarrow>
                      (let q = Query u;
                           q = Values_Set q ''code'' code;
                           q = Values_Set q ''state'' st
                       in (http_Redirect r (URL_String (u\<lparr>u_RawQuery := Values_Encode q\<rparr>)) 302 w, s))))"

section \<open>The token endpoint\<close>

text \<open>The locked section that pops the error to simulate, if any.\<close>

definition simulatedError :: "fakeIDP \<Rightarrow> (string \<times> string) option \<times> fakeIDP" where
  "simulatedError s =
     (if f_stickyError s \<noteq> '''' then (Some (f_stickyError s, ''simulated persistent error''), s)
      else case f_errorQueue s of
        e # es \<Rightarrow> (Some (e, ''simulated error''), s\<lparr>f_errorQueue := es\<rparr>)
      | [] \<Rightarrow> (None, s))"

text \<open>The locked section that takes a code out, once.\<close>

definition takeCode :: "string \<Rightarrow> fakeIDP \<Rightarrow> pendingCode option \<times> fakeIDP" where
  "takeCode code s = (f_codes s code, s\<lparr>f_codes := (f_codes s)(code := None)\<rparr>)"

definition storeRefreshToken :: "string \<Rightarrow> idpTokenState \<Rightarrow> fakeIDP \<Rightarrow> fakeIDP" where
  "storeRefreshToken refreshToken st s =
     s\<lparr>f_refreshTokens := (f_refreshTokens s)(refreshToken \<mapsto> st)\<rparr>"

definition tokenResponse :: "string \<Rightarrow> duration \<Rightarrow> string \<Rightarrow> claim_set" where
  "tokenResponse accessToken accessTTL refreshToken =
     [(''access_token'', JStr accessToken), (''token_type'', JStr ''Bearer''),
      (''expires_in'', JNum (of_int (wholeSeconds accessTTL))), (''refresh_token'', JStr refreshToken)]"

text \<open>The first check a code fails, in the order of the code; \<open>None\<close> if it passes all.\<close>

definition codeFault ::
  "(string \<Rightarrow> string) \<Rightarrow> gotime \<Rightarrow> duration \<Rightarrow> bool \<Rightarrow> serverRequest \<Rightarrow> pendingCode \<Rightarrow> string option" where
  "codeFault sha256 now codeTTL lenient r pending =
     (let codeVerifier = FormValue r ''code_verifier'';
          clientID = FormValue r ''client_id'';
          redirectURI = FormValue r ''redirect_uri''
      in if \<not> lenient \<and> codeTTL > 0 \<and> time_sub now (pc_createdAt pending) > codeTTL
         then Some ''authorization code expired''
         else if \<not> lenient \<and> clientID \<noteq> pc_clientID pending then Some ''client_id mismatch''
         else if \<not> lenient \<and> redirectURI \<noteq> pc_redirectURI pending then Some ''redirect_uri mismatch''
         else if pc_codeVerifier pending \<noteq> '''' \<and> codeVerifier = '''' then Some ''code_verifier required''
         else if pc_codeVerifier pending \<noteq> '''' \<and>
                 computeS256Challenge sha256 codeVerifier \<noteq> pc_codeVerifier pending
         then Some ''code_verifier mismatch''
         else None)"

definition handleAuthCodeExchange ::
  "idpEnv \<Rightarrow> serverRequest \<Rightarrow> response \<Rightarrow> fakeIDP \<Rightarrow> response \<times> fakeIDP" where
  "handleAuthCodeExchange env r w s =
     (let code = FormValue r ''code'';
          (pending, s') = takeCode code s
      in case pending of
           None \<Rightarrow> (tokenError ''invalid_grant'' ''invalid or expired authorization code'' w, s')
         | Some pending \<Rightarrow>
             (case codeFault (ie_sha256 env) (ie_now env) (f_codeTTL s) (f_lenient s) r pending of
                Some fault \<Rightarrow> (tokenError ''invalid_grant'' fault w, s')
              | None \<Rightarrow>
                  (let s1 = ie_gap env 1 s';
                       accessTTL = f_accessTTL s1;
                       idTokenTTL = f_idTokenTTL s1;
                       now = ie_nowIssued env;
                       accessToken = generateRandomString (ie_random1 env);
                       refreshToken = generateRandomString (ie_random2 env);
                       s2 = ie_gap env 2 s1
                   in case signIDToken (ie_sign env) (pc_subject pending) (pc_clientID pending)
                             (pc_nonce pending) now idTokenTTL s2 of
                        Inl _ \<Rightarrow> (tokenError ''server_error'' ''failed to sign ID token'' w, s2)
                      | Inr idToken \<Rightarrow>
                          (writeJSON (JObj (tokenResponse accessToken accessTTL refreshToken @
                             [(''id_token'', JStr idToken)])) w,
                           storeRefreshToken refreshToken
                             \<lparr>ts_subject = pc_subject pending, ts_clientID = pc_clientID pending,
                              ts_createdAt = now\<rparr> (ie_gap env 3 s2)))))"

definition stateSubject :: "idpTokenState option \<Rightarrow> string" where
  "stateSubject st = (case st of None \<Rightarrow> '''' | Some t \<Rightarrow> ts_subject t)"

text \<open>The locked section that takes a refresh token out: it is rotated.\<close>

definition takeRefreshToken :: "string \<Rightarrow> fakeIDP \<Rightarrow> idpTokenState option \<times> fakeIDP" where
  "takeRefreshToken tok s =
     (f_refreshTokens s tok, s\<lparr>f_refreshTokens := (f_refreshTokens s)(tok := None)\<rparr>)"

definition handleRefreshExchange ::
  "idpEnv \<Rightarrow> serverRequest \<Rightarrow> response \<Rightarrow> fakeIDP \<Rightarrow> response \<times> fakeIDP" where
  "handleRefreshExchange env r w s =
     (let oldRefresh = FormValue r ''refresh_token'';
          (st, s') = takeRefreshToken oldRefresh s;
          subject = (case f_refreshSubject s of Some sub \<Rightarrow> sub | None \<Rightarrow> stateSubject st)
      in case st of
           None \<Rightarrow> (tokenError ''invalid_grant'' ''invalid or expired refresh token'' w, s')
         | Some st \<Rightarrow>
             (let now = ie_nowIssued env;
                  accessToken = generateRandomString (ie_random1 env);
                  newRefreshToken = generateRandomString (ie_random2 env);
                  s1 = ie_gap env 1 s';
                  idToken =
                    (if f_omitRefreshID s then Inr ''''
                     else case f_refreshRawID s of
                            Some raw \<Rightarrow> Inr raw
                          | None \<Rightarrow> signIDToken (ie_sign env) subject (ts_clientID st) '''' now (f_idTokenTTL s) s1)
              in case idToken of
                   Inl _ \<Rightarrow> (tokenError ''server_error'' ''failed to sign ID token'' w, s1)
                 | Inr idToken \<Rightarrow>
                     (writeJSON (JObj (tokenResponse accessToken (f_accessTTL s) newRefreshToken @
                        (if idToken \<noteq> '''' then [(''id_token'', JStr idToken)] else []))) w,
                      storeRefreshToken newRefreshToken
                        \<lparr>ts_subject = ts_subject st, ts_clientID = ts_clientID st, ts_createdAt = now\<rparr>
                        (ie_gap env 2 s1))))"

text \<open>The locked section that drops the code of a client that used Basic authentication.\<close>

definition dropCode :: "string \<Rightarrow> fakeIDP \<Rightarrow> fakeIDP" where
  "dropCode code s = s\<lparr>f_codes := (f_codes s)(code := None)\<rparr>"

definition handleToken :: "idpEnv \<Rightarrow> serverRequest \<Rightarrow> response \<Rightarrow> fakeIDP \<Rightarrow> response \<times> fakeIDP" where
  "handleToken env r w s =
     (let (err, r) = ParseForm r
      in if err \<noteq> None then (tokenError ''invalid_request'' ''failed to parse form'' w, s)
         else case simulatedError s of
           (Some (code, description), s) \<Rightarrow> (tokenError code description w, s)
         | (None, s) \<Rightarrow>
             (let s = ie_gap env 0 s
              in if f_rejectBasicAuth s \<and> sr_basicAuth r \<noteq> None
                 then (tokenError ''invalid_client'' ''client authentication not allowed for public client'' w,
                       if FormValue r ''code'' \<noteq> '''' then dropCode (FormValue r ''code'') s else s)
                 else let grantType = FormValue r ''grant_type''
                      in (case GrantErrors_check grantType (f_GrantErrors s) of
                            Some errCode \<Rightarrow> (tokenError errCode ''simulated grant-scoped error'' w, s)
                          | None \<Rightarrow>
                              if grantType = ''authorization_code'' then handleAuthCodeExchange env r w s
                              else if grantType = ''refresh_token'' then handleRefreshExchange env r w s
                              else (tokenError ''unsupported_grant_type''
                                      (''unsupported grant_type: '' @ grantType) w, s))))"

section \<open>Revocation and end of session\<close>

definition revokeToken :: "string \<Rightarrow> fakeIDP \<Rightarrow> fakeIDP" where
  "revokeToken tok s = s\<lparr>f_refreshTokens := (f_refreshTokens s)(tok := None)\<rparr>"

definition handleRevoke :: "idpEnv \<Rightarrow> serverRequest \<Rightarrow> response \<Rightarrow> fakeIDP \<Rightarrow> response \<times> fakeIDP" where
  "handleRevoke env r w s =
     (let (err, r) = ParseForm r
      in if err \<noteq> None then (tokenError ''invalid_request'' ''malformed form body'' w, s)
         else if Values_Get (requestForm r) ''token'' = ''''
         then (tokenError ''invalid_request'' ''token parameter is required'' w, s)
         else (WriteHeader 200 w, revokeToken (Values_Get (requestForm r) ''token'') s))"

definition handleEndSession :: "idpEnv \<Rightarrow> serverRequest \<Rightarrow> response \<Rightarrow> fakeIDP \<Rightarrow> response \<times> fakeIDP" where
  "handleEndSession env r w s =
     (let q = Query (sr_URL r);
          postLogoutURI = Values_Get q ''post_logout_redirect_uri'';
          st = Values_Get q ''state''
      in if postLogoutURI \<noteq> ''''
         then (let target =
                     (if st = '''' then postLogoutURI
                      else case Parse postLogoutURI of
                        Inl _ \<Rightarrow> postLogoutURI
                      | Inr u \<Rightarrow> URL_String (u\<lparr>u_RawQuery := Values_Encode (Values_Set (Query u) ''state'' st)\<rparr>))
               in (http_Redirect r target 302 w, s))
         else (writeBody (Text ''Logged out'') (WriteHeader 200 w), s))"

section \<open>Routing\<close>

definition wrapHandler ::
  "string \<Rightarrow> (hooks \<Rightarrow> serverRequest \<Rightarrow> response \<Rightarrow> bool \<times> response) \<Rightarrow>
   (idpEnv \<Rightarrow> serverRequest \<Rightarrow> response \<Rightarrow> fakeIDP \<Rightarrow> response \<times> fakeIDP) \<Rightarrow>
   idpEnv \<Rightarrow> serverRequest \<Rightarrow> response \<Rightarrow> fakeIDP \<Rightarrow> response \<times> fakeIDP" where
  "wrapHandler endpoint hookFn defaultHandler env r w s =
     (let r' = (if sr_Method r = ''POST'' then snd (ParseForm r) else r);
          params = (if sr_Method r = ''POST'' then the (sr_PostForm r') else Query (sr_URL r));
          s = s\<lparr>f_Recorder := record_request endpoint (sr_Method r) params (f_Recorder s)\<rparr>
      in case hookFn (f_Hooks s) r' w of
           (True, w) \<Rightarrow> (w, s)
         | (False, w) \<Rightarrow> defaultHandler env r' w s)"

text \<open>
  The routes of the \<open>ServeMux\<close>: a GET pattern also serves HEAD, a known path with another
  method is 405 and an unknown path 404.
\<close>

definition idpRoutes ::
  "(string \<times> string \<times> (idpEnv \<Rightarrow> serverRequest \<Rightarrow> response \<Rightarrow> fakeIDP \<Rightarrow> response \<times> fakeIDP)) list" where
  "idpRoutes =
     [(''/.well-known/openid-configuration'', ''GET'',
         wrapHandler ''/.well-known/openid-configuration'' runDiscovery handleDiscovery),
      (''/authorize'', ''GET'', wrapHandler ''/authorize'' runAuthorize handleAuthorize),
      (''/token'', ''POST'', wrapHandler ''/token'' runToken handleToken),
      (''/jwks'', ''GET'', wrapHandler ''/jwks'' runJWKS handleJWKS),
      (''/end_session'', ''GET'', wrapHandler ''/end_session'' runEndSession handleEndSession),
      (''/userinfo'', ''GET'', wrapHandler ''/userinfo'' runUserinfo handleUserinfo),
      (''/revoke'', ''POST'', wrapHandler ''/revoke'' runRevocation handleRevoke)]"

definition serveIDP :: "idpEnv \<Rightarrow> serverRequest \<Rightarrow> fakeIDP \<Rightarrow> response \<times> fakeIDP" where
  "serveIDP env r s =
     (case map_of idpRoutes (u_Path (sr_URL r)) of
        None \<Rightarrow> (http_Error ''404 page not found'' 404 newResponse, s)
      | Some (meth, handler) \<Rightarrow>
          if sr_Method r = meth \<or> meth = ''GET'' \<and> sr_Method r = ''HEAD'' then handler env r newResponse s
          else (http_Error ''Method Not Allowed'' 405
                  (setHeader ''Allow'' (if meth = ''GET'' then ''GET, HEAD'' else meth) newResponse), s))"

end
