(* ===== verification/Fake_IDP_Props.thy ===== *)
theory Fake_IDP_Props
  imports Fake_IDP_Handlers Go_Url_Roundtrip
begin

text \<open>
  What the fake identity provider enforces: where the authorization endpoint redirects to and
  what it issues, when the token endpoint answers with tokens, that codes and refresh tokens
  work once however requests interleave, and that published keys cover every signature.
\<close>

section \<open>Responses\<close>

lemmas response_defs =
  respStatus_def respLocation_def respHeader_def WriteHeader_def writeBody_def setHeader_def
  Header_Set_def Header_Get_def Let_def

lemma tokenError_new [simp]: "respStatus (tokenError code d newResponse) = 400"
  by (simp add: tokenError_def response_defs)

lemma writeJSON_new [simp]:
  "respStatus (writeJSON doc newResponse) = 200" "rw_body (writeJSON doc newResponse) = [Json doc]"
  by (simp_all add: writeJSON_def response_defs)

lemma redirect_plain:
  assumes "plainURL u" and "q \<noteq> []" and "sr_Method r = ''GET''"
  shows "respStatus (http_Redirect r (URL_String (u\<lparr>u_RawQuery := Values_Encode q\<rparr>)) 302 newResponse) = 302"
    and "respLocation (http_Redirect r (URL_String (u\<lparr>u_RawQuery := Values_Encode q\<rparr>)) 302 newResponse) =
           URL_String (u\<lparr>u_RawQuery := Values_Encode q\<rparr>)"
    and "Parse (URL_String (u\<lparr>u_RawQuery := Values_Encode q\<rparr>)) = Inr (u\<lparr>u_RawQuery := Values_Encode q\<rparr>)"
proof -
  note parse = Parse_with_query [OF assms(1,2)]
  have "u_Scheme u \<noteq> ''''" using assms(1) by (simp add: plainURL_def validScheme_def)
  then have "redirectTarget p (URL_String (u\<lparr>u_RawQuery := Values_Encode q\<rparr>)) =
      URL_String (u\<lparr>u_RawQuery := Values_Encode q\<rparr>)" for p
    using redirectTarget_absolute [OF parse] by simp
  then show "respLocation (http_Redirect r (URL_String (u\<lparr>u_RawQuery := Values_Encode q\<rparr>)) 302 newResponse) =
           URL_String (u\<lparr>u_RawQuery := Values_Encode q\<rparr>)"
    by (simp add: http_Redirect_new(2) [OF assms(3)] hexEscapeNonASCII_id plain_String_ascii assms(1,2))
qed (simp_all add: http_Redirect_new(1) Parse_with_query assms)

section \<open>The authorization endpoint\<close>

text \<open>The code a request asks for.\<close>

definition requestedCode :: "gotime \<Rightarrow> url_values \<Rightarrow> pendingCode" where
  "requestedCode now q =
     \<lparr>pc_clientID = Values_Get q ''client_id'', pc_redirectURI = Values_Get q ''redirect_uri'',
      pc_nonce = Values_Get q ''nonce'', pc_codeVerifier = Values_Get q ''code_challenge'',
      pc_subject = ''test-user'', pc_createdAt = now\<rparr>"

text \<open>What strict mode requires of a code before it is issued.\<close>

definition authorizedCode :: "fakeIDP \<Rightarrow> pendingCode \<Rightarrow> bool" where
  "authorizedCode s pc \<longleftrightarrow>
     pc_clientID pc = f_clientID s \<and>
     (\<not> f_lenient s \<longrightarrow> isRegisteredRedirectURI (pc_redirectURI pc) s \<and> pc_codeVerifier pc \<noteq> '''')"

text \<open>The URL of a redirect that carries the request's state and other parameters.\<close>

definition answerURL :: "url \<Rightarrow> (string \<times> string) list \<Rightarrow> string" where
  "answerURL u kvs =
     URL_String (u\<lparr>u_RawQuery := Values_Encode (fold (\<lambda>(k, v) q. Values_Set q k v) kvs (Query u))\<rparr>)"

lemma handleAuthorize_cases:
  assumes "handleAuthorize env r w0 s = (w, s')"
  defines "q \<equiv> Query (sr_URL r)"
  obtains
    (bad) msg where "w = http_Error msg 400 w0" "s' = s"
  | (refused) code d where "f_lenient s \<or> isRegisteredRedirectURI (Values_Get q ''redirect_uri'') s"
      "w = redirectWithError r (Values_Get q ''redirect_uri'') (Values_Get q ''state'') code d w0" "s' = s"
  | (issued) "authorizedCode s (requestedCode (ie_now env) q)"
      "s' = issueCode (generateRandomString (ie_random1 env)) (requestedCode (ie_now env) q) (ie_gap env 0 s)"
      "w = (case Parse (Values_Get q ''redirect_uri'') of
              Inl _ \<Rightarrow> http_Error ''invalid redirect_uri'' 400 w0
            | Inr u \<Rightarrow> http_Redirect r
                (answerURL u [(''code'', generateRandomString (ie_random1 env)), (''state'', Values_Get q ''state'')])
                302 w0)"
proof -
  let ?q = "Values_Get q" and ?bad = "\<exists>msg. w = http_Error msg 400 w0 \<and> s' = s"
  let ?refused = "\<exists>code d. (f_lenient s \<or> isRegisteredRedirectURI (?q ''redirect_uri'') s) \<and>
      w = redirectWithError r (?q ''redirect_uri'') (?q ''state'') code d w0 \<and> s' = s"
  let ?pc = "requestedCode (ie_now env) q"
  let ?issued = "authorizedCode s ?pc \<and>
      s' = issueCode (generateRandomString (ie_random1 env)) ?pc (ie_gap env 0 s) \<and>
      w = (case Parse (?q ''redirect_uri'') of
              Inl _ \<Rightarrow> http_Error ''invalid redirect_uri'' 400 w0
            | Inr u \<Rightarrow> http_Redirect r
                (answerURL u [(''code'', generateRandomString (ie_random1 env)), (''state'', ?q ''state'')])
                302 w0)"
  have pc: "?pc = \<lparr>pc_clientID = ?q ''client_id'', pc_redirectURI = ?q ''redirect_uri'', pc_nonce = ?q ''nonce'',
      pc_codeVerifier = ?q ''code_challenge'', pc_subject = ''test-user'', pc_createdAt = ie_now env\<rparr>"
    by (simp only: requestedCode_def)
  have auth: "authorizedCode s ?pc"
    if "?q ''client_id'' = f_clientID s" "\<not> (\<not> f_lenient s \<and> \<not> isRegisteredRedirectURI (?q ''redirect_uri'') s)"
      "\<not> (\<not> f_lenient s \<and> ?q ''code_challenge'' = '''')"
    using that unfolding authorizedCode_def requestedCode_def by auto
  have answer: "?issued"
    if "(case Parse (?q ''redirect_uri'') of
           Inl _ \<Rightarrow> (http_Error ''invalid redirect_uri'' 400 w0,
                     issueCode (generateRandomString (ie_random1 env)) ?pc (ie_gap env 0 s))
         | Inr u \<Rightarrow> (http_Redirect r (URL_String (u\<lparr>u_RawQuery := Values_Encode
                       (Values_Set (Values_Set (Query u) ''code'' (generateRandomString (ie_random1 env)))
                          ''state'' (?q ''state''))\<rparr>)) 302 w0,
                     issueCode (generateRandomString (ie_random1 env)) ?pc (ie_gap env 0 s))) = (w, s')"
      "authorizedCode s ?pc"
    using that by (cases "Parse (?q ''redirect_uri'')") (auto simp: answerURL_def)
  have "?bad \<or> ?refused \<or> ?issued"
    using assms(1) unfolding handleAuthorize_def q_def [symmetric] Let_def pc [symmetric]
    apply (simp only: prod.inject split: if_split_asm)
            apply (blast+)[9]
     apply (rule disjI2, rule disjI2, rule answer, assumption, rule auth, assumption+)+
    done
  then show thesis using bad refused issued by blast
qed

lemma redirectWithError_plain:
  assumes "Parse uri = Inr u" and "plainURL u" and "sr_Method r = ''GET''"
  shows "\<exists>u' q. Parse (respLocation (redirectWithError r uri st code d newResponse)) = Inr u' \<and>
           u' = u\<lparr>u_RawQuery := u_RawQuery u'\<rparr> \<and> ParseQuery (u_RawQuery u') = Inr q \<and>
           valuesOf q ''state'' = [st] \<and> valuesOf q ''error'' = [code]"
proof -
  let ?q = "Values_Set (Values_Set (Values_Set (Query u) ''error'' code) ''error_description'' d) ''state'' st"
  have "?q \<noteq> []" by (simp add: Values_Set_def)
  note redir = redirect_plain [OF assms(2) this assms(3)]
  let ?u = "u\<lparr>u_RawQuery := Values_Encode ?q\<rparr>"
  have "redirectWithError r uri st code d newResponse = http_Redirect r (URL_String ?u) 302 newResponse"
    using assms(1) by (simp add: redirectWithError_def Let_def)
  then have "Parse (respLocation (redirectWithError r uri st code d newResponse)) = Inr ?u"
    by (simp add: redir)
  moreover have "ParseQuery (u_RawQuery ?u) = Inr (encodeOrder ?q)" by (simp add: ParseQuery_Encode)
  ultimately show ?thesis by (intro exI [of _ ?u] exI [of _ "encodeOrder ?q"]) simp
qed

lemma answer_plain:
  assumes "Parse uri = Inr u" and "plainURL u" and "sr_Method r = ''GET''"
  shows "respStatus (http_Redirect r (answerURL u [(''code'', cd), (''state'', st)]) 302 newResponse) = 302"
    and "\<exists>u' q. Parse (respLocation (http_Redirect r (answerURL u [(''code'', cd), (''state'', st)]) 302 newResponse)) = Inr u' \<and>
           u' = u\<lparr>u_RawQuery := u_RawQuery u'\<rparr> \<and> ParseQuery (u_RawQuery u') = Inr q \<and>
           valuesOf q ''state'' = [st] \<and> valuesOf q ''code'' = [cd] \<and>
           valuesOf q ''error'' = valuesOf (Query u) ''error''"
proof -
  let ?q = "Values_Set (Values_Set (Query u) ''code'' cd) ''state'' st"
  have "?q \<noteq> []" by (simp add: Values_Set_def)
  note redir = redirect_plain [OF assms(2) this assms(3)]
  let ?u = "u\<lparr>u_RawQuery := Values_Encode ?q\<rparr>"
  have ans: "answerURL u [(''code'', cd), (''state'', st)] = URL_String ?u" by (simp add: answerURL_def)
  show "respStatus (http_Redirect r (answerURL u [(''code'', cd), (''state'', st)]) 302 newResponse) = 302"
    unfolding ans by (rule redir(1))
  have "ParseQuery (u_RawQuery ?u) = Inr (encodeOrder ?q)" by (simp add: ParseQuery_Encode)
  then show "\<exists>u' q. Parse (respLocation (http_Redirect r (answerURL u [(''code'', cd), (''state'', st)]) 302 newResponse)) = Inr u' \<and>
           u' = u\<lparr>u_RawQuery := u_RawQuery u'\<rparr> \<and> ParseQuery (u_RawQuery u') = Inr q \<and>
           valuesOf q ''state'' = [st] \<and> valuesOf q ''code'' = [cd] \<and>
           valuesOf q ''error'' = valuesOf (Query u) ''error''"
    unfolding ans redir(2) by (intro exI [of _ ?u] exI [of _ "encodeOrder ?q"]) (simp add: redir(3))
qed

text \<open>
  C21: in strict mode the authorization endpoint never redirects to a URI that is not
  registered: an unregistered one is answered with an error page that leads nowhere and
  nothing is issued. A redirect goes to the requested URI itself, byte for byte up to the
  query, and echoes the request's state once; it carries either an error, and then nothing
  was issued, or exactly one code, and then exactly that code was issued, bound to the
  client, the redirect URI and the PKCE challenge of the request.
\<close>

theorem authorize_redirects_registered:
  assumes "\<not> f_lenient s" and "sr_Method r = ''GET''" and "ie_gap env 0 = id"
    and "handleAuthorize env r newResponse s = (w, s')"
    and "uri = Values_Get (Query (sr_URL r)) ''redirect_uri''"
  shows "(\<not> isRegisteredRedirectURI uri s \<longrightarrow> respStatus w = 400 \<and> respLocation w = '''' \<and> s' = s) \<and>
         (respLocation w \<noteq> '''' \<and> Parse uri = Inr u \<and> plainURL u \<longrightarrow>
           (\<exists>u' q. Parse (respLocation w) = Inr u' \<and> u' = u\<lparr>u_RawQuery := u_RawQuery u'\<rparr> \<and>
              ParseQuery (u_RawQuery u') = Inr q \<and>
              valuesOf q ''state'' = [Values_Get (Query (sr_URL r)) ''state''] \<and>
              (s' = s \<and> valuesOf q ''error'' \<noteq> [] \<or>
               (\<exists>cd pc. valuesOf q ''code'' = [cd] \<and> f_codes s' = (f_codes s)(cd \<mapsto> pc) \<and>
                  pc_clientID pc = f_clientID s \<and> pc_redirectURI pc = uri \<and>
                  pc_codeVerifier pc = Values_Get (Query (sr_URL r)) ''code_challenge'' \<and>
                  pc_codeVerifier pc \<noteq> ''''))))"
  using assms(4)
proof (cases rule: handleAuthorize_cases)
  case (bad msg)
  then show ?thesis by (simp add: http_Error_new)
next
  case (refused code d)
  then show ?thesis
    using assms(1,2,5) redirectWithError_plain [of uri u r "Values_Get (Query (sr_URL r)) ''state''" code d]
    by (auto; fastforce)
next
  case issued
  let ?q = "Query (sr_URL r)" and ?cd = "generateRandomString (ie_random1 env)"
  from issued(1) assms(1,5) have reg: "isRegisteredRedirectURI uri s" "Values_Get ?q ''client_id'' = f_clientID s"
    "Values_Get ?q ''code_challenge'' \<noteq> ''''"
    by (simp_all add: authorizedCode_def requestedCode_def)
  have codes: "f_codes s' = (f_codes s)(?cd \<mapsto>
      (case f_forceNonce s of Some n \<Rightarrow> (requestedCode (ie_now env) ?q)\<lparr>pc_nonce := n\<rparr> | None \<Rightarrow> requestedCode (ie_now env) ?q))"
    using issued(2) assms(3) by (simp add: issueCode_def)
  have "\<exists>pc. f_codes s' = (f_codes s)(?cd \<mapsto> pc) \<and> pc_clientID pc = f_clientID s \<and> pc_redirectURI pc = uri \<and>
      pc_codeVerifier pc = Values_Get ?q ''code_challenge''"
    unfolding codes using assms(5) reg(2) by (cases "f_forceNonce s") (auto simp: requestedCode_def)
  moreover have "\<exists>u' q. Parse (respLocation w) = Inr u' \<and> u' = u\<lparr>u_RawQuery := u_RawQuery u'\<rparr> \<and>
      ParseQuery (u_RawQuery u') = Inr q \<and> valuesOf q ''state'' = [Values_Get ?q ''state''] \<and>
      valuesOf q ''code'' = [?cd]" if "Parse uri = Inr u" "plainURL u"
    using answer_plain(2) [OF that assms(2), of ?cd "Values_Get ?q ''state''"] issued(3) assms(5) that(1) by auto
  ultimately show ?thesis using reg by metis
qed

definition sampleIDPEnv :: idpEnv where
  "sampleIDPEnv =
     \<lparr>ie_now = \<lparr>t_ns = 1000 * second, t_rep = 0\<rparr>, ie_nowIssued = \<lparr>t_ns = 1000 * second, t_rep = 0\<rparr>,
      ie_random1 = ''r1'', ie_random2 = ''r2'', ie_sign = (\<lambda>k c. Inr (''h.'' @ ic_Nonce c @ ''.s'')),
      ie_sha256 = rev, ie_gap = (\<lambda>_. id)\<rparr>"

definition sampleIDP :: fakeIDP where
  "sampleIDP = NewFakeIDP 0 ''http://127.0.0.1:9'' []"

definition sampleAuthorizeURL :: url where
  "sampleAuthorizeURL =
     emptyURL\<lparr>u_Scheme := ''http'', u_Host := ''127.0.0.1:9'', u_Path := ''/authorize'',
       u_RawQuery :=
         ''client_id=test-client&redirect_uri=http%3A%2F%2F127.0.0.1%3A5%2Fcallback&state=s1&response_type=code&code_challenge=cmV2&code_challenge_method=S256&nonce=n1''\<rparr>"

definition sampleAuthorize :: serverRequest where
  "sampleAuthorize = receivedRequest ''GET'' sampleAuthorizeURL None None"

theorem authorize_redirects_registered_witness:
  "\<exists>u q. Parse (respLocation (fst (handleAuthorize sampleIDPEnv sampleAuthorize newResponse sampleIDP))) = Inr u \<and>
     u_Host u = ''127.0.0.1:5'' \<and> ParseQuery (u_RawQuery u) = Inr q \<and> valuesOf q ''state'' = [''s1'']"
proof -
  let ?u = "emptyURL\<lparr>u_Scheme := ''http'', u_Host := ''127.0.0.1:5'', u_Path := ''/callback''\<rparr>"
  have 1: "\<not> f_lenient sampleIDP" "sr_Method sampleAuthorize = ''GET''" "ie_gap sampleIDPEnv 0 = id"
    by (simp_all add: sampleIDP_def NewFakeIDP_def sampleAuthorize_def receivedRequest_def sampleIDPEnv_def)
  have 2: "''http://127.0.0.1:5/callback'' = Values_Get (Query (sr_URL sampleAuthorize)) ''redirect_uri'' \<and>
      Values_Get (Query (sr_URL sampleAuthorize)) ''state'' = ''s1'' \<and>
      respLocation (fst (handleAuthorize sampleIDPEnv sampleAuthorize newResponse sampleIDP)) \<noteq> '''' \<and>
      Parse ''http://127.0.0.1:5/callback'' = Inr ?u \<and> plainURL ?u" by code_simp
  from authorize_redirects_registered [OF 1 prod.collapse [symmetric] conjunct1 [OF 2], of ?u] 2
  obtain u' q where u': "Parse (respLocation (fst (handleAuthorize sampleIDPEnv sampleAuthorize newResponse sampleIDP))) = Inr u'"
      "u' = ?u\<lparr>u_RawQuery := u_RawQuery u'\<rparr>" "ParseQuery (u_RawQuery u') = Inr q" "valuesOf q ''state'' = [''s1'']"
    by auto
  from u'(2) have "u_Host u' = u_Host (?u\<lparr>u_RawQuery := u_RawQuery u'\<rparr>)" by (rule arg_cong)
  then have "u_Host u' = ''127.0.0.1:5''" by simp
  with u' show ?thesis by blast
qed
section \<open>The token endpoint\<close>

lemma codeFault_None_iff:
  "codeFault sha256 now ttl False r pc = None \<longleftrightarrow>
     (ttl > 0 \<longrightarrow> time_sub now (pc_createdAt pc) \<le> ttl) \<and>
     FormValue r ''client_id'' = pc_clientID pc \<and> FormValue r ''redirect_uri'' = pc_redirectURI pc \<and>
     (pc_codeVerifier pc \<noteq> '''' \<longrightarrow>
        FormValue r ''code_verifier'' \<noteq> '''' \<and>
        encodeToString (sha256 (FormValue r ''code_verifier'')) = pc_codeVerifier pc)"
  unfolding codeFault_def computeS256Challenge_def Let_def by auto

lemma signIDToken_Inr:
  "(\<And>k c. \<exists>t. sign k c = Inr t) \<Longrightarrow> \<exists>t. signIDToken sign sub aud n now ttl s = Inr t"
proof -
  assume total: "\<And>k c. \<exists>t. sign k c = Inr t"
  then obtain f where "\<And>k c. sign k c = Inr (f k c)" by metis
  then show ?thesis by (simp add: signIDToken_def Let_def)
qed

text \<open>
  C19: in strict mode an authorization-code request is answered with tokens exactly when the
  code is outstanding, not too old, presented by the client and with the redirect URI it was
  issued for, and the verifier hashes to the PKCE challenge. The first use of a code consumes
  it whatever the answer is, a refusal changes nothing else, and the refresh token handed out
  belongs to the subject and client of the code.
\<close>

theorem code_exchange_iff:
  assumes "\<not> f_lenient s" and "\<And>k c. \<exists>t. ie_sign env k c = Inr t" and "ie_gap env = (\<lambda>_. id)"
    and "handleAuthCodeExchange env r newResponse s = (w, s')" and "cd = FormValue r ''code''"
  shows "(respStatus w = 200 \<longleftrightarrow>
            (\<exists>pc. f_codes s cd = Some pc \<and>
               (f_codeTTL s > 0 \<longrightarrow> time_sub (ie_now env) (pc_createdAt pc) \<le> f_codeTTL s) \<and>
               FormValue r ''client_id'' = pc_clientID pc \<and>
               FormValue r ''redirect_uri'' = pc_redirectURI pc \<and>
               (pc_codeVerifier pc \<noteq> '''' \<longrightarrow>
                  FormValue r ''code_verifier'' \<noteq> '''' \<and>
                  encodeToString (ie_sha256 env (FormValue r ''code_verifier'')) = pc_codeVerifier pc))) \<and>
         f_codes s' = (f_codes s)(cd := None) \<and>
         (if respStatus w = 200
          then \<exists>pc rt. f_codes s cd = Some pc \<and>
                 f_refreshTokens s' = (f_refreshTokens s)(rt \<mapsto>
                   \<lparr>ts_subject = pc_subject pc, ts_clientID = pc_clientID pc, ts_createdAt = ie_nowIssued env\<rparr>)
          else respStatus w = 400 \<and> s' = s\<lparr>f_codes := (f_codes s)(cd := None)\<rparr>)"
proof (cases "f_codes s cd")
  case None
  then show ?thesis
    using assms(4,5) by (auto simp: handleAuthCodeExchange_def takeCode_def)
next
  case (Some pc)
  let ?s = "s\<lparr>f_codes := (f_codes s)(cd := None)\<rparr>"
  show ?thesis
  proof (cases "codeFault (ie_sha256 env) (ie_now env) (f_codeTTL s) False r pc")
    case None
    obtain t where t: "signIDToken (ie_sign env) (pc_subject pc) (pc_clientID pc) (pc_nonce pc)
        (ie_nowIssued env) (f_idTokenTTL ?s) ?s = Inr t"
      using signIDToken_Inr [of "ie_sign env"] assms(2) by blast
    then have "respStatus w = 200" "s' = storeRefreshToken (generateRandomString (ie_random2 env))
          \<lparr>ts_subject = pc_subject pc, ts_clientID = pc_clientID pc, ts_createdAt = ie_nowIssued env\<rparr> ?s"
      using assms(1,3,4,5) Some None by (auto simp: handleAuthCodeExchange_def takeCode_def Let_def)
    with Some None show ?thesis
      unfolding codeFault_None_iff by (auto simp: storeRefreshToken_def)
  next
    case (Some fault)
    then have "w = tokenError ''invalid_grant'' fault newResponse" "s' = ?s"
      using assms(1,4,5) \<open>f_codes s cd = Some pc\<close> by (auto simp: handleAuthCodeExchange_def takeCode_def Let_def)
    moreover have "\<not> (codeFault (ie_sha256 env) (ie_now env) (f_codeTTL s) False r pc = None)" using Some by simp
    ultimately show ?thesis using \<open>f_codes s cd = Some pc\<close> unfolding codeFault_None_iff by auto
  qed
qed

definition sampleTokenRequest :: serverRequest where
  "sampleTokenRequest =
     receivedRequest ''POST'' (emptyURL\<lparr>u_Path := ''/token''\<rparr>)
       (Some ''grant_type=authorization_code&code=cjE&code_verifier=ver&client_id=test-client&redirect_uri=http%3A%2F%2F127.0.0.1%3A5%2Fcallback'')
       None"

definition sampleIssued :: fakeIDP where
  "sampleIssued = snd (handleAuthorize sampleIDPEnv sampleAuthorize newResponse sampleIDP)"

theorem code_exchange_iff_witness:
  "respStatus (fst (handleAuthCodeExchange sampleIDPEnv sampleTokenRequest newResponse sampleIssued)) = 200 \<and>
   f_codes (snd (handleAuthCodeExchange sampleIDPEnv sampleTokenRequest newResponse sampleIssued)) ''cjE'' = None"
proof -
  let ?pc = "\<lparr>pc_clientID = ''test-client'', pc_redirectURI = ''http://127.0.0.1:5/callback'', pc_nonce = ''n1'',
      pc_codeVerifier = ''cmV2'', pc_subject = ''test-user'', pc_createdAt = ie_now sampleIDPEnv\<rparr>"
  have 1: "\<not> f_lenient sampleIssued \<and> f_codes sampleIssued ''cjE'' = Some ?pc \<and>
      time_sub (ie_now sampleIDPEnv) (ie_now sampleIDPEnv) \<le> f_codeTTL sampleIssued" by code_simp
  have 2: "\<exists>t. ie_sign sampleIDPEnv k c = Inr t" for k c by (simp add: sampleIDPEnv_def)
  have 3: "ie_gap sampleIDPEnv = (\<lambda>_. id)" by (simp add: sampleIDPEnv_def)
  have 4: "''cjE'' = FormValue sampleTokenRequest ''code'' \<and>
      FormValue sampleTokenRequest ''client_id'' = ''test-client'' \<and>
      FormValue sampleTokenRequest ''redirect_uri'' = ''http://127.0.0.1:5/callback'' \<and>
      FormValue sampleTokenRequest ''code_verifier'' = ''ver'' \<and>
      encodeToString (ie_sha256 sampleIDPEnv ''ver'') = ''cmV2''" by code_simp
  from code_exchange_iff [OF conjunct1 [OF 1] 2 3 prod.collapse [symmetric] conjunct1 [OF 4]] 1 4
  show ?thesis by simp
qed

section \<open>Codes and refresh tokens work once\<close>

text \<open>
  Every interleaving of the locked sections, with the history of what they did, latest
  first. A new code or refresh token is 32 random bytes, taken to differ from the earlier
  ones; a code is issued in the circumstances \<open>handleAuthorize_cases\<close> shows. All other
  sections leave the codes, the refresh tokens and the options alone.
\<close>

datatype idpEvent =
    CodeIssued string pendingCode
  | CodeRedeemed string pendingCode
  | RefreshIssued string idpTokenState
  | RefreshRedeemed string idpTokenState
  | RefreshRevoked string

definition issuedCodes :: "idpEvent list \<Rightarrow> string list" where
  "issuedCodes tr = List.map_filter (\<lambda>e. case e of CodeIssued cd _ \<Rightarrow> Some cd | _ \<Rightarrow> None) tr"

definition redeemedCodes :: "idpEvent list \<Rightarrow> string list" where
  "redeemedCodes tr = List.map_filter (\<lambda>e. case e of CodeRedeemed cd _ \<Rightarrow> Some cd | _ \<Rightarrow> None) tr"

definition issuedRefresh :: "idpEvent list \<Rightarrow> string list" where
  "issuedRefresh tr = List.map_filter (\<lambda>e. case e of RefreshIssued rt _ \<Rightarrow> Some rt | _ \<Rightarrow> None) tr"

definition redeemedRefresh :: "idpEvent list \<Rightarrow> string list" where
  "redeemedRefresh tr = List.map_filter (\<lambda>e. case e of RefreshRedeemed rt _ \<Rightarrow> Some rt | _ \<Rightarrow> None) tr"

definition sameOptions :: "fakeIDP \<Rightarrow> fakeIDP \<Rightarrow> bool" where
  "sameOptions s s' \<longleftrightarrow>
     f_clientID s' = f_clientID s \<and> f_redirectURIs s' = f_redirectURIs s \<and> f_lenient s' = f_lenient s"

inductive idpRun :: "fakeIDP \<Rightarrow> idpEvent list \<Rightarrow> bool" where
  start: "idpRun (NewFakeIDP key serverURL []) []"
| options: "idpRun s [] \<Longrightarrow> f_codes s' = f_codes s \<Longrightarrow> f_refreshTokens s' = f_refreshTokens s \<Longrightarrow> idpRun s' []"
| issue: "idpRun s tr \<Longrightarrow> authorizedCode s pc \<Longrightarrow> cd \<notin> set (issuedCodes tr) \<Longrightarrow>
    idpRun (issueCode cd pc s) (CodeIssued cd (the (f_codes (issueCode cd pc s) cd)) # tr)"
| redeem: "idpRun s tr \<Longrightarrow> takeCode cd s = (Some pc, s') \<Longrightarrow> idpRun s' (CodeRedeemed cd pc # tr)"
| no_code: "idpRun s tr \<Longrightarrow> takeCode cd s = (None, s') \<Longrightarrow> idpRun s' tr"
| drop: "idpRun s tr \<Longrightarrow> idpRun (dropCode cd s) tr"
| store: "idpRun s tr \<Longrightarrow> rt \<notin> set (issuedRefresh tr) \<Longrightarrow>
    idpRun (storeRefreshToken rt st s) (RefreshIssued rt st # tr)"
| refresh: "idpRun s tr \<Longrightarrow> takeRefreshToken rt s = (Some st, s') \<Longrightarrow> idpRun s' (RefreshRedeemed rt st # tr)"
| no_refresh: "idpRun s tr \<Longrightarrow> takeRefreshToken rt s = (None, s') \<Longrightarrow> idpRun s' tr"
| revoke: "idpRun s tr \<Longrightarrow> idpRun (revokeToken rt s) (RefreshRevoked rt # tr)"
| simulate: "idpRun s tr \<Longrightarrow> idpRun (snd (simulatedError s)) tr"
| other: "idpRun s tr \<Longrightarrow> f_codes s' = f_codes s \<Longrightarrow> f_refreshTokens s' = f_refreshTokens s \<Longrightarrow>
    sameOptions s s' \<Longrightarrow> idpRun s' tr"

text \<open>
  What is outstanding was issued and neither redeemed nor revoked since; what was redeemed
  was issued.
\<close>

definition credentialInv :: "fakeIDP \<Rightarrow> idpEvent list \<Rightarrow> bool" where
  "credentialInv s tr \<longleftrightarrow>
     (\<forall>cd pc. f_codes s cd = Some pc \<longrightarrow> CodeIssued cd pc \<in> set tr \<and> cd \<notin> set (redeemedCodes tr)) \<and>
     (\<forall>rt st. f_refreshTokens s rt = Some st \<longrightarrow> RefreshIssued rt st \<in> set tr \<and> rt \<notin> set (redeemedRefresh tr)) \<and>
     (\<forall>cd pc. CodeRedeemed cd pc \<in> set tr \<longrightarrow> CodeIssued cd pc \<in> set tr) \<and>
     (\<forall>rt st. RefreshRedeemed rt st \<in> set tr \<longrightarrow> RefreshIssued rt st \<in> set tr) \<and>
     (\<forall>cd pc. CodeIssued cd pc \<in> set tr \<longrightarrow> authorizedCode s pc) \<and>
     distinct (redeemedCodes tr) \<and> distinct (redeemedRefresh tr)"

lemma event_lists [simp]:
  "issuedCodes [] = []" "redeemedCodes [] = []" "issuedRefresh [] = []" "redeemedRefresh [] = []"
  "issuedCodes (e # tr) = (case e of CodeIssued cd _ \<Rightarrow> [cd] | _ \<Rightarrow> []) @ issuedCodes tr"
  "redeemedCodes (e # tr) = (case e of CodeRedeemed cd _ \<Rightarrow> [cd] | _ \<Rightarrow> []) @ redeemedCodes tr"
  "issuedRefresh (e # tr) = (case e of RefreshIssued rt _ \<Rightarrow> [rt] | _ \<Rightarrow> []) @ issuedRefresh tr"
  "redeemedRefresh (e # tr) = (case e of RefreshRedeemed rt _ \<Rightarrow> [rt] | _ \<Rightarrow> []) @ redeemedRefresh tr"
  by (simp_all add: issuedCodes_def redeemedCodes_def issuedRefresh_def redeemedRefresh_def
      List.map_filter_def split: idpEvent.split)

lemma event_membership:
  "cd \<in> set (issuedCodes tr) \<longleftrightarrow> (\<exists>pc. CodeIssued cd pc \<in> set tr)"
  "cd \<in> set (redeemedCodes tr) \<longleftrightarrow> (\<exists>pc. CodeRedeemed cd pc \<in> set tr)"
  "rt \<in> set (issuedRefresh tr) \<longleftrightarrow> (\<exists>st. RefreshIssued rt st \<in> set tr)"
  "rt \<in> set (redeemedRefresh tr) \<longleftrightarrow> (\<exists>st. RefreshRedeemed rt st \<in> set tr)"
  by (induction tr) (auto split: idpEvent.split)

lemma authorizedCode_same: "sameOptions s s' \<Longrightarrow> authorizedCode s' pc = authorizedCode s pc"
  by (simp add: sameOptions_def authorizedCode_def isRegisteredRedirectURI_def cong: sum.case_cong)

lemma section_frames:
  "f_refreshTokens (issueCode cd pc s) = f_refreshTokens s" "sameOptions s (issueCode cd pc s)"
  "sameOptions s (s\<lparr>f_codes := cs\<rparr>)" "sameOptions s (s\<lparr>f_refreshTokens := rts\<rparr>)"
  "f_codes (snd (simulatedError s)) = f_codes s" "f_refreshTokens (snd (simulatedError s)) = f_refreshTokens s"
  "sameOptions s (snd (simulatedError s))"
  by (auto simp: issueCode_def simulatedError_def sameOptions_def Let_def split: list.split)

lemma issueCode_code:
  "f_codes (issueCode cd pc s) = (f_codes s)(cd \<mapsto>
     (case f_forceNonce s of Some n \<Rightarrow> pc\<lparr>pc_nonce := n\<rparr> | None \<Rightarrow> pc))"
  by (simp add: issueCode_def Let_def)

lemma authorizedCode_nonce [simp]: "authorizedCode s (pc\<lparr>pc_nonce := n\<rparr>) = authorizedCode s pc"
  by (simp add: authorizedCode_def)

lemma credentialInv_mono:
  assumes "credentialInv s tr" and "sameOptions s s'"
    and "f_codes s' \<subseteq>\<^sub>m f_codes s" and "f_refreshTokens s' \<subseteq>\<^sub>m f_refreshTokens s"
  shows "credentialInv s' tr"
proof -
  have "f_codes s cd = Some pc" if "f_codes s' cd = Some pc" for cd pc
    using assms(3) that by (metis domI map_le_def)
  moreover have "f_refreshTokens s rt = Some st" if "f_refreshTokens s' rt = Some st" for rt st
    using assms(4) that by (metis domI map_le_def)
  ultimately show ?thesis
    using assms(1) unfolding credentialInv_def authorizedCode_same [OF assms(2)] by blast
qed

lemma credentialInv_issue:
  assumes "credentialInv s tr" and "authorizedCode s pc" and "cd \<notin> set (issuedCodes tr)"
  shows "credentialInv (issueCode cd pc s) (CodeIssued cd (the (f_codes (issueCode cd pc s) cd)) # tr)"
proof -
  let ?pc = "case f_forceNonce s of Some n \<Rightarrow> pc\<lparr>pc_nonce := n\<rparr> | None \<Rightarrow> pc"
  have "authorizedCode s ?pc" using assms(2) by (simp split: option.split)
  moreover have "cd \<notin> set (redeemedCodes tr)"
    using assms(1,3) unfolding credentialInv_def event_membership by blast
  ultimately show ?thesis
    using assms(1)
    unfolding credentialInv_def section_frames(1) authorizedCode_same [OF section_frames(2)] issueCode_code
    by (auto split: if_splits)
qed

lemma credentialInv_store:
  assumes "credentialInv s tr" and "rt \<notin> set (issuedRefresh tr)"
  shows "credentialInv (storeRefreshToken rt st s) (RefreshIssued rt st # tr)"
proof -
  have "rt \<notin> set (redeemedRefresh tr)"
    using assms unfolding credentialInv_def event_membership by blast
  moreover have "authorizedCode (storeRefreshToken rt st s) pc = authorizedCode s pc" for pc
    unfolding storeRefreshToken_def by (rule authorizedCode_same [OF section_frames(4)])
  ultimately show ?thesis
    using assms(1) unfolding credentialInv_def by (auto simp: storeRefreshToken_def split: if_splits)
qed

lemma credentialInv_redeem:
  assumes "credentialInv s tr" and "f_codes s cd = Some pc"
  shows "credentialInv (s\<lparr>f_codes := (f_codes s)(cd := None)\<rparr>) (CodeRedeemed cd pc # tr)"
  using assms unfolding credentialInv_def authorizedCode_same [OF section_frames(3)]
  by (auto split: if_splits)

lemma credentialInv_refresh:
  assumes "credentialInv s tr" and "f_refreshTokens s rt = Some st"
  shows "credentialInv (s\<lparr>f_refreshTokens := (f_refreshTokens s)(rt := None)\<rparr>) (RefreshRedeemed rt st # tr)"
  using assms unfolding credentialInv_def authorizedCode_same [OF section_frames(4)]
  by (auto split: if_splits)

lemma map_le_del: "m(k := None) \<subseteq>\<^sub>m m"
  by (simp add: map_le_def)

lemma idpRun_inv: "idpRun s tr \<Longrightarrow> credentialInv s tr"
proof (induction rule: idpRun.induct)
  case (start key serverURL)
  then show ?case by (simp add: credentialInv_def NewFakeIDP_def)
next
  case (options s s')
  then show ?case by (auto simp: credentialInv_def)
next
  case (issue s tr pc cd)
  then show ?case by (intro credentialInv_issue)
next
  case (redeem s tr cd pc s')
  then show ?case using credentialInv_redeem [of s tr cd pc] by (auto simp: takeCode_def)
next
  case (no_code s tr cd s')
  then show ?case
    using credentialInv_mono [OF no_code.IH section_frames(3)] by (auto simp: takeCode_def map_le_del)
next
  case (drop s tr cd)
  then show ?case
    unfolding dropCode_def by (intro credentialInv_mono [OF drop.IH section_frames(3)]) (simp_all add: map_le_del)
next
  case (store s tr rt st)
  then show ?case by (intro credentialInv_store)
next
  case (refresh s tr rt st s')
  then show ?case using credentialInv_refresh [of s tr rt st] by (auto simp: takeRefreshToken_def)
next
  case (no_refresh s tr rt s')
  then show ?case
    using credentialInv_mono [OF no_refresh.IH section_frames(4)] by (auto simp: takeRefreshToken_def map_le_del)
next
  case (revoke s tr rt)
  have "credentialInv (revokeToken rt s) tr"
    unfolding revokeToken_def
    by (intro credentialInv_mono [OF revoke.IH section_frames(4)]) (simp_all add: map_le_del)
  then show ?case by (simp add: credentialInv_def)
next
  case (simulate s tr)
  then show ?case by (intro credentialInv_mono [OF simulate.IH section_frames(7)]) (simp_all add: section_frames)
next
  case (other s tr s')
  then show ?case by (intro credentialInv_mono [OF other.IH]) simp_all
qed

text \<open>A refresh token that was issued before and is gone stays gone.\<close>

lemma gone_stays_gone:
  assumes "idpRun s tr" and "tr = post @ RefreshRevoked rt # pre" and "rt \<in> set (issuedRefresh pre)"
  shows "f_refreshTokens s rt = None \<and> rt \<notin> set (redeemedRefresh post)"
  using assms
proof (induction arbitrary: post rule: idpRun.induct)
  case (options s s')
  then show ?case by simp
next
  case (issue s tr pc cd)
  then show ?case by (cases post) (auto simp: section_frames)
next
  case (redeem s tr cd pc s')
  then show ?case by (cases post) (auto simp: takeCode_def)
next
  case (no_code s tr cd s')
  then show ?case by (auto simp: takeCode_def)
next
  case (store s tr rt' st)
  then obtain post' where post: "post = RefreshIssued rt' st # post'" "tr = post' @ RefreshRevoked rt # pre"
    by (cases post) auto
  with store have "rt' \<noteq> rt" by (auto simp: event_membership)
  with store.IH [OF post(2)] store.prems(2) post(1) show ?case by (simp add: storeRefreshToken_def)
next
  case (refresh s tr rt' st s')
  then show ?case by (cases post) (auto simp: takeRefreshToken_def)
next
  case (revoke s tr rt')
  then show ?case by (cases post) (auto simp: revokeToken_def)
qed (auto simp: takeRefreshToken_def dropCode_def section_frames)

text \<open>
  C20: however requests interleave, every authorization code and every refresh token is
  redeemed at most once and only if it was issued; a redeemed code was issued to the
  provider's client and, in strict mode, for a registered redirect URI and with a PKCE
  challenge; and a refresh token that was revoked after it was issued is never redeemed
  again.
\<close>

theorem credentials_redeemed_once:
  assumes "idpRun s tr"
  shows "distinct (redeemedCodes tr) \<and> distinct (redeemedRefresh tr) \<and>
         (\<forall>cd pc. CodeRedeemed cd pc \<in> set tr \<longrightarrow> CodeIssued cd pc \<in> set tr \<and> authorizedCode s pc) \<and>
         (\<forall>rt st. RefreshRedeemed rt st \<in> set tr \<longrightarrow> RefreshIssued rt st \<in> set tr) \<and>
         (\<forall>post rt pre. tr = post @ RefreshRevoked rt # pre \<and> rt \<in> set (issuedRefresh pre) \<longrightarrow>
            f_refreshTokens s rt = None \<and> rt \<notin> set (redeemedRefresh post))"
  using idpRun_inv [OF assms] gone_stays_gone [OF assms] unfolding credentialInv_def by blast

definition samplePending :: pendingCode where
  "samplePending = requestedCode (ie_now sampleIDPEnv) (Query sampleAuthorizeURL)"

definition sampleGrant :: idpTokenState where
  "sampleGrant = \<lparr>ts_subject = ''test-user'', ts_clientID = ''test-client'', ts_createdAt = ie_now sampleIDPEnv\<rparr>"

definition sampleRevoked :: fakeIDP where
  "sampleRevoked =
     revokeToken ''rt'' (storeRefreshToken ''rt'' sampleGrant
       (snd (takeCode ''cd'' (issueCode ''cd'' samplePending sampleIDP))))"

definition sampleHistory :: "idpEvent list" where
  "sampleHistory =
     [RefreshRevoked ''rt'', RefreshIssued ''rt'' sampleGrant, CodeRedeemed ''cd'' samplePending,
      CodeIssued ''cd'' samplePending]"

lemma sampleHistory_run: "idpRun sampleRevoked sampleHistory"
proof -
  have "authorizedCode sampleIDP samplePending" by code_simp
  moreover have "f_forceNonce sampleIDP = None" by (simp add: sampleIDP_def NewFakeIDP_def)
  then have code: "f_codes (issueCode ''cd'' samplePending sampleIDP) ''cd'' = Some samplePending"
    by (simp add: issueCode_code)
  ultimately have "idpRun (issueCode ''cd'' samplePending sampleIDP) [CodeIssued ''cd'' samplePending]"
    using idpRun.issue [of sampleIDP "[]" samplePending "''cd''"] idpRun.start
    unfolding sampleIDP_def by auto
  from idpRun.redeem [OF this, of "''cd''" samplePending] code
  have "idpRun (snd (takeCode ''cd'' (issueCode ''cd'' samplePending sampleIDP)))
      [CodeRedeemed ''cd'' samplePending, CodeIssued ''cd'' samplePending]"
    by (simp add: takeCode_def)
  then show ?thesis
    unfolding sampleRevoked_def sampleHistory_def by (intro idpRun.revoke idpRun.store) simp_all
qed

theorem credentials_redeemed_once_witness:
  "CodeIssued ''cd'' samplePending \<in> set sampleHistory \<and> authorizedCode sampleRevoked samplePending \<and>
   f_refreshTokens sampleRevoked ''rt'' = None"
proof -
  have 1: "CodeRedeemed ''cd'' samplePending \<in> set sampleHistory" by (simp add: sampleHistory_def)
  have 2: "sampleHistory = [] @ RefreshRevoked ''rt'' # tl sampleHistory" "''rt'' \<in> set (issuedRefresh (tl sampleHistory))"
    by (simp_all add: sampleHistory_def)
  show ?thesis using credentials_redeemed_once [OF sampleHistory_run] 1 2 by blast
qed

section \<open>Keys\<close>

definition publishedKeys :: "fakeIDP \<Rightarrow> (nat \<times> string) list" where
  "publishedKeys s = (f_key s, f_keyID s) # f_extraKeys s"

text \<open>
  Rotating the signing key keeps all earlier keys published, never gives two keys the same
  \<open>kid\<close>, and the key that signs is always the first published one.
\<close>

definition keysInv :: "fakeIDP \<Rightarrow> bool" where
  "keysInv s \<longleftrightarrow> f_signer s = hd (publishedKeys s) \<and> distinct (map snd (publishedKeys s))"

lemma RotateKey_keysInv:
  assumes "keysInv s" and "RotateKey nk kid s = Some s'"
  shows "keysInv s' \<and> (\<exists>k. set (publishedKeys s') = insert (k, kid) (set (publishedKeys s)) \<and> f_signer s' = (k, kid))"
  using assms
  by (force simp: RotateKey_def keysInv_def publishedKeys_def list_ex_iff split: sum.splits if_splits)

text \<open>
  The form errors of \<open>handleToken\<close> and \<open>handleRevoke\<close> are never reported: \<open>wrapHandler\<close> has
  already parsed the form of a POST, so their own \<open>ParseForm\<close> returns nil, and a malformed
  body is processed as far as it could be read.
\<close>

lemma wrapHandler_parses_first:
  assumes "sr_Method r = ''POST''" and "hookFn (f_Hooks s) (snd (ParseForm r)) w = (False, w)"
  shows "\<exists>s1. wrapHandler endpoint hookFn handler env r w s = handler env (snd (ParseForm r)) w s1 \<and>
           ParseForm (snd (ParseForm r)) = (None, snd (ParseForm r))"
  using assms by (auto simp: wrapHandler_def ParseForm_idem Let_def)

definition malformedRevoke :: serverRequest where
  "malformedRevoke =
     receivedRequest ''POST'' (emptyURL\<lparr>u_Path := ''/revoke''\<rparr>) (Some ''token=rt&%zz'') None"

lemma malformed_form_accepted:
  "fst (ParseForm malformedRevoke) \<noteq> None" "respStatus (fst (serveIDP sampleIDPEnv malformedRevoke sampleIDP)) = 200"
  by code_simp+

end
