(* ===== verification/Test_Doubles.thy ===== *)
theory Test_Doubles
  imports Fake_IDP_Props Login Auth_Flow
begin

text \<open>
  The doubles of \<open>oidctest\<close>: \<open>memorystore.go\<close> (stores that keep the persistence contract, one
  with injected errors), \<open>emitter.go\<close> (a recording event emitter one can wait on) and
  \<open>flowhandler.go\<close> (a flow handler that plays the browser against the fake provider).
\<close>

section \<open>memorystore.go\<close>

definition MemoryStore_Save :: "token_state \<Rightarrow> token_state \<Rightarrow> goerror option \<times> token_state" where
  "MemoryStore_Save st s = (None, st)"

definition MemoryStore_Load :: "token_state \<Rightarrow> goerror + token_state" where
  "MemoryStore_Load s = Inr s"

definition MemoryStore_Delete :: "token_state \<Rightarrow> goerror option \<times> token_state" where
  "MemoryStore_Delete s = (None, zeroTokenState)"

definition memoryDouble :: "token_state token_persistence" where
  "memoryDouble = \<lparr>Save = MemoryStore_Save, Load = MemoryStore_Load, Delete = MemoryStore_Delete\<rparr>"

record failingStoreState =
  fs_state :: token_state
  fs_saveErr :: "goerror option"
  fs_loadErr :: "goerror option"
  fs_deleteErr :: "goerror option"

definition SetSaveErr :: "goerror option \<Rightarrow> failingStoreState \<Rightarrow> failingStoreState" where
  "SetSaveErr err s = s\<lparr>fs_saveErr := err\<rparr>"

definition SetLoadErr :: "goerror option \<Rightarrow> failingStoreState \<Rightarrow> failingStoreState" where
  "SetLoadErr err s = s\<lparr>fs_loadErr := err\<rparr>"

definition SetDeleteErr :: "goerror option \<Rightarrow> failingStoreState \<Rightarrow> failingStoreState" where
  "SetDeleteErr err s = s\<lparr>fs_deleteErr := err\<rparr>"

definition FailingStore_Save :: "token_state \<Rightarrow> failingStoreState \<Rightarrow> goerror option \<times> failingStoreState" where
  "FailingStore_Save st s =
     (if fs_saveErr s \<noteq> None then (fs_saveErr s, s) else (None, s\<lparr>fs_state := st\<rparr>))"

definition FailingStore_Load :: "failingStoreState \<Rightarrow> goerror + token_state" where
  "FailingStore_Load s = (case fs_loadErr s of Some err \<Rightarrow> Inl err | None \<Rightarrow> Inr (fs_state s))"

definition FailingStore_Delete :: "failingStoreState \<Rightarrow> goerror option \<times> failingStoreState" where
  "FailingStore_Delete s =
     (if fs_deleteErr s \<noteq> None then (fs_deleteErr s, s) else (None, s\<lparr>fs_state := zeroTokenState\<rparr>))"

definition failingDouble :: "failingStoreState token_persistence" where
  "failingDouble = \<lparr>Save = FailingStore_Save, Load = FailingStore_Load, Delete = FailingStore_Delete\<rparr>"

interpretation md: persistence_contract memoryDouble "\<lambda>_. True" "\<lambda>_. True"
  by unfold_locales
    (simp_all add: memoryDouble_def MemoryStore_Save_def MemoryStore_Load_def MemoryStore_Delete_def)

interpretation fd: persistence_contract failingDouble "\<lambda>_. True" "\<lambda>_. True"
  by unfold_locales
    (auto simp: failingDouble_def FailingStore_Save_def FailingStore_Load_def FailingStore_Delete_def
      split: if_splits option.splits)

section \<open>emitter.go\<close>

text \<open>
  The notification channel is a number; \<open>em_closed\<close> are the channels closed so far and
  \<open>em_next\<close> is unused yet.
\<close>

record recordingEmitter =
  em_events :: "(string \<times> string option) list"
  em_notifyCh :: "nat option"
  em_closed :: "nat list"
  em_next :: nat

definition newEmitter :: recordingEmitter where
  "newEmitter = \<lparr>em_events = [], em_notifyCh = None, em_closed = [], em_next = 0\<rparr>"

definition Emitter_Emit :: "string \<times> string option \<Rightarrow> recordingEmitter \<Rightarrow> recordingEmitter" where
  "Emitter_Emit ev e =
     (let e = e\<lparr>em_events := em_events e @ [ev]\<rparr>
      in case em_notifyCh e of
           None \<Rightarrow> e
         | Some ch \<Rightarrow> e\<lparr>em_closed := ch # em_closed e, em_notifyCh := None\<rparr>)"

definition HasEvent :: "string \<Rightarrow> recordingEmitter \<Rightarrow> bool" where
  "HasEvent name e = list_ex (\<lambda>ev. fst ev = name) (em_events e)"

definition Emitter_Reset :: "recordingEmitter \<Rightarrow> recordingEmitter" where
  "Emitter_Reset e = e\<lparr>em_events := []\<rparr>"

text \<open>
  \<open>WaitForEvent\<close>. Each turn of the loop is described by what the other goroutines do while
  it waits and whether the timer's case of the \<open>select\<close> is taken; \<open>None\<close> is a call that still
  waits.
\<close>

fun WaitForEvent ::
  "string \<Rightarrow> ((recordingEmitter \<Rightarrow> recordingEmitter) \<times> bool) list \<Rightarrow> recordingEmitter \<Rightarrow>
   bool option \<times> recordingEmitter" where
  "WaitForEvent name [] e = (if HasEvent name e then (Some True, e) else (None, e))"
| "WaitForEvent name ((others, timer) # turns) e =
     (if HasEvent name e then (Some True, e)
      else let ch = (case em_notifyCh e of Some ch \<Rightarrow> ch | None \<Rightarrow> em_next e);
               e = (if em_notifyCh e = None then e\<lparr>em_notifyCh := Some ch, em_next := ch + 1\<rparr> else e);
               e = others e
           in if timer then (Some False, e)
              else if ch \<in> set (em_closed e) then WaitForEvent name turns e
              else (None, e))"

lemma Emit_fold_events: "em_events (fold Emitter_Emit evs e) = em_events e @ evs"
  by (induction evs arbitrary: e) (simp_all add: Emitter_Emit_def Let_def split: option.split)

lemma Emit_fold_closed: "set (em_closed e) \<subseteq> set (em_closed (fold Emitter_Emit evs e))"
proof (induction evs arbitrary: e)
  case (Cons ev evs)
  have "set (em_closed e) \<subseteq> set (em_closed (Emitter_Emit ev e))"
    by (auto simp: Emitter_Emit_def Let_def split: option.split)
  with Cons show ?case by (auto dest: subsetD)
qed simp

lemma Emit_fold_notifies:
  assumes "em_notifyCh e = Some ch" and "evs \<noteq> []"
  shows "ch \<in> set (em_closed (fold Emitter_Emit evs e))"
proof -
  obtain ev evs' where "evs = ev # evs'" using assms(2) by (cases evs) auto
  moreover have "ch \<in> set (em_closed (Emitter_Emit ev e))"
    using assms(1) by (simp add: Emitter_Emit_def Let_def)
  ultimately show ?thesis using Emit_fold_closed by auto
qed

text \<open>No wake-up is lost: an event emitted while \<open>WaitForEvent\<close> waits is observed.\<close>

lemma WaitForEvent_observes:
  assumes "name \<in> fst ` set evs"
  shows "fst (WaitForEvent name ((fold Emitter_Emit evs, False) # turns) e) = Some True"
proof (cases "HasEvent name e")
  case False
  let ?ch = "case em_notifyCh e of Some ch \<Rightarrow> ch | None \<Rightarrow> em_next e"
  let ?e = "if em_notifyCh e = None then e\<lparr>em_notifyCh := Some ?ch, em_next := ?ch + 1\<rparr> else e"
  have "em_notifyCh ?e = Some ?ch" by (auto split: option.split)
  moreover have "evs \<noteq> []" using assms by auto
  ultimately have "?ch \<in> set (em_closed (fold Emitter_Emit evs ?e))" by (rule Emit_fold_notifies)
  moreover have "HasEvent name (fold Emitter_Emit evs ?e)"
    using assms by (auto simp: HasEvent_def Emit_fold_events list_ex_iff)
  then have "fst (WaitForEvent name turns (fold Emitter_Emit evs ?e)) = Some True"
    by (cases turns) auto
  ultimately show ?thesis using False by (simp add: Let_def)
qed simp

section \<open>flowhandler.go\<close>

text \<open>
  \<open>doGet\<close> is the HTTP client, which does not follow redirects, and the world it acts on.
  \<open>None\<close>: a redirect URI that does not parse is a nil dereference, which panics.
\<close>

definition FakeFlow_StartAuthFlow ::
  "(url \<Rightarrow> 'w \<Rightarrow> (goerror + response) \<times> 'w) \<Rightarrow> string \<Rightarrow> string \<Rightarrow> 'w \<Rightarrow> string result option \<times> 'w" where
  "FakeFlow_StartAuthFlow doGet redirectURIValue authURL world =
     (case Parse authURL of
        Inl err \<Rightarrow> (Some (Inl (Errorf [Txt ''oidctest: FakeFlowHandler build request: '', Wrapped err])), world)
      | Inr u \<Rightarrow>
          (case doGet u world of
             (Inl err, world) \<Rightarrow>
               (Some (Inl (Errorf [Txt ''oidctest: FakeFlowHandler request failed: '', Wrapped err])), world)
           | (Inr resp, world) \<Rightarrow>
               (if respStatus resp \<noteq> 302
                then Some (Inl (OtherError ''oidctest: FakeFlowHandler expected 302 redirect''))
                else if respLocation resp = ''''
                then Some (Inl (OtherError ''oidctest: FakeFlowHandler got 302 but no Location header''))
                else (case Parse (respLocation resp) of
                        Inl err \<Rightarrow>
                          Some (Inl (Errorf [Txt ''oidctest: FakeFlowHandler invalid redirect location: '', Wrapped err]))
                      | Inr loc \<Rightarrow>
                          (case Parse redirectURIValue of
                             Inl _ \<Rightarrow> None
                           | Inr expected \<Rightarrow>
                               if u_Scheme loc \<noteq> u_Scheme expected \<or> u_Host loc \<noteq> u_Host expected \<or>
                                  u_Path loc \<noteq> u_Path expected
                               then Some (Inl (OtherError ''oidctest: FakeFlowHandler redirect does not match expected redirect URI''))
                               else Some (Inr (respLocation resp)))), world)))"

text \<open>The fake handler with a browser that is redirected to \<open>location\<close> implements the interface.\<close>

definition fakeAuth :: "string \<Rightarrow> string \<Rightarrow> string \<Rightarrow> string result option" where
  "fakeAuth uri authURL location =
     fst (FakeFlow_StartAuthFlow
       (\<lambda>u w. (Inr (http_Redirect (receivedRequest ''GET'' u None None) location 302 newResponse), w)) uri authURL ())"

interpretation fake: auth_flow "fakeAuth uri" uri "\<lambda>_. True" for uri
proof
  fix authURL st ru q
  assume req: "requestsFlow ''redirect_uri'' authURL uri st" and plain: "plainRedirect uri ru" and "q \<noteq> []" and "valuesOf q ''state'' = [st]"
  have get: "sr_Method (receivedRequest ''GET'' u None None) = ''GET''" for u by (simp add: receivedRequest_def)
  have ru: "plainURL ru" "Parse uri = Inr ru" using plain by (simp_all add: plainRedirect_def)
  note redir = redirect_plain [OF ru(1) \<open>q \<noteq> []\<close> get, folded redirectLocation_def]
  have "redirectLocation ru q \<noteq> ''''" using plainRedirect_text(1) [OF plain \<open>q \<noteq> []\<close>] by simp
  moreover obtain target where "Parse authURL = Inr target" using req by (auto simp: requestsFlow_def split: sum.splits)
  ultimately show "fakeAuth uri authURL (redirectLocation ru q) = Some (Inr (redirectLocation ru q))"
    by (simp add: fakeAuth_def FakeFlow_StartAuthFlow_def redir ru(2))
qed

text \<open>What a server sees of the URL a client requests.\<close>

definition originForm :: "url \<Rightarrow> url" where
  "originForm u =
     emptyURL\<lparr>u_Path := (if u_Path u = '''' then ''/'' else u_Path u), u_RawPath := u_RawPath u,
       u_ForceQuery := u_ForceQuery u, u_RawQuery := u_RawQuery u\<rparr>"

text \<open>Requests that reach the fake provider.\<close>

definition idpGet :: "idpEnv \<Rightarrow> url \<Rightarrow> fakeIDP \<Rightarrow> (goerror + response) \<times> fakeIDP" where
  "idpGet env u s =
     (let (w, s) = serveIDP env (receivedRequest ''GET'' (originForm u) None None) s in (Inr w, s))"

definition idpPost :: "idpEnv \<Rightarrow> url \<Rightarrow> url_values \<Rightarrow> fakeIDP \<Rightarrow> response \<times> fakeIDP" where
  "idpPost env u form s =
     serveIDP env (receivedRequest ''POST'' (originForm u) (Some (Values_Encode form)) None) s"

end
