(* ===== verification/Provider_Login.thy ===== *)
theory Provider_Login
  imports Test_Doubles Logout
begin

text \<open>
  The client and the fake provider together: a login of the client, with the fake flow
  handler as its browser, against the provider's own endpoints. The parts of the exchange
  that neither of them contains, \<open>golang.org/x/oauth2\<close> and \<open>go-oidc\<close>, are parameters with
  their documented behaviour as hypotheses.
\<close>

section \<open>A login that nothing disturbs\<close>

text \<open>When every step succeeds, \<open>Login\<close> returns nil and installs the tokens.\<close>

lemma begin_fields:
  assumes "beginLifecycleOperationLocked e kind c = (p, c')"
  shows "config c' = config c" "state c' = state c" "store c' = store c" "lifecycleFlow c' = lifecycleFlow c"
  using assms
  by (auto simp: beginLifecycleOperationLocked_def cancelOperation_def Let_def split: option.splits)

lemma current_permit [simp]:
  "lifecycleOperationCurrentLocked p (c\<lparr>lifecycleFlow := x\<rparr>) = lifecycleOperationCurrentLocked p c"
  by (simp add: lifecycleOperationCurrentLocked_def)

lemma login_succeeds:
  assumes "quietLogin env" and "lg_ctxErr env = None" and "lg_parentErr env = None"
    and "provider c = Some pr" and "oauth2 c = Some oc" and "verifier c = Some v" and "lifecycleFlow c = None"
    and "randomState (lg_random1 env) = Inr st" and "randomState (lg_random2 env) = Inr nonce"
    and "authURL = lg_authCodeURL env oc st (lg_verifierCode env) nonce (ExtraAuthParams (config c))"
    and "lf_takesPermit (lg_flow env authURL)" and "\<And>d. fst (lf_start (lg_flow env authURL) d) = Inr callback"
    and "loginCallback st callback = Inr cd"
    and "lg_exchange env oc cd (lg_verifierCode env) (ExtraTokenParams (config c)) = Inr tok"
    and "loginTokenState (lg_verify env v) (ClientID (config c)) nonce tok (lg_now env) = Inr newState"
  shows "fst (login ops env c) = Some None" and "state (snd (login ops env c)) = newState"
    and "store (snd (login ops env c)) = snd (Save ops newState (store c))"
proof -
  obtain p c1 where b: "beginLifecycleOperationLocked None lifecycleLogin c = (p, c1)" by fastforce
  note f = begin_fields [OF b]
  have cur: "lifecycleOperationCurrentLocked p c1" using begin_current [OF b] by blast
  let ?fe = "lg_flow env authURL"
  have quiet: "lg_beforeBegin env = id" "lg_afterFlow env = id" "lg_duringExchange env = id"
    "lg_duringVerify env = id" "lg_commitWait env = id" "lf_wait ?fe = id" "lf_beforeStart ?fe = id"
    "\<And>d. lf_start ?fe d = (Inr callback, d)"
    using assms(1,12) unfolding quietLogin_def by (auto simp: prod_eq_iff)
  have flow: "runLifecycleFlow p ?fe c1 = (Some (Inr callback), releasePermit c1)"
    using cur assms(7,11) f(4) by (simp add: runLifecycleFlow_def quiet Let_def releasePermit_def)
  let ?c2 = "releasePermit c1"
  have cur2: "lifecycleOperationCurrentLocked p ?c2" using cur by (simp add: releasePermit_def)
  obtain e c3 where com: "commitLoginState ops p newState id (lg_nowSaved env) ?c2 = ((True, e), c3)"
    using cur2 by (simp add: commitLoginState_def Let_def case_prod_beta)
  have cfg: "config ?c2 = config c" using f by (simp add: releasePermit_def)
  have ex: "loginExchange ops env oc v p nonce cd ?c2 = (None, c3)"
    using cur2 assms(14,15) com by (simp add: loginExchange_def quiet cfg)
  have op: "loginOperation ops env oc v p c1 = (Some None, c3)"
    using assms(8,9,13) flow ex f(1) assms(10) by (simp add: loginOperation_def quiet)
  have lg: "login ops env c = (Some None, finishLifecycleOperation p c3)"
    using assms(2,3,4,5,6) b op by (simp add: login_def quiet beginLifecycleOperation_def)
  from commitLoginState_True [OF com] have "state c3 = newState" "store c3 = snd (Save ops newState (store ?c2))"
    by (simp_all add: loginCommitted_def)
  then show "fst (login ops env c) = Some None" "state (snd (login ops env c)) = newState"
    "store (snd (login ops env c)) = snd (Save ops newState (store c))"
    using f by (simp_all add: lg releasePermit_def)
qed

section \<open>The provider's answers to a well-formed client\<close>

text \<open>A strict provider that serves the client: no hooks, no injected errors or overrides.\<close>

definition servesClient :: "fakeIDP \<Rightarrow> oauth2_config \<Rightarrow> bool" where
  "servesClient s oc \<longleftrightarrow>
     f_Hooks s = noHooks \<and> \<not> f_lenient s \<and> f_clientID s = oc_ClientID oc \<and>
     oc_RedirectURL oc \<noteq> '''' \<and> isRegisteredRedirectURI (oc_RedirectURL oc) s \<and>
     f_scopes s = [] \<and> f_stickyError s = '''' \<and> f_errorQueue s = [] \<and>
     f_GrantErrors s = (\<lambda>_. None) \<and> f_forceNonce s = None \<and> f_forceIssuer s = None \<and>
     f_forceAudience s = None \<and> f_forceAudiences s = None \<and> f_forceAzpJSON s = None \<and>
     f_forceExpiry s = None \<and> f_forceNotBefore s = None"

text \<open>The parameters of an authorization request for a client with PKCE.\<close>

definition authorizeQuery ::
  "oauth2_config \<Rightarrow> string \<Rightarrow> string \<Rightarrow> string \<Rightarrow> url_values \<Rightarrow> bool" where
  "authorizeQuery oc st challenge nonce q \<longleftrightarrow>
     valuesOf q ''client_id'' = [oc_ClientID oc] \<and> valuesOf q ''redirect_uri'' = [oc_RedirectURL oc] \<and>
     valuesOf q ''response_type'' = [''code''] \<and> valuesOf q ''state'' = [st] \<and>
     valuesOf q ''code_challenge'' = [challenge] \<and> valuesOf q ''code_challenge_method'' = [''S256''] \<and>
     valuesOf q ''nonce'' = [nonce]"

definition grantedCode :: "gotime \<Rightarrow> oauth2_config \<Rightarrow> string \<Rightarrow> string \<Rightarrow> pendingCode" where
  "grantedCode now oc challenge nonce =
     \<lparr>pc_clientID = oc_ClientID oc, pc_redirectURI = oc_RedirectURL oc, pc_nonce = nonce,
      pc_codeVerifier = challenge, pc_subject = ''test-user'', pc_createdAt = now\<rparr>"

lemma authorizeQuery_Get:
  assumes "authorizeQuery oc st challenge nonce q"
  shows "Values_Get q ''client_id'' = oc_ClientID oc" "Values_Get q ''redirect_uri'' = oc_RedirectURL oc"
    "Values_Get q ''response_type'' = ''code''" "Values_Get q ''state'' = st"
    "Values_Get q ''code_challenge'' = challenge" "Values_Get q ''code_challenge_method'' = ''S256''"
    "Values_Get q ''nonce'' = nonce"
  using assms by (simp_all add: authorizeQuery_def Values_Get_valuesOf)

lemma handleAuthorize_grants:
  assumes "servesClient s oc" and "authorizeQuery oc st challenge nonce (Query (sr_URL r))"
    and "challenge \<noteq> ''''" and "ie_gap env = (\<lambda>_. id)" and "Parse (oc_RedirectURL oc) = Inr ru"
  shows "handleAuthorize env r w s =
    (http_Redirect r (answerURL ru [(''code'', generateRandomString (ie_random1 env)), (''state'', st)]) 302 w,
     s\<lparr>f_codes := (f_codes s)(generateRandomString (ie_random1 env) \<mapsto>
        grantedCode (ie_now env) oc challenge nonce)\<rparr>)"
  using assms(1,3,4,5)
  unfolding handleAuthorize_def Let_def authorizeQuery_Get [OF assms(2)] servesClient_def
  by (simp add: issueCode_def answerURL_def grantedCode_def)

text \<open>Routing a request without hooks.\<close>

definition withRecord :: "string \<Rightarrow> string \<Rightarrow> url_values \<Rightarrow> fakeIDP \<Rightarrow> fakeIDP" where
  "withRecord endpoint meth params s = s\<lparr>f_Recorder := record_request endpoint meth params (f_Recorder s)\<rparr>"

lemma serve_authorize:
  assumes "f_Hooks s = noHooks" and "u_Path (sr_URL r) = ''/authorize''" and "sr_Method r = ''GET''"
  shows "serveIDP env r s =
           handleAuthorize env r newResponse (withRecord ''/authorize'' ''GET'' (Query (sr_URL r)) s)"
  using assms
  by (simp add: serveIDP_def idpRoutes_def wrapHandler_def runAuthorize_def runHook_def noHooks_def withRecord_def)

lemma serve_token:
  assumes "f_Hooks s = noHooks" and "u_Path (sr_URL r) = ''/token''" and "sr_Method r = ''POST''"
  shows "serveIDP env r s =
           handleToken env (snd (ParseForm r)) newResponse
             (withRecord ''/token'' ''POST'' (the (sr_PostForm (snd (ParseForm r)))) s)"
  using assms
  by (simp add: serveIDP_def idpRoutes_def wrapHandler_def runToken_def runHook_def noHooks_def withRecord_def Let_def)

lemma servesClient_record [simp]: "servesClient (withRecord e m p s) oc = servesClient s oc"
  by (simp add: servesClient_def withRecord_def isRegisteredRedirectURI_def cong: sum.case_cong)

lemma servesClient_codes [simp]: "servesClient (s\<lparr>f_codes := cs\<rparr>) oc = servesClient s oc"
  by (simp add: servesClient_def isRegisteredRedirectURI_def cong: sum.case_cong)

lemma withRecord_simps [simp]:
  "f_codes (withRecord e m p s) = f_codes s" "f_refreshTokens (withRecord e m p s) = f_refreshTokens s"
  "f_codeTTL (withRecord e m p s) = f_codeTTL s" "f_idTokenTTL (withRecord e m p s) = f_idTokenTTL s"
  "f_accessTTL (withRecord e m p s) = f_accessTTL s" "f_signer (withRecord e m p s) = f_signer s"
  "f_URL (withRecord e m p s) = f_URL s" "f_Hooks (withRecord e m p s) = f_Hooks s"
  by (simp_all add: withRecord_def)

text \<open>The form of a posted, encoded request.\<close>

lemma FormValue_posted:
  assumes "r = receivedRequest ''POST'' u (Some (Values_Encode form)) basic" and "u_RawQuery u = ''''"
  shows "FormValue (snd (ParseForm r)) k = Values_Get form k" and "fst (ParseForm (snd (ParseForm r))) = None"
    and "snd (ParseForm (snd (ParseForm r))) = snd (ParseForm r)"
proof -
  have "queryPairs (Values_Encode form) = encodeOrder form"
    using ParseQuery_Encode [of form] by (simp add: ParseQuery_def split: if_splits)
  moreover have "Query u = []" using assms(2) by (simp add: Query_def queryPairs_def parsePair_def)
  ultimately have "sr_Form (snd (ParseForm r)) = Some (encodeOrder form)"
    using assms(1) by (simp add: ParseForm_def parsePostForm_def receivedRequest_def Let_def case_prod_beta)
  then show "FormValue (snd (ParseForm r)) k = Values_Get form k"
    by (simp add: FormValue_def requestForm_def Values_Get_def)
qed (simp_all add: ParseForm_idem)

text \<open>The form of \<open>oauth2.Config.Exchange\<close> for a public client with PKCE.\<close>

definition exchangeForm :: "oauth2_config \<Rightarrow> string \<Rightarrow> string \<Rightarrow> url_values" where
  "exchangeForm oc cd ver =
     [(''grant_type'', ''authorization_code''), (''code'', cd), (''redirect_uri'', oc_RedirectURL oc),
      (''code_verifier'', ver), (''client_id'', oc_ClientID oc)]"

lemma exchangeForm_Get:
  "Values_Get (exchangeForm oc cd ver) ''grant_type'' = ''authorization_code''"
  "Values_Get (exchangeForm oc cd ver) ''code'' = cd"
  "Values_Get (exchangeForm oc cd ver) ''redirect_uri'' = oc_RedirectURL oc"
  "Values_Get (exchangeForm oc cd ver) ''code_verifier'' = ver"
  "Values_Get (exchangeForm oc cd ver) ''client_id'' = oc_ClientID oc"
  by (simp_all add: exchangeForm_def Values_Get_def valuesOf_def)

text \<open>The claims of the ID token for a code, and the tokens a successful exchange hands out.\<close>

definition grantedClaims :: "idpEnv \<Rightarrow> fakeIDP \<Rightarrow> oauth2_config \<Rightarrow> string \<Rightarrow> idTokenClaims" where
  "grantedClaims env s oc nonce =
     \<lparr>ic_Issuer = f_URL s, ic_Subject = ''test-user'', ic_Audience = [oc_ClientID oc],
      ic_IssuedAt = ie_nowIssued env, ic_Expiry = time_add (ie_nowIssued env) (f_idTokenTTL s),
      ic_NotBefore = time_add (ie_nowIssued env) (- minute), ic_Nonce = nonce,
      ic_Email = ''test@example.com'', ic_Name = ''Test User'', ic_Azp = None\<rparr>"

definition grantedTokens :: "idpEnv \<Rightarrow> fakeIDP \<Rightarrow> string \<Rightarrow> claim_set" where
  "grantedTokens env s idToken =
     tokenResponse (generateRandomString (ie_random1 env)) (f_accessTTL s) (generateRandomString (ie_random2 env)) @
     [(''id_token'', JStr idToken)]"

lemma signIDToken_grants:
  assumes "servesClient s oc" and "ie_sign env (f_signer s) (grantedClaims env s oc nonce) = Inr idToken"
  shows "signIDToken (ie_sign env) ''test-user'' (oc_ClientID oc) nonce (ie_nowIssued env) (f_idTokenTTL s) s = Inr idToken"
  using assms by (simp add: signIDToken_def servesClient_def grantedClaims_def Let_def)

lemma handleAuthCodeExchange_grants:
  assumes "servesClient s oc" and "f_codes s cd = Some (grantedCode t oc challenge nonce)"
    and "\<And>k. FormValue r k = Values_Get (exchangeForm oc cd ver) k"
    and "ver \<noteq> ''''" and "challenge = encodeToString (ie_sha256 env ver)"
    and "0 < f_codeTTL s \<Longrightarrow> time_sub (ie_now env) t \<le> f_codeTTL s" and "ie_gap env = (\<lambda>_. id)"
    and "ie_sign env (f_signer s) (grantedClaims env s oc nonce) = Inr idToken"
  shows "handleAuthCodeExchange env r w s =
    (writeJSON (JObj (grantedTokens env s idToken)) w,
     storeRefreshToken (generateRandomString (ie_random2 env))
       \<lparr>ts_subject = ''test-user'', ts_clientID = oc_ClientID oc, ts_createdAt = ie_nowIssued env\<rparr>
       (s\<lparr>f_codes := (f_codes s)(cd := None)\<rparr>))"
proof -
  let ?s = "s\<lparr>f_codes := (f_codes s)(cd := None)\<rparr>"
  have lenient: "f_lenient s = False" using assms(1) by (simp add: servesClient_def)
  have fault: "codeFault (ie_sha256 env) (ie_now env) (f_codeTTL s) False r (grantedCode t oc challenge nonce) = None"
    unfolding codeFault_None_iff using assms(3,4,5,6) by (simp add: grantedCode_def exchangeForm_Get)
  have "signIDToken (ie_sign env) ''test-user'' (oc_ClientID oc) nonce (ie_nowIssued env) (f_idTokenTTL ?s) ?s = Inr idToken"
    by (rule signIDToken_grants) (use assms(1,8) in \<open>simp_all add: grantedClaims_def\<close>)
  then show ?thesis
    unfolding handleAuthCodeExchange_def assms(3) exchangeForm_Get takeCode_def assms(2) lenient
    using fault assms(2,7) by (simp add: grantedCode_def grantedTokens_def Let_def)
qed

lemma handleToken_grants:
  assumes "servesClient s oc" and "fst (ParseForm r) = None" and "snd (ParseForm r) = r"
    and "FormValue r ''grant_type'' = ''authorization_code''" and "sr_basicAuth r = None" and "ie_gap env = (\<lambda>_. id)"
  shows "handleToken env r w s = handleAuthCodeExchange env r w s"
proof -
  have "simulatedError s = (None, s)" using assms(1) by (simp add: simulatedError_def servesClient_def)
  moreover have "ParseForm r = (None, r)" using assms(2,3) by (simp add: prod_eq_iff)
  moreover have "f_GrantErrors s = (\<lambda>_. None)" using assms(1) by (simp add: servesClient_def)
  ultimately show ?thesis
    using assms(4,5,6) unfolding handleToken_def by (simp add: GrantErrors_check_def)
qed

section \<open>The browser flow\<close>

lemma answer_location:
  assumes "plainURL ru" and "sr_Method r = ''GET''"
  shows "respLocation (http_Redirect r (answerURL ru [(''code'', cd), (''state'', st)]) 302 newResponse) =
           answerURL ru [(''code'', cd), (''state'', st)]"
    and "answerURL ru [(''code'', cd), (''state'', st)] \<noteq> ''''"
    and "\<exists>loc. Parse (answerURL ru [(''code'', cd), (''state'', st)]) = Inr loc \<and>
           u_Scheme loc = u_Scheme ru \<and> u_Host loc = u_Host ru \<and> u_Path loc = u_Path ru"
proof -
  let ?q = "Values_Set (Values_Set (Query ru) ''code'' cd) ''state'' st"
  let ?u = "ru\<lparr>u_RawQuery := Values_Encode ?q\<rparr>"
  have ans: "answerURL ru [(''code'', cd), (''state'', st)] = URL_String ?u" by (simp add: answerURL_def)
  have q: "?q \<noteq> []" by (simp add: Values_Set_def)
  note redir = redirect_plain [OF assms(1) this assms(2)]
  show "respLocation (http_Redirect r (answerURL ru [(''code'', cd), (''state'', st)]) 302 newResponse) =
           answerURL ru [(''code'', cd), (''state'', st)]" unfolding ans by (rule redir(2))
  show "answerURL ru [(''code'', cd), (''state'', st)] \<noteq> ''''"
    unfolding ans URL_String_plain [OF assms(1) Encode_nonempty [OF q]] by simp
  show "\<exists>loc. Parse (answerURL ru [(''code'', cd), (''state'', st)]) = Inr loc \<and>
           u_Scheme loc = u_Scheme ru \<and> u_Host loc = u_Host ru \<and> u_Path loc = u_Path ru"
    unfolding ans redir(3) by simp
qed

lemma callback_accepted:
  assumes "Parse uri = Inr ru" and "plainURL ru" and "u_RawQuery ru = ''''" and "st \<noteq> ''''" and "cd \<noteq> ''''"
  shows "loginCallback st (answerURL ru [(''code'', cd), (''state'', st)]) = Inr cd"
proof -
  have get: "sr_Method (receivedRequest ''GET'' emptyURL None None) = ''GET''" by (simp add: receivedRequest_def)
  from answer_plain(2) [OF assms(1,2) get, of cd st] obtain u' q where
    p: "Parse (answerURL ru [(''code'', cd), (''state'', st)]) = Inr u'" "u' = ru\<lparr>u_RawQuery := u_RawQuery u'\<rparr>"
      "ParseQuery (u_RawQuery u') = Inr q" "valuesOf q ''state'' = [st]" "valuesOf q ''code'' = [cd]"
      "valuesOf q ''error'' = valuesOf (Query ru) ''error''"
    unfolding answer_location(1) [OF assms(2) get] by blast
  have "valuesOf (Query ru) ''error'' = []"
    using assms(3) by (simp add: Query_def queryPairs_def parsePair_def valuesOf_def)
  then have err: "Values_Get q ''error'' = ''''" using p(6) by (simp add: Values_Get_def)
  have "u_Scheme u' = u_Scheme (ru\<lparr>u_RawQuery := u_RawQuery u'\<rparr>)" using p(2) by (rule arg_cong)
  then have "IsAbs u'" using assms(2) by (simp add: IsAbs_def plainURL_def validScheme_def)
  with p err assms(4,5) show ?thesis by (simp add: loginCallback_def)
qed

text \<open>The authorization URL of a client, and what it parses to.\<close>

lemma authURL_parses:
  assumes "plainURL base" and "u_Path base = ''''" and "q \<noteq> []"
  shows "Parse ((u_Scheme base @ ''://'' @ u_Host base) @ ''/authorize'' @ ''?'' @ Values_Encode q) =
           Inr (base\<lparr>u_Path := ''/authorize'', u_RawQuery := Values_Encode q\<rparr>)"
proof -
  let ?u = "base\<lparr>u_Path := ''/authorize''\<rparr>"
  have plain: "plainURL ?u" using assms(1) by (simp add: plainURL_def)
  have "escape encodePath ''/authorize'' = ''/authorize''" by code_simp
  then have "URL_String (?u\<lparr>u_RawQuery := Values_Encode q\<rparr>) =
      (u_Scheme base @ ''://'' @ u_Host base) @ ''/authorize'' @ ''?'' @ Values_Encode q"
    using URL_String_plain [OF plain Encode_nonempty [OF assms(3)]] by simp
  with Parse_with_query [OF plain assms(3)] show ?thesis by simp
qed

lemma flow_grants:
  assumes "servesClient s oc" and "plainURL base" and "u_Path base = ''''"
    and "authURL = (u_Scheme base @ ''://'' @ u_Host base) @ ''/authorize'' @ ''?'' @ Values_Encode q"
    and "authorizeQuery oc st challenge nonce q" and "challenge \<noteq> ''''" and "ie_gap env = (\<lambda>_. id)"
    and "Parse (oc_RedirectURL oc) = Inr ru" and "plainURL ru"
    and "cd = generateRandomString (ie_random1 env)"
  shows "\<exists>params. FakeFlow_StartAuthFlow (idpGet env) (oc_RedirectURL oc) authURL s =
           (Some (Inr (answerURL ru [(''code'', cd), (''state'', st)])),
            withRecord ''/authorize'' ''GET'' params s
              \<lparr>f_codes := (f_codes s)(cd \<mapsto> grantedCode (ie_now env) oc challenge nonce)\<rparr>)"
proof -
  have "q \<noteq> []" using assms(5) by (auto simp: authorizeQuery_def valuesOf_def)
  note parse = authURL_parses [OF assms(2,3) this, folded assms(4)]
  let ?u = "base\<lparr>u_Path := ''/authorize'', u_RawQuery := Values_Encode q\<rparr>"
  let ?r = "receivedRequest ''GET'' (originForm ?u) None None"
  have r: "sr_Method ?r = ''GET''" "u_Path (sr_URL ?r) = ''/authorize''" "Query (sr_URL ?r) = encodeOrder q"
    using ParseQuery_Encode [of q]
    by (simp_all add: receivedRequest_def originForm_def Query_def ParseQuery_def split: if_splits)
  let ?s = "withRecord ''/authorize'' ''GET'' (encodeOrder q) s"
  have "authorizeQuery oc st challenge nonce (Query (sr_URL ?r))"
    using assms(5) unfolding r(3) by (simp add: authorizeQuery_def)
  from handleAuthorize_grants [OF _ this assms(6,7,8), of ?s newResponse] assms(1)
  have h: "handleAuthorize env ?r newResponse ?s =
      (http_Redirect ?r (answerURL ru [(''code'', cd), (''state'', st)]) 302 newResponse,
       ?s\<lparr>f_codes := (f_codes s)(cd \<mapsto> grantedCode (ie_now env) oc challenge nonce)\<rparr>)"
    by (simp add: assms(10))
  have hooks: "f_Hooks s = noHooks" using assms(1) by (simp add: servesClient_def)
  have get: "idpGet env ?u s =
      (Inr (http_Redirect ?r (answerURL ru [(''code'', cd), (''state'', st)]) 302 newResponse),
       ?s\<lparr>f_codes := (f_codes s)(cd \<mapsto> grantedCode (ie_now env) oc challenge nonce)\<rparr>)"
    unfolding idpGet_def serve_authorize [OF hooks r(2,1)] r(3) h by simp
  from answer_location(3) [OF assms(9) r(1)] obtain loc where loc:
    "Parse (answerURL ru [(''code'', cd), (''state'', st)]) = Inr loc"
    "u_Scheme loc = u_Scheme ru" "u_Host loc = u_Host ru" "u_Path loc = u_Path ru" by blast
  have "respStatus (http_Redirect ?r (answerURL ru [(''code'', cd), (''state'', st)]) 302 newResponse) = 302"
    by (rule http_Redirect_new(1) [OF r(1)])
  then show ?thesis
    unfolding FakeFlow_StartAuthFlow_def
    using get loc answer_location(2) [OF assms(9) r(1), of cd st]
    by (simp add: parse assms(8) answer_location(1) [OF assms(9) r(1)]) blast
qed

section \<open>Documented behaviour of the libraries between them\<close>

text \<open>
  \<open>oauth2.Config.AuthCodeURL\<close> with \<open>S256ChallengeOption\<close>, the conversion of a token response
  to a token, and \<open>IDTokenVerifier.Verify\<close>.
\<close>

record oauth2Lib =
  ol_authCodeURL :: "oauth2_config \<Rightarrow> string \<Rightarrow> string \<Rightarrow> string \<Rightarrow> (string \<times> string) list \<Rightarrow> string"
  ol_token :: "response \<Rightarrow> goerror + oauth2_token"
  ol_verify :: "nat \<Rightarrow> string \<Rightarrow> goerror + oidc_idtoken"

definition buildsAuthURL :: "oauth2Lib \<Rightarrow> (string \<Rightarrow> string) \<Rightarrow> bool" where
  "buildsAuthURL lib sha256 \<longleftrightarrow>
     (\<forall>oc st ver nonce. CHR ''?'' \<notin> set (oc_AuthURL oc) \<and> oc_RedirectURL oc \<noteq> '''' \<and> st \<noteq> '''' \<longrightarrow>
        (\<exists>q. ol_authCodeURL lib oc st ver nonce [] = oc_AuthURL oc @ ''?'' @ Values_Encode q \<and>
             authorizeQuery oc st (encodeToString (sha256 ver)) nonce q))"

definition readsTokens :: "oauth2Lib \<Rightarrow> bool" where
  "readsTokens lib \<longleftrightarrow>
     (\<forall>w kvs a rt. respStatus w = 200 \<and> rw_body w = [Json (JObj kvs)] \<and>
        map_of kvs ''access_token'' = Some (JStr a) \<and> a \<noteq> '''' \<and>
        map_of kvs ''refresh_token'' = Some (JStr rt) \<longrightarrow>
        (\<exists>t. ol_token lib w =
           Inr \<lparr>tk_AccessToken = a, tk_RefreshToken = rt, tk_Expiry = t, tk_Extra = kvs\<rparr>))"

text \<open>
  A token signed with a published key, from the issuer, for the client and within its
  lifetime verifies, and the verifier reports the claims that were signed.
\<close>

definition verifiesSigned ::
  "oauth2Lib \<Rightarrow> nat \<Rightarrow> fakeIDP \<Rightarrow> string \<Rightarrow> gotime \<Rightarrow> nat \<times> string \<Rightarrow> idTokenClaims \<Rightarrow> string \<Rightarrow> bool" where
  "verifiesSigned lib v s clientID now key cl raw \<longleftrightarrow>
     (key \<in> set (publishedKeys s) \<and> ic_Issuer cl = f_URL s \<and> clientID \<in> set (ic_Audience cl) \<and>
      time_before now (ic_Expiry cl) \<and> \<not> time_before now (ic_NotBefore cl) \<longrightarrow>
      (\<exists>cs. ol_verify lib v raw =
              Inr \<lparr>it_Subject = ic_Subject cl, it_Audience = ic_Audience cl, it_Nonce = ic_Nonce cl,
                   it_Claims = Inr cs\<rparr> \<and>
            (map_of cs ''azp'' = None \<longleftrightarrow> ic_Azp cl = None)))"

section \<open>Login against the provider\<close>

text \<open>
  The environment of a login whose HTTP requests reach the provider, with some flow handler: \<open>e1\<close> and \<open>e2\<close> are the provider's choices for the authorization and the
  token request, \<open>st\<close> and \<open>nonce\<close> come from the random bytes \<open>r1\<close> and \<open>r2\<close>.
\<close>

definition providerAfterFlow :: "oauth2Lib \<Rightarrow> idpEnv \<Rightarrow> oauth2_config \<Rightarrow> string \<Rightarrow> string \<Rightarrow> string \<Rightarrow> fakeIDP \<Rightarrow> fakeIDP" where
  "providerAfterFlow lib e1 oc ver r1 r2 s =
     snd (FakeFlow_StartAuthFlow (idpGet e1) (oc_RedirectURL oc)
            (ol_authCodeURL lib oc (encodeToString r1) ver (encodeToString r2) []) s)"

definition tokenEndpointURL :: url where
  "tokenEndpointURL = emptyURL\<lparr>u_Path := ''/token''\<rparr>"

definition providerExchange ::
  "oauth2Lib \<Rightarrow> idpEnv \<Rightarrow> idpEnv \<Rightarrow> oauth2_config \<Rightarrow> string \<Rightarrow> string \<Rightarrow> string \<Rightarrow> string \<Rightarrow> fakeIDP \<Rightarrow>
   response \<times> fakeIDP" where
  "providerExchange lib e1 e2 oc ver r1 r2 cd s =
     idpPost e2 tokenEndpointURL (exchangeForm oc cd ver) (providerAfterFlow lib e1 oc ver r1 r2 s)"

definition providerLoginEnv ::
  "oauth2Lib \<Rightarrow> (string \<Rightarrow> 's flowEnv) \<Rightarrow> idpEnv \<Rightarrow> idpEnv \<Rightarrow> oauth2_config \<Rightarrow> string \<Rightarrow> string \<Rightarrow> string \<Rightarrow>
   gotime \<Rightarrow> fakeIDP \<Rightarrow> 's loginEnv" where
  "providerLoginEnv lib flow e1 e2 oc ver r1 r2 now s =
     \<lparr>lg_beforeBegin = id, lg_ctxErr = None, lg_parentErr = None, lg_verifierCode = ver,
      lg_random1 = Inr r1, lg_random2 = Inr r2, lg_authCodeURL = ol_authCodeURL lib,
      lg_flow = flow, lg_afterFlow = id,
      lg_exchange = (\<lambda>oc cd ver extra. ol_token lib (fst (providerExchange lib e1 e2 oc ver r1 r2 cd s))),
      lg_duringExchange = id, lg_verify = ol_verify lib, lg_duringVerify = id, lg_now = now,
      lg_commitWait = id, lg_nowSaved = now\<rparr>"

text \<open>A client initialized for the provider.\<close>

definition initializedFor :: "fakeIDP \<Rightarrow> oauth2_config \<Rightarrow> 's client \<Rightarrow> bool" where
  "initializedFor s oc c \<longleftrightarrow>
     provider c \<noteq> None \<and> oauth2 c = Some oc \<and> verifier c \<noteq> None \<and> lifecycleFlow c = None \<and>
     ClientID (config c) = oc_ClientID oc \<and> ExtraAuthParams (config c) = [] \<and>
     ExtraTokenParams (config c) = [] \<and> oc_AuthURL oc = f_URL s @ ''/authorize'' \<and> servesClient s oc \<and>
     (\<exists>base. plainURL base \<and> u_Scheme base \<in> {''http'', ''https''} \<and> u_Path base = '''' \<and> f_URL s = u_Scheme base @ ''://'' @ u_Host base) \<and>
     (\<exists>ru. Parse (oc_RedirectURL oc) = Inr ru \<and> plainURL ru \<and> u_RawQuery ru = '''')"

lemma encode_nonempty: "bs \<noteq> [] \<Longrightarrow> encodeToString bs \<noteq> ''''"
  by (cases bs rule: encodeToString.cases) auto

lemma no_query_mark:
  assumes "plainURL base" shows "CHR ''?'' \<notin> set ((u_Scheme base @ ''://'' @ u_Host base) @ ''/authorize'')"
proof -
  have "list_all (\<lambda>ch. ch \<noteq> CHR ''?'') (u_Scheme base)"
    using assms isAlnum_urlSafe unfolding plainURL_def validScheme_def list_all_iff by fastforce
  moreover have "CHR ''?'' \<notin> set (u_Host base)"
    using assms plainHost_chars(2) [of "u_Host base"] by (auto simp: plainURL_def)
  ultimately show ?thesis by (auto simp: list_all_iff)
qed

lemma exchange_grants:
  assumes "servesClient s oc" and "f_codes s cd = Some (grantedCode t oc (encodeToString (ie_sha256 env ver)) nonce)"
    and "ver \<noteq> ''''" and "0 < f_codeTTL s \<Longrightarrow> time_sub (ie_now env) t \<le> f_codeTTL s"
    and "ie_gap env = (\<lambda>_. id)" and "ie_sign env (f_signer s) (grantedClaims env s oc nonce) = Inr idToken"
  shows "\<exists>s'. idpPost env tokenEndpointURL (exchangeForm oc cd ver) s =
             (writeJSON (JObj (grantedTokens env s idToken)) newResponse, s') \<and>
           f_codes s' = (f_codes s)(cd := None) \<and>
           f_refreshTokens s' = (f_refreshTokens s)(generateRandomString (ie_random2 env) \<mapsto>
             \<lparr>ts_subject = ''test-user'', ts_clientID = oc_ClientID oc, ts_createdAt = ie_nowIssued env\<rparr>)"
proof -
  let ?r = "receivedRequest ''POST'' (originForm tokenEndpointURL) (Some (Values_Encode (exchangeForm oc cd ver))) None"
  let ?p = "snd (ParseForm ?r)"
  have r: "u_Path (sr_URL ?r) = ''/token''" "sr_Method ?r = ''POST''" "u_RawQuery (originForm tokenEndpointURL) = ''''"
    "sr_basicAuth ?r = None"
    by (simp_all add: receivedRequest_def originForm_def tokenEndpointURL_def emptyURL_def)
  note form = FormValue_posted [OF refl r(3), of "exchangeForm oc cd ver" None]
  have hooks: "f_Hooks s = noHooks" using assms(1) by (simp add: servesClient_def)
  let ?s = "withRecord ''/token'' ''POST'' (the (sr_PostForm ?p)) s"
  have serves: "servesClient ?s oc" using assms(1) by simp
  have claims: "grantedClaims env ?s oc nonce = grantedClaims env s oc nonce"
    "grantedTokens env ?s idToken = grantedTokens env s idToken"
    by (simp_all add: grantedClaims_def grantedTokens_def)
  have "handleToken env ?p newResponse ?s = handleAuthCodeExchange env ?p newResponse ?s"
    by (rule handleToken_grants [OF serves]) (use form r(4) assms(5) in \<open>simp_all add: exchangeForm_Get\<close>)
  also have "\<dots> = (writeJSON (JObj (grantedTokens env s idToken)) newResponse,
     storeRefreshToken (generateRandomString (ie_random2 env))
       \<lparr>ts_subject = ''test-user'', ts_clientID = oc_ClientID oc, ts_createdAt = ie_nowIssued env\<rparr>
       (?s\<lparr>f_codes := (f_codes s)(cd := None)\<rparr>))"
    using handleAuthCodeExchange_grants [OF serves, of cd t "encodeToString (ie_sha256 env ver)" nonce ?p ver env
        idToken newResponse] assms form(1) claims by simp
  finally show ?thesis
    unfolding idpPost_def serve_token [OF hooks r(1,2)] by (simp add: storeRefreshToken_def)
qed

lemma grantedTokens_fields:
  "map_of (grantedTokens env s idToken) ''access_token'' = Some (JStr (generateRandomString (ie_random1 env)))"
  "map_of (grantedTokens env s idToken) ''refresh_token'' = Some (JStr (generateRandomString (ie_random2 env)))"
  "map_of (grantedTokens env s idToken) ''id_token'' = Some (JStr idToken)"
  by (simp_all add: grantedTokens_def tokenResponse_def)

text \<open>
  What holds of the requests of one login: the libraries behave as documented, no other
  request comes in between, random values are not empty, the code is used in time, and the
  provider can sign the ID token.
\<close>

definition undisturbedExchange ::
  "oauth2Lib \<Rightarrow> idpEnv \<Rightarrow> idpEnv \<Rightarrow> oauth2_config \<Rightarrow> string \<Rightarrow> string \<Rightarrow> string \<Rightarrow> string \<Rightarrow> fakeIDP \<Rightarrow> bool" where
  "undisturbedExchange lib e1 e2 oc ver r1 r2 idToken s \<longleftrightarrow>
     buildsAuthURL lib (ie_sha256 e2) \<and> readsTokens lib \<and> ie_gap e1 = (\<lambda>_. id) \<and> ie_gap e2 = (\<lambda>_. id) \<and>
     r1 \<noteq> [] \<and> ie_random1 e1 \<noteq> [] \<and> ie_random1 e2 \<noteq> [] \<and> ver \<noteq> '''' \<and> ie_sha256 e2 ver \<noteq> [] \<and>
     (0 < f_codeTTL s \<longrightarrow> time_sub (ie_now e2) (ie_now e1) \<le> f_codeTTL s) \<and>
     ie_sign e2 (f_signer s) (grantedClaims e2 s oc (encodeToString r2)) = Inr idToken \<and> idToken \<noteq> ''''"

text \<open>The authorization URL of the client, and the provider's answer to it.\<close>

lemma client_authURL:
  assumes "initializedFor s oc c" and "undisturbedExchange lib e1 e2 oc ver r1 r2 idToken s"
  obtains base q where "servesClient s oc" and "plainURL base" and "u_Path base = ''''"
    and "u_Scheme base \<in> {''http'', ''https''}"
    and "ol_authCodeURL lib oc (encodeToString r1) ver (encodeToString r2) [] =
      (u_Scheme base @ ''://'' @ u_Host base) @ ''/authorize'' @ ''?'' @ Values_Encode q"
    and "authorizeQuery oc (encodeToString r1) (encodeToString (ie_sha256 e2 ver)) (encodeToString r2) q"
proof -
  let ?st = "encodeToString r1" and ?nonce = "encodeToString r2" and ?ch = "encodeToString (ie_sha256 e2 ver)"
  obtain base where u: "servesClient s oc" "plainURL base" "u_Path base = ''''" "u_Scheme base \<in> {''http'', ''https''}"
      "f_URL s = u_Scheme base @ ''://'' @ u_Host base" "oc_AuthURL oc = f_URL s @ ''/authorize''"
    using assms(1) by (auto simp: initializedFor_def)
  note x = assms(2) [unfolded undisturbedExchange_def]
  have "?st \<noteq> ''''" using x by (simp add: encode_nonempty)
  moreover have "oc_RedirectURL oc \<noteq> ''''" using u(1) by (simp add: servesClient_def)
  moreover have "CHR ''?'' \<notin> set (oc_AuthURL oc)" unfolding u(6,5) by (rule no_query_mark [OF u(2)])
  ultimately obtain q where q: "ol_authCodeURL lib oc ?st ver ?nonce [] = oc_AuthURL oc @ ''?'' @ Values_Encode q"
      "authorizeQuery oc ?st ?ch ?nonce q"
    using x unfolding buildsAuthURL_def by blast
  have "ol_authCodeURL lib oc ?st ver ?nonce [] =
      (u_Scheme base @ ''://'' @ u_Host base) @ ''/authorize'' @ ''?'' @ Values_Encode q"
    using q(1) u(5,6) by simp
  with u q(2) show thesis using that by blast
qed

lemma flow_completes:
  assumes "initializedFor s oc c" and "undisturbedExchange lib e1 e2 oc ver r1 r2 idToken s"
    and "cd = generateRandomString (ie_random1 e1)" and "Parse (oc_RedirectURL oc) = Inr ru"
  defines "cb \<equiv> answerURL ru [(''code'', cd), (''state'', encodeToString r1)]"
  obtains params where
    "FakeFlow_StartAuthFlow (idpGet e1) (oc_RedirectURL oc)
       (ol_authCodeURL lib oc (encodeToString r1) ver (encodeToString r2) []) s =
     (Some (Inr cb), withRecord ''/authorize'' ''GET'' params s\<lparr>f_codes := (f_codes s)(cd \<mapsto>
        grantedCode (ie_now e1) oc (encodeToString (ie_sha256 e2 ver)) (encodeToString r2))\<rparr>)"
    and "loginCallback (encodeToString r1) cb = Inr cd"
proof -
  let ?st = "encodeToString r1" and ?nonce = "encodeToString r2" and ?ch = "encodeToString (ie_sha256 e2 ver)"
  obtain base q where u: "servesClient s oc" "plainURL base" "u_Path base = ''''"
    and url: "ol_authCodeURL lib oc ?st ver ?nonce [] =
      (u_Scheme base @ ''://'' @ u_Host base) @ ''/authorize'' @ ''?'' @ Values_Encode q"
    and q: "authorizeQuery oc ?st ?ch ?nonce q" by (rule client_authURL [OF assms(1,2)])
  have ru: "plainURL ru" "u_RawQuery ru = ''''" using assms(1,4) by (auto simp: initializedFor_def)
  note x = assms(2) [unfolded undisturbedExchange_def]
  have ne: "?st \<noteq> ''''" "?ch \<noteq> ''''" "cd \<noteq> ''''"
    using x assms(3) by (simp_all add: encode_nonempty generateRandomString_def)
  have gap: "ie_gap e1 = (\<lambda>_. id)" using x by blast
  from flow_grants [OF u url q ne(2) gap assms(4) ru(1) assms(3)] callback_accepted [OF assms(4) ru ne(1,3)]
  show thesis using that unfolding cb_def by blast
qed

lemma exchange_completes:
  assumes "initializedFor s oc c" and "undisturbedExchange lib e1 e2 oc ver r1 r2 idToken s"
    and "cd = generateRandomString (ie_random1 e1)"
  obtains t kvs s' where
    "ol_token lib (fst (providerExchange lib e1 e2 oc ver r1 r2 cd s)) =
       Inr \<lparr>tk_AccessToken = generateRandomString (ie_random1 e2),
            tk_RefreshToken = generateRandomString (ie_random2 e2), tk_Expiry = t, tk_Extra = kvs\<rparr>"
    and "map_of kvs ''id_token'' = Some (JStr idToken)"
    and "snd (providerExchange lib e1 e2 oc ver r1 r2 cd s) = s'" and "f_codes s' cd = None"
    and "f_refreshTokens s' (generateRandomString (ie_random2 e2)) =
         Some \<lparr>ts_subject = ''test-user'', ts_clientID = oc_ClientID oc, ts_createdAt = ie_nowIssued e2\<rparr>"
proof -
  note x = assms(2) [unfolded undisturbedExchange_def]
  let ?pc = "grantedCode (ie_now e1) oc (encodeToString (ie_sha256 e2 ver)) (encodeToString r2)"
  obtain ru where "Parse (oc_RedirectURL oc) = Inr ru" using assms(1) by (auto simp: initializedFor_def)
  from flow_completes [OF assms this] obtain params where
    s1: "providerAfterFlow lib e1 oc ver r1 r2 s =
      withRecord ''/authorize'' ''GET'' params s\<lparr>f_codes := (f_codes s)(cd \<mapsto> ?pc)\<rparr>"
    by (metis providerAfterFlow_def snd_conv)
  let ?s1 = "withRecord ''/authorize'' ''GET'' params s\<lparr>f_codes := (f_codes s)(cd \<mapsto> ?pc)\<rparr>"
  have cl: "grantedClaims e2 ?s1 oc n = grantedClaims e2 s oc n" for n by (simp add: grantedClaims_def)
  have serves: "servesClient ?s1 oc" using assms(1) by (simp add: initializedFor_def)
  obtain s2 where ex: "providerExchange lib e1 e2 oc ver r1 r2 cd s =
      (writeJSON (JObj (grantedTokens e2 ?s1 idToken)) newResponse, s2)"
    and s2: "f_codes s2 cd = None" "f_refreshTokens s2 (generateRandomString (ie_random2 e2)) =
         Some \<lparr>ts_subject = ''test-user'', ts_clientID = oc_ClientID oc, ts_createdAt = ie_nowIssued e2\<rparr>"
    using exchange_grants [OF serves, of cd "ie_now e1" e2 ver "encodeToString r2" idToken] x
    unfolding providerExchange_def s1 cl by auto
  have "generateRandomString (ie_random1 e2) \<noteq> ''''" using x by (simp add: encode_nonempty generateRandomString_def)
  then obtain t where "ol_token lib (fst (providerExchange lib e1 e2 oc ver r1 r2 cd s)) =
      Inr \<lparr>tk_AccessToken = generateRandomString (ie_random1 e2),
           tk_RefreshToken = generateRandomString (ie_random2 e2), tk_Expiry = t,
           tk_Extra = grantedTokens e2 ?s1 idToken\<rparr>"
    using x grantedTokens_fields unfolding readsTokens_def ex by fastforce
  then show thesis using that grantedTokens_fields(3) ex s2 by (metis snd_conv)
qed

lemma granted_token_accepted:
  assumes "keysInv s" and "verifiesSigned lib v s (oc_ClientID oc) (ie_nowIssued env) (f_signer s)
      (grantedClaims env s oc nonce) idToken"
    and "0 < f_idTokenTTL s" and "map_of (tk_Extra tok) ''id_token'' = Some (JStr idToken)" and "idToken \<noteq> ''''"
  shows "loginTokenState (ol_verify lib v) (oc_ClientID oc) nonce tok now =
    Inr \<lparr>AccessToken = tk_AccessToken tok, RefreshToken = tk_RefreshToken tok, IDToken = idToken,
         ExpiresAt = tk_Expiry tok, LastAuthAt = now\<rparr>"
proof -
  let ?cl = "grantedClaims env s oc nonce"
  have "f_signer s \<in> set (publishedKeys s)"
    using assms(1) by (simp add: keysInv_def publishedKeys_def)
  moreover have "time_before (ie_nowIssued env) (ic_Expiry ?cl)" "\<not> time_before (ie_nowIssued env) (ic_NotBefore ?cl)"
    using assms(3) by (simp_all add: grantedClaims_def time_before_def minute_def second_def)
  ultimately obtain cs where "ol_verify lib v idToken =
      Inr \<lparr>it_Subject = ''test-user'', it_Audience = [oc_ClientID oc], it_Nonce = nonce, it_Claims = Inr cs\<rparr>"
      "map_of cs ''azp'' = None"
    using assms(2) by (auto simp: verifiesSigned_def grantedClaims_def)
  then show ?thesis
    using assms(4,5) by (simp add: loginTokenState_def extraString_def verifyIDToken_def checkAuthorizedParty_def)
qed

text \<open>
  A login of an initialized client whose flow handler returns the provider's answer: the token
  endpoint accepts the code with the client's PKCE verifier and the ID token carries the
  client's nonce.
\<close>

lemma login_completes:
  assumes "initializedFor s oc c" and "keysInv s" and "0 < f_idTokenTTL s"
    and "undisturbedExchange lib e1 e2 oc ver r1 r2 idToken s"
    and "verifiesSigned lib (the (verifier c)) s (oc_ClientID oc) (ie_nowIssued e2) (f_signer s)
           (grantedClaims e2 s oc (encodeToString r2)) idToken"
    and "env = providerLoginEnv lib flow e1 e2 oc ver r1 r2 now s" and "quietLogin env"
    and "\<And>u. lf_takesPermit (flow u)"
    and "\<And>d. fst (lf_start (flow (ol_authCodeURL lib oc (encodeToString r1) ver (encodeToString r2) [])) d) = Inr cb"
    and "loginCallback (encodeToString r1) cb = Inr cd" and "cd = generateRandomString (ie_random1 e1)"
    and "login ops env c = (res, c')" and "s' = snd (providerExchange lib e1 e2 oc ver r1 r2 cd s)"
  shows "res = Some None \<and> AccessToken (state c') = generateRandomString (ie_random1 e2) \<and>
         IDToken (state c') = idToken \<and> LastAuthAt (state c') = now \<and>
         store c' = snd (Save ops (state c') (store c)) \<and> f_codes s' cd = None \<and>
         f_refreshTokens s' (RefreshToken (state c')) =
           Some \<lparr>ts_subject = ''test-user'', ts_clientID = oc_ClientID oc, ts_createdAt = ie_nowIssued e2\<rparr>"
proof -
  obtain pr v where c: "provider c = Some pr" "oauth2 c = Some oc" "verifier c = Some v" "lifecycleFlow c = None"
      "ClientID (config c) = oc_ClientID oc" "ExtraAuthParams (config c) = []" "ExtraTokenParams (config c) = []"
    using assms(1) by (auto simp: initializedFor_def)
  from exchange_completes [OF assms(1,4,11)] obtain t kvs where
    tok: "ol_token lib (fst (providerExchange lib e1 e2 oc ver r1 r2 cd s)) =
       Inr \<lparr>tk_AccessToken = generateRandomString (ie_random1 e2),
            tk_RefreshToken = generateRandomString (ie_random2 e2), tk_Expiry = t, tk_Extra = kvs\<rparr>"
    and kvs: "map_of kvs ''id_token'' = Some (JStr idToken)" and s': "f_codes s' cd = None"
      "f_refreshTokens s' (generateRandomString (ie_random2 e2)) =
         Some \<lparr>ts_subject = ''test-user'', ts_clientID = oc_ClientID oc, ts_createdAt = ie_nowIssued e2\<rparr>"
    using assms(13) by metis
  have "idToken \<noteq> ''''" using assms(4) by (simp add: undisturbedExchange_def)
  note accepted = granted_token_accepted [OF assms(2) _ assms(3) _ this, of lib v oc e2 "encodeToString r2"]
  have env: "lg_ctxErr env = None" "lg_parentErr env = None" "lg_verifierCode env = ver"
    "lg_random1 env = Inr r1" "lg_random2 env = Inr r2" "lg_authCodeURL env = ol_authCodeURL lib"
    "lg_verify env = ol_verify lib" "lg_now env = now" "lg_flow env = flow"
    "\<And>o2 x vc ex. lg_exchange env o2 x vc ex = ol_token lib (fst (providerExchange lib e1 e2 o2 vc r1 r2 x s))"
    by (simp_all add: assms(6) providerLoginEnv_def)
  let ?tok = "\<lparr>tk_AccessToken = generateRandomString (ie_random1 e2),
      tk_RefreshToken = generateRandomString (ie_random2 e2), tk_Expiry = t, tk_Extra = kvs\<rparr>"
  have "loginTokenState (lg_verify env v) (ClientID (config c)) (encodeToString r2) ?tok (lg_now env) =
      Inr \<lparr>AccessToken = generateRandomString (ie_random1 e2), RefreshToken = generateRandomString (ie_random2 e2),
           IDToken = idToken, ExpiresAt = t, LastAuthAt = now\<rparr>"
    using accepted [of ?tok now] assms(5) c(3,5) kvs by (simp add: env)
  note lg = login_succeeds [OF assms(7) env(1,2) c(1-4) _ _ refl _ _ assms(10) _ this]
  show ?thesis
    using lg [of ops] assms(8,9,12) s' c(6,7) tok by (simp add: env randomState_def)
qed

definition sampleAuthQuery :: "oauth2_config \<Rightarrow> string \<Rightarrow> string \<Rightarrow> string \<Rightarrow> url_values" where
  "sampleAuthQuery oc st ver nonce =
     [(''client_id'', oc_ClientID oc), (''code_challenge'', encodeToString (ie_sha256 sampleIDPEnv ver)),
      (''code_challenge_method'', ''S256''), (''nonce'', nonce), (''redirect_uri'', oc_RedirectURL oc),
      (''response_type'', ''code''), (''state'', st)]"

definition sampleLib :: oauth2Lib where
  "sampleLib =
     \<lparr>ol_authCodeURL = (\<lambda>oc st ver nonce extra.
        oc_AuthURL oc @ ''?'' @ Values_Encode (sampleAuthQuery oc st ver nonce)),
      ol_token = (\<lambda>w. case rw_body w of
          [Json (JObj kvs)] \<Rightarrow>
            (case (map_of kvs ''access_token'', map_of kvs ''refresh_token'') of
               (Some (JStr a), Some (JStr rt)) \<Rightarrow>
                 Inr \<lparr>tk_AccessToken = a, tk_RefreshToken = rt, tk_Expiry = atSec 3000, tk_Extra = kvs\<rparr>
             | _ \<Rightarrow> Inl (OtherError ''oauth2: server response missing access_token''))
        | _ \<Rightarrow> Inl (OtherError ''oauth2: cannot parse json'')),
      ol_verify = (\<lambda>v raw. Inr \<lparr>it_Subject = ''test-user'', it_Audience = [''test-client''],
        it_Nonce = encodeToString ''CD'', it_Claims = Inr [(''sub'', JStr ''test-user'')]\<rparr>)\<rparr>"

definition providerOAuth2 :: oauth2_config where
  "providerOAuth2 =
     sampleOAuth2\<lparr>oc_ClientID := ''test-client'', oc_AuthURL := ''http://127.0.0.1:9/authorize'',
       oc_TokenURL := ''http://127.0.0.1:9/token'', oc_RedirectURL := ''http://127.0.0.1:5/callback''\<rparr>"

definition providerClient :: "token_state client" where
  "providerClient =
     sampleClient\<lparr>oauth2 := Some providerOAuth2, config := sampleConfig\<lparr>ClientID := ''test-client''\<rparr>\<rparr>"

lemma sampleLib_documented: "buildsAuthURL sampleLib (ie_sha256 sampleIDPEnv)" "readsTokens sampleLib"
proof -
  have "authorizeQuery oc st (encodeToString (ie_sha256 sampleIDPEnv ver)) nonce (sampleAuthQuery oc st ver nonce)"
    for oc st ver nonce by (simp add: authorizeQuery_def sampleAuthQuery_def valuesOf_def)
  moreover have "ol_authCodeURL sampleLib oc st ver nonce [] =
      oc_AuthURL oc @ ''?'' @ Values_Encode (sampleAuthQuery oc st ver nonce)" for oc st ver nonce
    by (simp add: sampleLib_def)
  ultimately show "buildsAuthURL sampleLib (ie_sha256 sampleIDPEnv)" unfolding buildsAuthURL_def by blast
  show "readsTokens sampleLib" by (simp add: readsTokens_def sampleLib_def)
qed

lemma providerClient_initialized: "initializedFor sampleIDP providerOAuth2 providerClient"
proof -
  let ?base = "emptyURL\<lparr>u_Scheme := ''http'', u_Host := ''127.0.0.1:9''\<rparr>"
  let ?ru = "emptyURL\<lparr>u_Scheme := ''http'', u_Host := ''127.0.0.1:5'', u_Path := ''/callback''\<rparr>"
  have 1: "plainURL ?base \<and> plainURL ?ru \<and> Parse (oc_RedirectURL providerOAuth2) = Inr ?ru \<and>
      isRegisteredRedirectURI (oc_RedirectURL providerOAuth2) sampleIDP" by code_simp
  have 2: "u_Path ?base = ''''" "u_RawQuery ?ru = ''''" "f_URL sampleIDP = u_Scheme ?base @ ''://'' @ u_Host ?base"
    by (simp_all add: emptyURL_def sampleIDP_def NewFakeIDP_def)
  have 3: "servesClient sampleIDP providerOAuth2"
    using 1 by (simp add: servesClient_def sampleIDP_def NewFakeIDP_def providerOAuth2_def)
  have "oc_AuthURL providerOAuth2 = f_URL sampleIDP @ ''/authorize''"
    by (simp add: sampleIDP_def NewFakeIDP_def providerOAuth2_def)
  with 1 2 3 show ?thesis
    unfolding initializedFor_def by (auto simp: providerClient_def sampleClient_def providerOAuth2_def newClient_def sampleConfig_def)
qed

section \<open>Logout at the provider\<close>

lemma serve_revoke:
  assumes "f_Hooks s = noHooks" and "u_Path (sr_URL r) = ''/revoke''" and "sr_Method r = ''POST''"
  shows "serveIDP env r s =
           handleRevoke env (snd (ParseForm r)) newResponse
             (withRecord ''/revoke'' ''POST'' (the (sr_PostForm (snd (ParseForm r)))) s)"
  using assms
  by (simp add: serveIDP_def idpRoutes_def wrapHandler_def runRevocation_def runHook_def noHooks_def withRecord_def
      Let_def)

text \<open>
  The request with which a logout revokes its refresh token, sent to the provider's
  revocation endpoint, is accepted and makes exactly that token unusable: a refresh with it
  is answered with \<open>invalid_grant\<close> from then on, the answer on which a client ends its session.
\<close>

lemma logout_revokes_at_provider:
  assumes "revokeRefreshToken p endpoint rt c = Some rq" and "f_Hooks s = noHooks"
    and "Parse (rr_url rq) = Inr u" and "u_Path u = ''/revoke''" and "u_RawQuery u = ''''"
    and "serveIDP env (receivedRequest ''POST'' (originForm u) (Some (rr_body rq)) None) s = (w, s')"
  shows "respStatus w = 200 \<and> f_refreshTokens s' = (f_refreshTokens s)(rt := None) \<and> f_codes s' = f_codes s \<and>
         (FormValue r ''refresh_token'' = rt \<longrightarrow>
            fst (handleRefreshExchange env' r newResponse s') =
              tokenError ''invalid_grant'' ''invalid or expired refresh token'' newResponse)"
proof -
  let ?form = "revocationForm rt (ClientID (config c))"
  have rq: "rr_body rq = Values_Encode ?form" "rt \<noteq> ''''"
    using assms(1) by (auto simp: revokeRefreshToken_def split: if_splits)
  let ?r = "receivedRequest ''POST'' (originForm u) (Some (Values_Encode ?form)) None"
  have q: "u_RawQuery (originForm u) = ''''" using assms(5) by (simp add: originForm_def)
  note form = FormValue_posted [OF refl q, of ?form None]
  have "Values_Get ?form ''token'' = rt" by (simp add: revocationForm_def Values_Get_def valuesOf_def)
  moreover have "FormValue (snd (ParseForm ?r)) ''token'' = Values_Get (requestForm (snd (ParseForm ?r))) ''token''"
    by (simp add: FormValue_def)
  ultimately have tok: "Values_Get (requestForm (snd (ParseForm ?r))) ''token'' = rt" using form(1) by metis
  have "serveIDP env ?r s = handleRevoke env (snd (ParseForm ?r)) newResponse
      (withRecord ''/revoke'' ''POST'' (the (sr_PostForm (snd (ParseForm ?r)))) s)"
    by (rule serve_revoke [OF assms(2)]) (use assms(4) in \<open>simp_all add: receivedRequest_def originForm_def\<close>)
  then have "w = WriteHeader 200 newResponse" "f_refreshTokens s' = (f_refreshTokens s)(rt := None)" "f_codes s' = f_codes s"
    using assms(6) tok rq form(2,3)
    by (auto simp: handleRevoke_def case_prod_beta revokeToken_def)
  then show ?thesis
    by (simp add: response_defs handleRefreshExchange_def takeRefreshToken_def)
qed

end
