(* ===== verification/Handler_Login.thy ===== *)
theory Handler_Login
  imports Provider_Login Mobileflow Desktopflow
begin

text \<open>
  Logins through any flow handler that keeps the contract of \<open>auth_flow\<close>, and with it through the
  desktop, the mobile and the fake handler, against the provider of \<open>oidctest\<close>.
\<close>

text \<open>Where the provider sends a browser that asks for the authorization URL.\<close>

definition browse :: "idpEnv \<Rightarrow> string \<Rightarrow> fakeIDP \<Rightarrow> string" where
  "browse env authURL s =
     (case Parse authURL of
        Inl _ \<Rightarrow> ''''
      | Inr u \<Rightarrow> (case fst (idpGet env u s) of Inl _ \<Rightarrow> '''' | Inr w \<Rightarrow> respLocation w))"

text \<open>The flow of a handler; a flow that goes on waiting ends with the context.\<close>

definition handlerFlow :: "(string \<Rightarrow> string \<Rightarrow> string result option) \<Rightarrow> idpEnv \<Rightarrow> fakeIDP \<Rightarrow> string \<Rightarrow> 's flowEnv" where
  "handlerFlow start env s authURL =
     \<lparr>lf_wait = id, lf_takesPermit = True, lf_beforeStart = id,
      lf_start = (\<lambda>c. (case start authURL (browse env authURL s) of
                         Some res \<Rightarrow> res | None \<Rightarrow> Inl (CtxErr DeadlineExceeded), c))\<rparr>"

lemma browse_FakeFlow:
  assumes "FakeFlow_StartAuthFlow (idpGet env) uri authURL s = (Some (Inr cb), s')"
  shows "browse env authURL s = cb"
  using assms
  by (auto simp: FakeFlow_StartAuthFlow_def browse_def split: sum.splits prod.splits if_splits)

lemma client_requestsFlow:
  assumes "initializedFor s oc c" and "undisturbedExchange lib e1 e2 oc ver r1 r2 idToken s"
  shows "requestsFlow ''redirect_uri'' (ol_authCodeURL lib oc (encodeToString r1) ver (encodeToString r2) [])
           (oc_RedirectURL oc) (encodeToString r1)"
proof -
  obtain base q where u: "plainURL base" "u_Path base = ''''" "u_Scheme base \<in> {''http'', ''https''}"
    and url: "ol_authCodeURL lib oc (encodeToString r1) ver (encodeToString r2) [] =
      (u_Scheme base @ ''://'' @ u_Host base) @ ''/authorize'' @ ''?'' @ Values_Encode q"
    and q: "authorizeQuery oc (encodeToString r1) (encodeToString (ie_sha256 e2 ver)) (encodeToString r2) q"
    by (rule client_authURL [OF assms])
  have "q \<noteq> []" using q by (auto simp: authorizeQuery_def valuesOf_def)
  from authURL_parses [OF u(1,2) this] u(1,3) q show ?thesis
    unfolding requestsFlow_def url
    by (simp add: ParseQuery_Encode authorizeQuery_def plainURL_def plainHost_def)
qed

context auth_flow
begin

text \<open>A code or an error of the provider reaches the client as what it is.\<close>

lemma code_reaches_client:
  assumes "requestsFlow ''redirect_uri'' authURL redirectURI st" and "st \<noteq> ''''" and "plainRedirect redirectURI ru" and "reachable ru"
  shows "start authURL (answerURL ru [(''code'', cd), (''state'', st)]) =
           Some (Inr (answerURL ru [(''code'', cd), (''state'', st)]))"
proof -
  let ?q = "Values_Set (Values_Set (Query ru) ''code'' cd) ''state'' st"
  have loc: "answerURL ru [(''code'', cd), (''state'', st)] = redirectLocation ru ?q"
    by (simp add: answerURL_def redirectLocation_def)
  have "?q \<noteq> []" by (simp add: Values_Set_def)
  moreover have "valuesOf ?q ''state'' = [st]" by simp
  ultimately show ?thesis unfolding loc by (rule delivers [OF assms])
qed

lemma login_through:
  assumes "initializedFor s oc c" and "keysInv s" and "0 < f_idTokenTTL s"
    and "undisturbedExchange lib e1 e2 oc ver r1 r2 idToken s"
    and "verifiesSigned lib (the (verifier c)) s (oc_ClientID oc) (ie_nowIssued e2) (f_signer s)
           (grantedClaims e2 s oc (encodeToString r2)) idToken"
    and "oc_RedirectURL oc = redirectURI" and "plainRedirect redirectURI ru" and "reachable ru"
    and "login ops (providerLoginEnv lib (handlerFlow start e1 s) e1 e2 oc ver r1 r2 now s) c = (res, c')"
    and "cd = generateRandomString (ie_random1 e1)"
    and "s' = snd (providerExchange lib e1 e2 oc ver r1 r2 cd s)"
  shows "res = Some None \<and> AccessToken (state c') = generateRandomString (ie_random1 e2) \<and>
         IDToken (state c') = idToken \<and> LastAuthAt (state c') = now \<and>
         store c' = snd (Save ops (state c') (store c)) \<and> f_codes s' cd = None \<and>
         f_refreshTokens s' (RefreshToken (state c')) =
           Some \<lparr>ts_subject = ''test-user'', ts_clientID = oc_ClientID oc, ts_createdAt = ie_nowIssued e2\<rparr>"
proof -
  let ?st = "encodeToString r1"
  let ?url = "ol_authCodeURL lib oc ?st ver (encodeToString r2) []"
  let ?cb = "answerURL ru [(''code'', cd), (''state'', ?st)]"
  have ru: "Parse (oc_RedirectURL oc) = Inr ru" using assms(6,7) by (simp add: plainRedirect_def)
  obtain params where flow: "FakeFlow_StartAuthFlow (idpGet e1) (oc_RedirectURL oc) ?url s =
      (Some (Inr ?cb), withRecord ''/authorize'' ''GET'' params s\<lparr>f_codes := (f_codes s)(cd \<mapsto>
        grantedCode (ie_now e1) oc (encodeToString (ie_sha256 e2 ver)) (encodeToString r2))\<rparr>)"
    and cb: "loginCallback ?st ?cb = Inr cd" by (rule flow_completes [OF assms(1,4,10) ru])
  note browse = browse_FakeFlow [OF flow]
  have "?st \<noteq> ''''" using assms(4) by (simp add: undisturbedExchange_def encode_nonempty)
  with code_reaches_client [OF _ this assms(7,8), of ?url cd] client_requestsFlow [OF assms(1,4)] assms(6)
  have start: "start ?url (browse e1 ?url s) = Some (Inr ?cb)" unfolding browse by simp
  show ?thesis
    by (rule login_completes [OF assms(1-5) refl _ _ _ cb assms(10,9,11)])
      (simp_all add: start handlerFlow_def quietLogin_def providerLoginEnv_def)
qed

end



text \<open>The login of the witness goes through the desktop handler on port 5.\<close>

definition sampleAnswerEnv :: idpEnv where
  "sampleAnswerEnv = sampleIDPEnv\<lparr>ie_random1 := ''a'', ie_random2 := ''b''\<rparr>"

definition sampleDesktopLogin :: "goerror option option \<times> token_state client" where
  "sampleDesktopLogin =
     login memoryStore
       (providerLoginEnv sampleLib (handlerFlow (desktopAuth (desktopNew 5)) sampleIDPEnv sampleIDP)
          sampleIDPEnv sampleAnswerEnv providerOAuth2 ''ver'' ''AB'' ''CD'' (atSec 1000) sampleIDP) providerClient"


end
