(* ===== verification/Handler_Logout.thy ===== *)
theory Handler_Logout
  imports Handler_Login
begin

text \<open>
  A logout through a flow handler that keeps the contract of \<open>logout_flow\<close>, against the provider of
  \<open>oidctest\<close>: revocation of the refresh token and RP-initiated logout.
\<close>

section \<open>A logout that nothing disturbs\<close>

lemma drainIf_session [simp]:
  "config (drainIf b c) = config c" "lifecycleFlow (drainIf b c) = lifecycleFlow c"
  "lifecycleOperation (drainIf b c) = lifecycleOperation c" "operations (drainIf b c) = operations c"
  by (simp_all add: drainIf_def drainEvents_eq)

lemma logoutCommit_fields:
  assumes "logoutCommit ops None c = (Some snapshot, c')"
  shows "config c' = config c" and "lifecycleFlow c' = lifecycleFlow c"
    and "ls_endSessionEndpoint snapshot = endSessionEndpoint c"
    and "ls_revocationEndpoint snapshot = revocationEndpoint c"
    and "lifecycleOperationCurrentLocked (nextPtr c) c'"
  using assms
  by (auto simp: logoutCommit_def Let_def case_prod_beta beginLifecycleOperationLocked_def cancelOperation_def
      lifecycleOperationCurrentLocked_def setStateLocked_def advanceStateLocked_def signalRefreshLoopLocked_def
      enqueueEvent_def op_ctxErr_def split: if_splits option.splits)

lemma Logout_completes:
  fixes c :: "'s client"
  assumes "\<not> logoutInProgress c" and "lifecycleFlow c = None" and "endSessionEndpoint c \<noteq> ''''" and "IDToken (state c) \<noteq> ''''"
    and "lo_parentErr env = None" and "lo_afterCommit env = id" and "lo_duringRevocation env = id"
    and "lo_logoutHandler env = Some (luri, flow)" and "luri \<noteq> ''''" and "randomState (lo_random env) = Inr st"
    and "buildLogoutURL (endSessionEndpoint c) (IDToken (state c)) luri st = Inr url"
    and "lf_wait (flow url) = id" and "lf_takesPermit (flow url)" and "lf_beforeStart (flow url) = id"
    and "\<And>d. lf_start (flow url) d = (Inr cb, d)" and "checkLogoutCallback st cb = RPStateMatched"
  obtains c1 :: "'s client" where
    "fst (Logout ops env c) =
       Some \<lparr>lr_request = revokeRefreshToken (nextPtr c) (revocationEndpoint c) (RefreshToken (state c)) c1,
             lr_outcome = Some RPStateMatched\<rparr>"
    and "lifecycleOperation c1 = Some (nextPtr c)" and "config c1 = config c"
    and "state (snd (Logout ops env c)) = zeroTokenState"
    and "store (snd (Logout ops env c)) = snd (Delete ops (store c))"
    and "lifecycleOperation (snd (Logout ops env c)) = None" and "lifecycleFlow (snd (Logout ops env c)) = None"
proof -
  obtain snap c1 where com: "logoutCommit ops None c = (Some snap, c1)"
    using assms(1) by (cases "logoutCommit ops None c") (auto simp: logoutCommit_def Let_def case_prod_beta split: if_splits)
  note l = logoutCommit_Some [OF com] and f = logoutCommit_fields [OF com]
  let ?p = "nextPtr c" and ?c2 = "releasePermit c1"
  have flow: "runLifecycleFlow ?p (flow url) c1 = (Some (Inr cb), ?c2)"
    using f(2,5) assms(2,12-15) by (simp add: runLifecycleFlow_def Let_def releasePermit_def)
  have "doRPLogout env ?p (endSessionEndpoint c) (IDToken (state c)) c1 = (Some RPStateMatched, ?c2)"
    using f(5) assms(8-11,16) flow by (simp add: doRPLogout_def Let_def)
  then have "Logout ops env c =
      (Some \<lparr>lr_request = revokeRefreshToken ?p (revocationEndpoint c) (RefreshToken (state c)) c1,
             lr_outcome = Some RPStateMatched\<rparr>, finishLifecycleOperation ?p ?c2)"
    using com assms(3-7) l(7-9) f(3,4) by (simp add: Logout_def Let_def)
  moreover have "lifecycleOperation (finishLifecycleOperation ?p ?c2) = None"
    "state (finishLifecycleOperation ?p ?c2) = zeroTokenState"
    "store (finishLifecycleOperation ?p ?c2) = snd (Delete ops (store c))"
    "lifecycleFlow (finishLifecycleOperation ?p ?c2) = None"
    using l(1,4,10)
    by (auto simp: finishLifecycleOperation_def cancelOperation_def releasePermit_def Let_def split: option.splits)
  ultimately show thesis using that [of c1] l(10) f(1) by simp
qed

section \<open>The end-session endpoint\<close>

lemma serve_end_session:
  assumes "f_Hooks s = noHooks" and "u_Path (sr_URL r) = ''/end_session''" and "sr_Method r = ''GET''"
  shows "serveIDP env r s =
           handleEndSession env r newResponse (withRecord ''/end_session'' ''GET'' (Query (sr_URL r)) s)"
  using assms
  by (simp add: serveIDP_def idpRoutes_def wrapHandler_def runEndSession_def runHook_def noHooks_def withRecord_def)

text \<open>The logout URL of a client for a provider at a plain base URL, and the answer to it.\<close>

definition logoutQuery :: "string \<Rightarrow> string \<Rightarrow> string \<Rightarrow> url_values" where
  "logoutQuery idToken uri st = [(''id_token_hint'', idToken), (''state'', st), (''post_logout_redirect_uri'', uri)]"

lemma logoutURL_built:
  fixes idToken st :: string
  assumes "plainURL u" and "u_RawQuery u = ''''" and "Parse endpoint = Inr u" and "uri \<noteq> ''''"
  defines "url \<equiv> URL_String (u\<lparr>u_RawQuery := Values_Encode (logoutQuery idToken uri st)\<rparr>)"
  shows "buildLogoutURL endpoint idToken uri st = Inr url"
    and "Parse url = Inr (u\<lparr>u_RawQuery := Values_Encode (logoutQuery idToken uri st)\<rparr>)"
proof -
  have "Query u = []" using assms(2) by (simp add: Query_def queryPairs_def parsePair_def)
  then show "buildLogoutURL endpoint idToken uri st = Inr url"
    using assms(3,4) by (simp add: buildLogoutURL_def url_def logoutQuery_def Values_Set_def)
  show "Parse url = Inr (u\<lparr>u_RawQuery := Values_Encode (logoutQuery idToken uri st)\<rparr>)"
    unfolding url_def by (rule Parse_with_query [OF assms(1)]) (simp add: logoutQuery_def)
qed

lemma logoutQuery_values:
  "valuesOf (logoutQuery idToken uri st) ''state'' = [st]"
  "valuesOf (logoutQuery idToken uri st) ''post_logout_redirect_uri'' = [uri]"
  by (simp_all add: logoutQuery_def valuesOf_def)

lemma end_session_answers:
  assumes "f_Hooks s = noHooks" and "u_Path u = ''/end_session''" and "st \<noteq> ''''" and "plainRedirect uri ru"
    and "u_RawQuery u = Values_Encode (logoutQuery idToken uri st)" and "Parse url = Inr u"
  shows "browse env url s = redirectLocation ru [(''state'', st)]"
proof -
  let ?r = "receivedRequest ''GET'' (originForm u) None None" and ?q = "[(''state'', st)]"
  have r: "sr_Method ?r = ''GET''" "u_Path (sr_URL ?r) = ''/end_session''"
    "Query (sr_URL ?r) = encodeOrder (logoutQuery idToken uri st)"
    using ParseQuery_Encode [of "logoutQuery idToken uri st"] assms(2,5)
    by (simp_all add: receivedRequest_def originForm_def Query_def ParseQuery_def split: if_splits)
  have ru: "Parse uri = Inr ru" "plainURL ru" "Query ru = []"
    using assms(4) by (simp_all add: plainRedirect_def Query_def queryPairs_def parsePair_def)
  have "uri \<noteq> ''''" using plainRedirect_callback(1) [OF assms(4)] by (auto simp: parseCallbackURI_def trimSpace_def)
  then have "fst (idpGet env u s) = Inr (http_Redirect ?r (redirectLocation ru ?q) 302 newResponse)"
    using assms(3) ru(1,3)
    unfolding idpGet_def serve_end_session [OF assms(1) r(2,1)] handleEndSession_def r(3)
    by (simp add: Values_Get_def logoutQuery_values redirectLocation_def Values_Set_def)
  moreover have "respLocation (http_Redirect ?r (redirectLocation ru ?q) 302 newResponse) = redirectLocation ru ?q"
    unfolding redirectLocation_def by (rule redirect_plain(2) [OF ru(2) _ r(1)]) simp
  ultimately show ?thesis by (simp add: browse_def assms(6))
qed

lemma logout_callback_matches:
  assumes "plainRedirect uri ru" and "st \<noteq> ''''"
  shows "checkLogoutCallback st (redirectLocation ru [(''state'', st)]) = RPStateMatched"
proof -
  note loc = plainRedirect_text [OF assms(1), of "[(''state'', st)]", simplified]
  have "IsAbs ru" using assms(1) by (simp add: plainRedirect_def plainURL_def validScheme_def IsAbs_def)
  moreover have "valuesOf (encodeOrder [(''state'', st)]) ''state'' = [st]" by (simp, simp add: valuesOf_def)
  ultimately show ?thesis
    using loc assms(2) by (simp add: checkLogoutCallback_def ParseQuery_Encode present_iff IsAbs_def)
qed


section \<open>Logout against the provider\<close>

text \<open>A client with a session of the provider, which serves it without hooks.\<close>

definition loggedInAt :: "fakeIDP \<Rightarrow> 's client \<Rightarrow> bool" where
  "loggedInAt s c \<longleftrightarrow>
     \<not> logoutInProgress c \<and> lifecycleFlow c = None \<and> IDToken (state c) \<noteq> '''' \<and> RefreshToken (state c) \<noteq> '''' \<and>
     IssuerURL (config c) = f_URL s \<and> endSessionEndpoint c = f_URL s @ ''/end_session'' \<and>
     revocationEndpoint c = f_URL s @ ''/revoke'' \<and> f_Hooks s = noHooks \<and>
     (\<exists>base. plainURL base \<and> u_Scheme base \<in> {''http'', ''https''} \<and> u_Path base = '''' \<and> u_RawQuery base = '''' \<and>
        f_URL s = u_Scheme base @ ''://'' @ u_Host base)"

definition afterRevocation :: "idpEnv \<Rightarrow> fakeIDP \<Rightarrow> 's client \<Rightarrow> fakeIDP" where
  "afterRevocation env s c =
     snd (idpPost env (emptyURL\<lparr>u_Path := ''/revoke''\<rparr>)
            (revocationForm (RefreshToken (state c)) (ClientID (config c))) s)"

definition handlerLogoutEnv ::
  "(string \<Rightarrow> string \<Rightarrow> string result option) \<Rightarrow> string \<Rightarrow> string \<Rightarrow> idpEnv \<Rightarrow> fakeIDP \<Rightarrow> string \<Rightarrow> 's logoutEnv" where
  "handlerLogoutEnv start uri luri env s r =
     \<lparr>lo_parentErr = None, lo_afterCommit = id, lo_duringRevocation = id, lo_redirectURI = uri,
      lo_authFlow = handlerFlow (\<lambda>_ _. None) env s, lo_logoutHandler = Some (luri, handlerFlow start env s),
      lo_random = Inr r\<rparr>"

lemma endpoint_parses:
  assumes "plainURL base" and "u_Path base = ''''" and "u_RawQuery base = ''''" and "escape encodePath p = p" and "hd p = CHR ''/''"
  shows "plainURL (base\<lparr>u_Path := p\<rparr>)"
    and "Parse ((u_Scheme base @ ''://'' @ u_Host base) @ p) = Inr (base\<lparr>u_Path := p\<rparr>)"
proof -
  show plain: "plainURL (base\<lparr>u_Path := p\<rparr>)" using assms(1,5) by (simp add: plainURL_def)
  have "(base\<lparr>u_Path := p\<rparr>)\<lparr>u_RawQuery := ''''\<rparr> = base\<lparr>u_Path := p\<rparr>" using assms(3) by simp
  then have "URL_String (base\<lparr>u_Path := p\<rparr>) = (u_Scheme base @ ''://'' @ u_Host base) @ p"
    using URL_String_plain_any [OF plain, of "''''"] assms(4) by simp
  with Parse_URL_String_bare [OF plain] assms(3)
  show "Parse ((u_Scheme base @ ''://'' @ u_Host base) @ p) = Inr (base\<lparr>u_Path := p\<rparr>)" by simp
qed

lemma revocation_at_provider:
  assumes "loggedInAt s c" and "s1 = afterRevocation e s c" and "lifecycleOperation c1 = Some p" and "config c1 = config c"
  obtains rq where "revokeRefreshToken p (revocationEndpoint c) (RefreshToken (state c)) c1 = Some rq"
    and "rr_url rq = f_URL s @ ''/revoke''"
    and "rr_body rq = Values_Encode (revocationForm (RefreshToken (state c)) (ClientID (config c)))"
    and "f_refreshTokens s1 = (f_refreshTokens s)(RefreshToken (state c) := None)" and "f_Hooks s1 = noHooks"
    and "FormValue r ''refresh_token'' = RefreshToken (state c) \<Longrightarrow>
      fst (handleRefreshExchange e' r newResponse s1) =
        tokenError ''invalid_grant'' ''invalid or expired refresh token'' newResponse"
proof -
  obtain base where b: "plainURL base" "u_Scheme base \<in> {''http'', ''https''}" "u_Path base = ''''" "u_RawQuery base = ''''"
      "f_URL s = u_Scheme base @ ''://'' @ u_Host base" and hooks: "f_Hooks s = noHooks"
    using assms(1) by (auto simp: loggedInAt_def)
  have "escape encodePath ''/revoke'' = ''/revoke''" by code_simp
  note ep = endpoint_parses [OF b(1,3,4) this, folded b(5), simplified]
  let ?u = "base\<lparr>u_Path := ''/revoke''\<rparr>"
  let ?form = "revocationForm (RefreshToken (state c)) (ClientID (config c))"
  let ?rq = "\<lparr>rr_url = f_URL s @ ''/revoke'', rr_body = Values_Encode ?form, rr_followRedirects = False\<rparr>"
  have "u_Scheme base = ''http'' \<Longrightarrow> hasPrefix (f_URL s) ''http://''" using b(5) by (simp add: hasPrefix_def)
  then have "revocationEndpointAllowed (f_URL s) (f_URL s @ ''/revoke'')"
    using ep b(1,2) by (auto simp: revocationEndpointAllowed_def IsAbs_def plainURL_def plainHost_def)
  then have rq: "revokeRefreshToken p (revocationEndpoint c) (RefreshToken (state c)) c1 = Some ?rq"
    using assms(1,3,4) by (simp add: revokeRefreshToken_def loggedInAt_def lifecycleOperationOwned_def)
  have origin: "originForm ?u = originForm (emptyURL\<lparr>u_Path := ''/revoke''\<rparr>)"
    using b(1,4) by (simp add: originForm_def plainURL_def emptyURL_def)
  let ?r = "receivedRequest ''POST'' (originForm ?u) (Some (Values_Encode ?form)) None"
  have s1: "s1 = snd (serveIDP e ?r s)" by (simp add: assms(2) afterRevocation_def idpPost_def origin)
  have "f_Hooks s1 = noHooks"
    unfolding s1 using serve_revoke [OF hooks, of ?r e]
    by (simp add: receivedRequest_def originForm_def handleRevoke_def revokeToken_def hooks case_prod_beta)
  moreover have "Parse (rr_url ?rq) = Inr ?u" "u_Path ?u = ''/revoke''" "u_RawQuery ?u = ''''"
    "serveIDP e (receivedRequest ''POST'' (originForm ?u) (Some (rr_body ?rq)) None) s = (fst (serveIDP e ?r s), s1)"
    using ep(2) b(4) s1 by simp_all
  note logout_revokes_at_provider [OF rq hooks this, of r e']
  ultimately show thesis using that [OF rq] by simp
qed

context logout_flow
begin

lemma logout_through:
  fixes c :: "'s client"
  assumes "loggedInAt s c" and "plainRedirect logoutURI ru" and "reachable ru" and "r \<noteq> []"
    and "s1 = afterRevocation e2 s c"
    and "Logout ops (handlerLogoutEnv startLogout redirectURI logoutURI e1 s1 r) c = (res, c')"
  shows "(\<exists>rq. res = Some \<lparr>lr_request = Some rq, lr_outcome = Some RPStateMatched\<rparr> \<and> rr_url rq = f_URL s @ ''/revoke'' \<and>
            rr_body rq = Values_Encode (revocationForm (RefreshToken (state c)) (ClientID (config c)))) \<and>
         state c' = zeroTokenState \<and> store c' = snd (Delete ops (store c)) \<and> lifecycleOperation c' = None \<and>
         f_refreshTokens s1 = (f_refreshTokens s)(RefreshToken (state c) := None) \<and>
         (FormValue rf ''refresh_token'' = RefreshToken (state c) \<longrightarrow>
            fst (handleRefreshExchange e3 rf newResponse s1) =
              tokenError ''invalid_grant'' ''invalid or expired refresh token'' newResponse)"
proof -
  let ?st = "encodeToString r" and ?env = "handlerLogoutEnv startLogout redirectURI logoutURI e1 s1 r :: 's logoutEnv"
  obtain base where b: "plainURL base" "u_Scheme base \<in> {''http'', ''https''}" "u_Path base = ''''" "u_RawQuery base = ''''"
      "f_URL s = u_Scheme base @ ''://'' @ u_Host base"
    using assms(1) by (auto simp: loggedInAt_def)
  note l = assms(1) [unfolded loggedInAt_def]
  have "escape encodePath ''/end_session'' = ''/end_session''" by code_simp
  note ep = endpoint_parses [OF b(1,3,4) this, folded b(5), simplified]
  let ?u = "base\<lparr>u_Path := ''/end_session''\<rparr>"
  have st: "?st \<noteq> ''''" using assms(4) by (rule encode_nonempty)
  have uri: "logoutURI \<noteq> ''''" using plainRedirect_callback(1) [OF assms(2)] by (auto simp: parseCallbackURI_def trimSpace_def)
  define url where "url = URL_String (?u\<lparr>u_RawQuery := Values_Encode (logoutQuery (IDToken (state c)) logoutURI ?st)\<rparr>)"
  have q: "u_RawQuery ?u = ''''" using b(4) by simp
  note url = logoutURL_built [OF ep(1) q ep(2) uri, of "IDToken (state c)" ?st, folded url_def]
  have requests: "requestsFlow ''post_logout_redirect_uri'' url logoutURI ?st"
    using b(1,2) url(2) by (simp add: requestsFlow_def ParseQuery_Encode logoutQuery_values plainURL_def plainHost_def)
  have "f_Hooks s1 = noHooks"
    by (rule revocation_at_provider [OF assms(1,5), of "c\<lparr>lifecycleOperation := Some 0\<rparr>" 0]) simp_all
  from end_session_answers [OF this _ st assms(2) _ url(2)]
  have "browse e1 url s1 = redirectLocation ru [(''state'', ?st)]" by simp
  moreover have "startLogout url (redirectLocation ru [(''state'', ?st)]) = Some (Inr (redirectLocation ru [(''state'', ?st)]))"
    by (rule delivers_logout [OF requests st assms(2,3)]) (simp_all add: valuesOf_def)
  ultimately have start: "lf_start (handlerFlow startLogout e1 s1 url) d = (Inr (redirectLocation ru [(''state'', ?st)]), d)"
    for d :: "'s client" by (simp add: handlerFlow_def)
  have flow: "lf_wait (handlerFlow startLogout e1 s1 url :: 's flowEnv) = id"
    "lf_takesPermit (handlerFlow startLogout e1 s1 url :: 's flowEnv)"
    "lf_beforeStart (handlerFlow startLogout e1 s1 url :: 's flowEnv) = id" by (simp_all add: handlerFlow_def)
  have env: "lo_parentErr ?env = None" "lo_afterCommit ?env = id" "lo_duringRevocation ?env = id"
    "lo_logoutHandler ?env = Some (logoutURI, handlerFlow startLogout e1 s1)" "randomState (lo_random ?env) = Inr ?st"
    by (simp_all add: handlerLogoutEnv_def randomState_def)
  have c: "\<not> logoutInProgress c" "lifecycleFlow c = None" "endSessionEndpoint c \<noteq> ''''" "IDToken (state c) \<noteq> ''''"
    "buildLogoutURL (endSessionEndpoint c) (IDToken (state c)) logoutURI ?st = Inr url"
    using l url(1) by auto
  note cb = logout_callback_matches [OF assms(2) st]
  obtain c1 :: "'s client" where c1: "fst (Logout ops ?env c) =
       Some \<lparr>lr_request = revokeRefreshToken (nextPtr c) (revocationEndpoint c) (RefreshToken (state c)) c1,
             lr_outcome = Some RPStateMatched\<rparr>"
    "lifecycleOperation c1 = Some (nextPtr c)" "config c1 = config c"
    "state (snd (Logout ops ?env c)) = zeroTokenState" "store (snd (Logout ops ?env c)) = snd (Delete ops (store c))"
    "lifecycleOperation (snd (Logout ops ?env c)) = None"
    by (rule Logout_completes [OF c(1-4) env(1-4) uri env(5) c(5) flow start cb])
  obtain rq where "revokeRefreshToken (nextPtr c) (revocationEndpoint c) (RefreshToken (state c)) c1 = Some rq"
    "rr_url rq = f_URL s @ ''/revoke''"
    "rr_body rq = Values_Encode (revocationForm (RefreshToken (state c)) (ClientID (config c)))"
    "f_refreshTokens s1 = (f_refreshTokens s)(RefreshToken (state c) := None)"
    "FormValue rf ''refresh_token'' = RefreshToken (state c) \<Longrightarrow>
      fst (handleRefreshExchange e3 rf newResponse s1) =
        tokenError ''invalid_grant'' ''invalid or expired refresh token'' newResponse"
    by (rule revocation_at_provider [OF assms(1,5) c1(2,3), of rf e3]) blast
  with c1 assms(6) show ?thesis by simp
qed

end



definition sampleSession :: "token_state client" where
  "sampleSession =
     providerClient\<lparr>config := (config providerClient)\<lparr>IssuerURL := ''http://127.0.0.1:9''\<rparr>,
       endSessionEndpoint := ''http://127.0.0.1:9/end_session'', revocationEndpoint := ''http://127.0.0.1:9/revoke''\<rparr>"

lemma sampleSession_loggedIn: "loggedInAt sampleIDP sampleSession"
proof -
  let ?base = "emptyURL\<lparr>u_Scheme := ''http'', u_Host := ''127.0.0.1:9''\<rparr>"
  have "plainURL ?base" by code_simp
  moreover have "u_Scheme ?base = ''http''" "u_Path ?base = ''''" "u_RawQuery ?base = ''''" "u_Host ?base = ''127.0.0.1:9''"
    by (simp_all add: emptyURL_def)
  moreover have "f_URL sampleIDP = ''http://127.0.0.1:9''" "f_Hooks sampleIDP = noHooks"
    by (simp_all add: sampleIDP_def NewFakeIDP_def)
  moreover have "\<not> logoutInProgress sampleSession" "lifecycleFlow sampleSession = None"
    "IDToken (state sampleSession) \<noteq> ''''" "RefreshToken (state sampleSession) \<noteq> ''''" by code_simp+
  ultimately show ?thesis
    unfolding loggedInAt_def by (auto simp: sampleSession_def intro!: exI [of _ ?base])
qed


end
