(* ===== verification/Coverage_Check.thy ===== *)
theory Coverage_Check
  imports Go_Http "HOL-Library.Multiset"
begin

text \<open>
  The coverage gate (\<open>.github/scripts/coveragecheck/main.go\<close>): parsing a Go cover profile and
  the package list, and evaluating the coverage policy. An \<open>int64\<close> is an integer whose range
  the code checks; the final comparison is on 64-bit words with a 128-bit product. Maps are
  association lists with distinct keys. The report written to the output is not modelled.
\<close>

section \<open>Numbers and texts\<close>

definition maxInt64 :: int where "maxInt64 = 2 ^ 63 - 1"

fun digitsValue :: "int \<Rightarrow> string \<Rightarrow> int option" where
  "digitsValue acc [] = Some acc"
| "digitsValue acc (ch # s) =
     (if isDigit ch then digitsValue (acc * 10 + int (byteOf ch - 48)) s else None)"

text \<open>\<open>strconv.ParseUint(s, 10, 64)\<close> and \<open>strconv.ParseInt(s, 10, 64)\<close>; \<open>None\<close> is any error.\<close>

definition ParseUint :: "string \<Rightarrow> int option" where
  "ParseUint s =
     (if s = '''' then None
      else case digitsValue 0 s of
        None \<Rightarrow> None
      | Some n \<Rightarrow> if n < 2 ^ 64 then Some n else None)"

definition ParseInt :: "string \<Rightarrow> int option" where
  "ParseInt s =
     (let neg = hasPrefix s ''-'';
          digits = (if hasPrefix s ''-'' \<or> hasPrefix s ''+'' then tl s else s)
      in case ParseUint digits of
           None \<Rightarrow> None
         | Some n \<Rightarrow>
             if \<not> neg \<and> n \<ge> 2 ^ 63 then None
             else if neg \<and> n > 2 ^ 63 then None
             else Some (if neg then - n else n))"

definition decimal :: "int \<Rightarrow> string" where
  "decimal n = (if n < 0 then ''-'' @ digitsOf (nat (- n)) else digitsOf (nat n))"

text \<open>\<open>%q\<close>; bytes from 128 on belong to printable characters.\<close>

definition quote :: "string \<Rightarrow> string" where
  "quote s =
     [CHR 0x22] @
     concat (map (\<lambda>ch.
       if ch = CHR 0x22 \<or> ch = CHR 0x5C then [CHR 0x5C, ch]
       else if ch = CHR 0x07 then CHR 0x5C # ''a''
       else if ch = CHR 0x08 then CHR 0x5C # ''b''
       else if ch = CHR 0x0C then CHR 0x5C # ''f''
       else if ch = CHR 0x0A then CHR 0x5C # ''n''
       else if ch = CHR 0x0D then CHR 0x5C # ''r''
       else if ch = CHR 0x09 then CHR 0x5C # ''t''
       else if ch = CHR 0x0B then CHR 0x5C # ''v''
       else if byteOf ch < 32 \<or> byteOf ch = 127
       then CHR 0x5C # CHR ''x'' # [lowerhex (byteOf ch div 16), lowerhex (byteOf ch mod 16)]
       else [ch]) s) @
     [CHR 0x22]"

text \<open>\<open>path.Clean\<close> by elements and \<open>path.Dir\<close>.\<close>

fun cleanPathElems :: "bool \<Rightarrow> string list \<Rightarrow> string list \<Rightarrow> string list" where
  "cleanPathElems rooted acc [] = rev acc"
| "cleanPathElems rooted acc (e # es) =
     (if e = '''' \<or> e = ''.'' then cleanPathElems rooted acc es
      else if e = ''..'' then
        (if acc \<noteq> [] \<and> hd acc \<noteq> ''..'' then cleanPathElems rooted (tl acc) es
         else if rooted then cleanPathElems rooted acc es
         else cleanPathElems rooted (e # acc) es)
      else cleanPathElems rooted (e # acc) es)"

definition path_Clean :: "string \<Rightarrow> string" where
  "path_Clean p =
     (let rooted = hasPrefix p ''/'';
          cleaned = (if rooted then ''/'' else '''') @
                    joinWith ''/'' (cleanPathElems rooted [] (splitOn (CHR ''/'') p))
      in if cleaned = '''' then ''.'' else cleaned)"

definition path_Dir :: "string \<Rightarrow> string" where
  "path_Dir p = path_Clean (pathDir p)"

text \<open>
  \<open>bufio.Scanner\<close> with \<open>ScanLines\<close> and the limit of one mebibyte: the lines before the first
  one that is too long, and the error.
\<close>

definition maxLine :: int where "maxLine = 1024 * 1024"

definition rawLines :: "string \<Rightarrow> string list" where
  "rawLines input =
     (let ls = splitOn (CHR 0x0A) input in if last ls = '''' then butlast ls else ls)"

definition dropCR :: "string \<Rightarrow> string" where
  "dropCR l = (if hasSuffix l [CHR 0x0D] then butlast l else l)"

definition scanInput :: "string \<Rightarrow> string list \<times> goerror option" where
  "scanInput input =
     (let ls = rawLines input;
          ok = takeWhile (\<lambda>l. int (length l) < maxLine) ls
      in (map dropCR ok, if length ok < length ls then Some (OtherError ''bufio.Scanner: token too long'') else None))"

section \<open>The policy\<close>

definition modulePath :: string where "modulePath = ''github.com/GyldendalDigital/go-pkceflow''"

record coveragePolicy =
  cp_modulePath :: string
  cp_defaultMinimum :: int
  cp_aggregateMinimum :: int
  cp_packageMinimums :: "(string \<times> int) list"

definition repositoryPolicy :: coveragePolicy where
  "repositoryPolicy =
     \<lparr>cp_modulePath = modulePath, cp_defaultMinimum = 70, cp_aggregateMinimum = 80,
      cp_packageMinimums =
        [(modulePath, 88), (modulePath @ ''/desktopflow'', 80), (modulePath @ ''/eventbus'', 80),
         (modulePath @ ''/filestore'', 80), (modulePath @ ''/mobileflow'', 80), (modulePath @ ''/oidctest'', 70)]\<rparr>"

record packageCoverage =
  covered :: int
  total :: int

record coverageResult =
  cr_name :: string
  cr_covered :: int
  cr_total :: int
  cr_minimum :: int
  cr_status :: string

record evaluation =
  results :: "coverageResult list"
  problems :: "string list"

section \<open>Package list\<close>

text \<open>
  \<open>parsePackageList\<close>: the import paths the JSON decoder yields, in order, and the error it
  ends with (\<open>None\<close> for \<open>io.EOF\<close>).
\<close>

fun packageLoop :: "string list \<Rightarrow> goerror option \<Rightarrow> string list \<Rightarrow> string list result" where
  "packageLoop [] err packages = (case err of Some e \<Rightarrow> Inl e | None \<Rightarrow> Inr packages)"
| "packageLoop (p # ps) err packages =
     (if p = '''' then Inl (OtherError ''go list returned a package without an import path'')
      else if p \<in> set packages then Inl (OtherError (''go list returned duplicate package '' @ quote p))
      else packageLoop ps err (packages @ [p]))"

definition parsePackageList :: "string list \<times> goerror option \<Rightarrow> string list result" where
  "parsePackageList decoded =
     (case packageLoop (fst decoded) (snd decoded) [] of
        Inl err \<Rightarrow> Inl err
      | Inr packages \<Rightarrow>
          if packages = [] then Inl (OtherError ''go list returned no packages'')
          else Inr (sort packages))"

text \<open>\<open>discoverPackages\<close>: the error of the command with its trimmed output, or its decoded output.\<close>

definition discoverPackages :: "(goerror \<times> string) + (string list \<times> goerror option) \<Rightarrow> string list result" where
  "discoverPackages command =
     (case command of
        Inl (err, output) \<Rightarrow>
          Inl (Errorf [Txt ''discover packages with go list: '', Wrapped err, Txt '': '', Txt (trimSpace output)])
      | Inr decoded \<Rightarrow>
          (case parsePackageList decoded of
             Inl err \<Rightarrow> Inl (Errorf [Txt ''decode go list output: '', Wrapped err])
           | Inr packages \<Rightarrow> Inr packages))"

section \<open>The cover profile\<close>

definition parseMode :: "string \<Rightarrow> goerror option" where
  "parseMode line =
     (if \<not> hasPrefix line ''mode: '' then Some (OtherError (''expected mode line, got '' @ quote line))
      else if drop 6 line \<in> {''set'', ''count'', ''atomic''} then None
      else Some (OtherError (''unsupported coverage mode '' @ quote (drop 6 line))))"

definition parsePosition :: "string \<Rightarrow> (int \<times> int) result" where
  "parsePosition position =
     (if CHR ''.'' \<notin> set position then Inl (OtherError ''position must contain line and column'')
      else let (line, column) = cutAt (CHR ''.'') position
           in case ParseInt line of
                None \<Rightarrow> Inl (OtherError (''invalid line '' @ quote line))
              | Some lineNumber \<Rightarrow>
                  if lineNumber \<le> 0 then Inl (OtherError (''invalid line '' @ quote line))
                  else (case ParseInt column of
                    None \<Rightarrow> Inl (OtherError (''invalid column '' @ quote column))
                  | Some columnNumber \<Rightarrow>
                      if columnNumber \<le> 0 then Inl (OtherError (''invalid column '' @ quote column))
                      else Inr (lineNumber, columnNumber)))"

definition parseBlockLocation :: "string \<Rightarrow> string result" where
  "parseBlockLocation location =
     (case lastIndexSplit (CHR '':'') location of
        None \<Rightarrow> Inl (OtherError (''invalid block location '' @ quote location))
      | Some (filePath, rest) \<Rightarrow>
          if filePath = '''' \<or> tl rest = '''' then Inl (OtherError (''invalid block location '' @ quote location))
          else if \<not> hasSuffix filePath ''.go''
          then Inl (OtherError (''coverage block file is not Go source: '' @ quote filePath))
          else (case splitOn (CHR '','') (tl rest) of
            [p0, p1] \<Rightarrow>
              (case parsePosition p0 of
                 Inl err \<Rightarrow> Inl (Errorf [Txt ''invalid block start in '', Txt (quote location), Txt '': '', Wrapped err])
               | Inr (startLine, startColumn) \<Rightarrow>
                   (case parsePosition p1 of
                      Inl err \<Rightarrow> Inl (Errorf [Txt ''invalid block end in '', Txt (quote location), Txt '': '', Wrapped err])
                    | Inr (endLine, endColumn) \<Rightarrow>
                        if endLine < startLine \<or> endLine = startLine \<and> endColumn < startColumn
                        then Inl (OtherError (''block range ends before it starts: '' @ quote location))
                        else Inr filePath))
          | _ \<Rightarrow> Inl (OtherError (''invalid block range '' @ quote location))))"

record profileState =
  ps_coverage :: "(string \<times> packageCoverage) list"
  ps_blocks :: "string list"
  ps_lineNumber :: nat
  ps_modeSeen :: bool

definition putCoverage :: "string \<Rightarrow> packageCoverage \<Rightarrow> (string \<times> packageCoverage) list \<Rightarrow> (string \<times> packageCoverage) list" where
  "putCoverage p c m = filter (\<lambda>kv. fst kv \<noteq> p) m @ [(p, c)]"

definition getCoverage :: "string \<Rightarrow> (string \<times> packageCoverage) list \<Rightarrow> packageCoverage" where
  "getCoverage p m = (case map_of m p of Some c \<Rightarrow> c | None \<Rightarrow> \<lparr>covered = 0, total = 0\<rparr>)"

definition lineError :: "nat \<Rightarrow> goerror \<Rightarrow> goerror" where
  "lineError n err = Errorf [Txt ''coverage profile line '', Txt (decimal (int n)), Txt '': '', Wrapped err]"

text \<open>The counts of one block line, once its location is accepted.\<close>

definition addBlock :: "string \<Rightarrow> string \<Rightarrow> string \<Rightarrow> (string \<times> packageCoverage) list \<Rightarrow>
    (string \<times> packageCoverage) list result" where
  "addBlock filePath stmts cnt m =
     (case ParseInt stmts of
        None \<Rightarrow> Inl (OtherError (''invalid statement count '' @ quote stmts))
      | Some statements \<Rightarrow>
          if statements < 0 then Inl (OtherError (''invalid statement count '' @ quote stmts))
          else (case ParseUint cnt of
            None \<Rightarrow> Inl (OtherError (''invalid execution count '' @ quote cnt))
          | Some execs \<Rightarrow>
              (let packagePath = path_Dir filePath;
                   current = getCoverage packagePath m
               in if statements > maxInt64 - total current then Inl (OtherError ''statement total overflow'')
                  else let current = current\<lparr>total := total current + statements\<rparr>
                       in if execs > 0
                          then (if statements > maxInt64 - covered current
                                then Inl (OtherError ''covered total overflow'')
                                else Inr (putCoverage packagePath
                                       (current\<lparr>covered := covered current + statements\<rparr>) m))
                          else Inr (putCoverage packagePath current m))))"

text \<open>One turn of the scanner loop.\<close>

definition parseLine :: "string \<Rightarrow> profileState \<Rightarrow> profileState result" where
  "parseLine text st =
     (let st = st\<lparr>ps_lineNumber := ps_lineNumber st + 1\<rparr>;
          line = trimSpace text
      in if line = '''' then Inr st
         else if \<not> ps_modeSeen st then
           (case parseMode line of
              Some err \<Rightarrow> Inl (lineError (ps_lineNumber st) err)
            | None \<Rightarrow> Inr (st\<lparr>ps_modeSeen := True\<rparr>))
         else (case splitFields line of
           [location, stmts, cnt] \<Rightarrow>
             (case parseBlockLocation location of
                Inl err \<Rightarrow> Inl (lineError (ps_lineNumber st) err)
              | Inr filePath \<Rightarrow>
                  if location \<in> set (ps_blocks st)
                  then Inl (lineError (ps_lineNumber st) (OtherError (''duplicate block '' @ quote location)))
                  else (case addBlock filePath stmts cnt (ps_coverage st) of
                    Inl err \<Rightarrow> Inl (lineError (ps_lineNumber st) err)
                  | Inr m \<Rightarrow> Inr (st\<lparr>ps_blocks := location # ps_blocks st, ps_coverage := m\<rparr>)))
         | _ \<Rightarrow> Inl (lineError (ps_lineNumber st) (OtherError ''want block, statements, and count''))))"

fun parseLines :: "string list \<Rightarrow> profileState \<Rightarrow> profileState result" where
  "parseLines [] st = Inr st"
| "parseLines (l # ls) st = (case parseLine l st of Inl err \<Rightarrow> Inl err | Inr st \<Rightarrow> parseLines ls st)"

definition startProfile :: profileState where
  "startProfile = \<lparr>ps_coverage = [], ps_blocks = [], ps_lineNumber = 0, ps_modeSeen = False\<rparr>"

definition parseProfile :: "string \<Rightarrow> (string \<times> packageCoverage) list result" where
  "parseProfile input =
     (case parseLines (fst (scanInput input)) startProfile of
        Inl err \<Rightarrow> Inl err
      | Inr st \<Rightarrow>
          (case snd (scanInput input) of
             Some err \<Rightarrow> Inl (Errorf [Txt ''read coverage profile: '', Wrapped err])
           | None \<Rightarrow>
               if \<not> ps_modeSeen st then Inl (OtherError ''coverage profile is missing a mode line'')
               else Inr (ps_coverage st)))"

section \<open>Evaluation\<close>

definition withinModule :: "string \<Rightarrow> string \<Rightarrow> bool" where
  "withinModule packagePath modPath \<longleftrightarrow> packagePath = modPath \<or> hasPrefix packagePath (modPath @ ''/'')"

definition excludedPackage :: "string \<Rightarrow> string \<Rightarrow> bool" where
  "excludedPackage packagePath modPath \<longleftrightarrow>
     packagePath = modPath @ ''/examples'' \<or> hasPrefix packagePath (modPath @ ''/examples'' @ ''/'')"

definition displayPackage :: "string \<Rightarrow> string \<Rightarrow> string" where
  "displayPackage packagePath modPath =
     (if packagePath = modPath then ''root''
      else if hasPrefix packagePath (modPath @ ''/'') then drop (length modPath + 1) packagePath
      else packagePath)"

text \<open>\<open>bits.Mul64\<close>: the high and the low half of the product.\<close>

definition Mul64 :: "uint64 \<Rightarrow> uint64 \<Rightarrow> uint64 \<times> uint64" where
  "Mul64 x y = (word_of_int (uint x * uint y div 2 ^ 64), x * y)"

definition meetsMinimum :: "packageCoverage \<Rightarrow> int \<Rightarrow> bool" where
  "meetsMinimum cov minimum \<longleftrightarrow>
     (let (coveredHigh, coveredLow) = Mul64 (word_of_int (covered cov)) 100;
          (minimumHigh, minimumLow) = Mul64 (word_of_int (total cov)) (word_of_int minimum)
      in coveredHigh > minimumHigh \<or> coveredHigh = minimumHigh \<and> coveredLow \<ge> minimumLow)"

definition outsideRange :: "int \<Rightarrow> bool" where
  "outsideRange minimum \<longleftrightarrow> minimum < 0 \<or> minimum > 100"

definition validatePolicy :: "coveragePolicy \<Rightarrow> string list" where
  "validatePolicy policy =
     (if cp_modulePath policy = '''' then [''coverage policy module path is empty''] else []) @
     (if outsideRange (cp_defaultMinimum policy)
      then [''default minimum '' @ decimal (cp_defaultMinimum policy) @ '' is outside 0..100''] else []) @
     (if outsideRange (cp_aggregateMinimum policy)
      then [''aggregate minimum '' @ decimal (cp_aggregateMinimum policy) @ '' is outside 0..100''] else []) @
     map (\<lambda>(p, minimum). ''package '' @ quote p @ '' minimum '' @ decimal minimum @ '' is outside 0..100'')
       (filter (\<lambda>(p, minimum). outsideRange minimum) (cp_packageMinimums policy))"

text \<open>The first loop: the packages discovered, without repetitions, and what is wrong with them.\<close>

fun discoverLoop :: "string \<Rightarrow> string list \<Rightarrow> string list \<Rightarrow> string list \<times> string list" where
  "discoverLoop modPath [] discovered = (discovered, [])"
| "discoverLoop modPath (p # ps) discovered =
     (if p \<in> set discovered
      then let (d, probs) = discoverLoop modPath ps discovered
           in (d, (''duplicate discovered package '' @ quote p) # probs)
      else let (d, probs) = discoverLoop modPath ps (discovered @ [p])
           in (d, (if withinModule p modPath then []
                   else [''discovered package '' @ quote p @ '' is outside module '' @ quote modPath]) @ probs))"

definition packageMinimum :: "coveragePolicy \<Rightarrow> string \<Rightarrow> int" where
  "packageMinimum policy p =
     (case map_of (cp_packageMinimums policy) p of Some minimum \<Rightarrow> minimum | None \<Rightarrow> cp_defaultMinimum policy)"

definition packageResult :: "coveragePolicy \<Rightarrow> string \<Rightarrow> packageCoverage \<Rightarrow> coverageResult" where
  "packageResult policy p cov =
     \<lparr>cr_name = displayPackage p (cp_modulePath policy), cr_covered = covered cov, cr_total = total cov,
      cr_minimum = packageMinimum policy p,
      cr_status = (if total cov = 0 then ''N/A''
                   else if \<not> meetsMinimum cov (packageMinimum policy p) then ''FAIL'' else ''PASS'')\<rparr>"

text \<open>The loop over the discovered packages in sorted order, with the aggregate so far.\<close>

fun packagesLoop ::
  "coveragePolicy \<Rightarrow> (string \<times> packageCoverage) list \<Rightarrow> string list \<Rightarrow> packageCoverage \<Rightarrow>
   evaluation \<times> packageCoverage" where
  "packagesLoop policy coverage [] aggregate = (\<lparr>results = [], problems = []\<rparr>, aggregate)"
| "packagesLoop policy coverage (p # ps) aggregate =
     (if excludedPackage p (cp_modulePath policy) then packagesLoop policy coverage ps aggregate
      else case map_of coverage p of
        None \<Rightarrow>
          (let (ev, agg) = packagesLoop policy coverage ps aggregate
           in (ev\<lparr>problems := (''discovered package '' @ quote p @ '' is missing from the coverage profile'') # problems ev\<rparr>, agg))
      | Some cov \<Rightarrow>
          if covered cov < 0 \<or> total cov < 0 \<or> covered cov > total cov
          then (let (ev, agg) = packagesLoop policy coverage ps aggregate
                in (ev\<lparr>problems := (''package '' @ quote p @ '' has invalid coverage counts '' @
                        decimal (covered cov) @ ''/'' @ decimal (total cov)) # problems ev\<rparr>, agg))
          else if covered cov > maxInt64 - covered aggregate \<or> total cov > maxInt64 - total aggregate
          then (let (ev, agg) = packagesLoop policy coverage ps aggregate
                in (ev\<lparr>results := packageResult policy p cov # results ev,
                       problems := ''library aggregate statement count overflow'' # problems ev\<rparr>, agg))
          else (let (ev, agg) = packagesLoop policy coverage ps
                      \<lparr>covered = covered aggregate + covered cov, total = total aggregate + total cov\<rparr>
                in (ev\<lparr>results := packageResult policy p cov # results ev\<rparr>, agg)))"

definition evaluateCoverage ::
  "string list \<Rightarrow> (string \<times> packageCoverage) list \<Rightarrow> coveragePolicy \<Rightarrow> evaluation" where
  "evaluateCoverage packages coverage policy =
     (let (discovered, discoverProblems) = discoverLoop (cp_modulePath policy) packages [];
          unknown = (\<lambda>what ps. map (\<lambda>p. what @ quote p @ '' was not discovered'')
                        (filter (\<lambda>p. p \<notin> set discovered) ps));
          (ev, aggregate) = packagesLoop policy coverage (sort discovered) \<lparr>covered = 0, total = 0\<rparr>;
          aggregateResult =
            \<lparr>cr_name = ''library aggregate'', cr_covered = covered aggregate, cr_total = total aggregate,
             cr_minimum = cp_aggregateMinimum policy,
             cr_status = (if total aggregate = 0 \<or> \<not> meetsMinimum aggregate (cp_aggregateMinimum policy)
                          then ''FAIL'' else ''PASS'')\<rparr>
      in \<lparr>results = results ev @ [aggregateResult],
          problems = sort (validatePolicy policy @ discoverProblems @
            unknown ''configured package '' (map fst (cp_packageMinimums policy)) @
            unknown ''profile package '' (map fst coverage) @ problems ev)\<rparr>)"

definition evaluation_failed :: "evaluation \<Rightarrow> bool" where
  "evaluation_failed ev \<longleftrightarrow> problems ev \<noteq> [] \<or> list_ex (\<lambda>r. cr_status r = ''FAIL'') (results ev)"

text \<open>
  \<open>writeEvaluation\<close> as its lines: one per result, one per problem, and the policy when there is
  no problem. \<open>pct\<close> prints the percentage, which the program computes in floating point for
  display only.
\<close>

definition padRight :: "nat \<Rightarrow> string \<Rightarrow> string" where
  "padRight n s = s @ replicate (n - length s) CHR '' ''"

definition resultLine :: "(int \<Rightarrow> int \<Rightarrow> string) \<Rightarrow> coverageResult \<Rightarrow> string" where
  "resultLine pct r =
     cr_status r @ '' '' @ padRight 20 (cr_name r) @ '' '' @ decimal (cr_covered r) @ ''/'' @
     decimal (cr_total r) @ '' statements'' @
     (if cr_total r = 0 then '''' else '' = '' @ pct (cr_covered r) (cr_total r) @ ''%'') @
     '' (minimum '' @ decimal (cr_minimum r) @ ''%)''"

definition writeEvaluation :: "(int \<Rightarrow> int \<Rightarrow> string) \<Rightarrow> evaluation \<Rightarrow> coveragePolicy \<Rightarrow> string list" where
  "writeEvaluation pct ev policy =
     map (resultLine pct) (results ev) @ map (\<lambda>p. ''ERROR '' @ p) (problems ev) @
     (if problems ev = []
      then [''Policy: future packages >= '' @ decimal (cp_defaultMinimum policy) @
            ''%; examples excluded; aggregate >= '' @ decimal (cp_aggregateMinimum policy) @ ''%'']
      else [])"

text \<open>A gate that fails names a reason, and a line that names one is only printed by a gate that fails.\<close>

lemma report_names_failure:
  assumes "\<forall>r \<in> set (results ev). cr_status r \<in> {''PASS'', ''N/A'', ''FAIL''}"
  shows "evaluation_failed ev \<longleftrightarrow>
    (\<exists>l \<in> set (writeEvaluation pct ev policy). hasPrefix l ''FAIL '' \<or> hasPrefix l ''ERROR '')"
proof -
  have res: "hasPrefix (resultLine pct r) ''FAIL '' \<longleftrightarrow> cr_status r = ''FAIL''"
    "\<not> hasPrefix (resultLine pct r) ''ERROR ''" if "r \<in> set (results ev)" for r
    using bspec [OF assms that] by (auto simp: resultLine_def hasPrefix_def)
  have err: "hasPrefix (''ERROR '' @ p) ''ERROR ''" for p by (simp add: hasPrefix_def)
  show ?thesis
  proof (cases "problems ev")
    case Nil
    then show ?thesis using res
      by (auto simp: evaluation_failed_def writeEvaluation_def list_ex_iff hasPrefix_def)
  next
    case (Cons p ps)
    then show ?thesis using err by (auto simp: evaluation_failed_def writeEvaluation_def)
  qed
qed

text \<open>\<open>filepath.Join\<close> of two elements, and the path \<open>run\<close> opens.\<close>

definition filepath_Join :: "string \<Rightarrow> string \<Rightarrow> string" where
  "filepath_Join a b =
     (if a \<noteq> '''' then path_Clean (a @ ''/'' @ b) else if b \<noteq> '''' then path_Clean b else '''')"

definition profilePathOf :: "string \<Rightarrow> string \<Rightarrow> string" where
  "profilePathOf rootDir profile = (if hasPrefix profile ''/'' then profile else filepath_Join rootDir profile)"

text \<open>
  The environment of \<open>run\<close>: what \<open>go list\<close> answers in a directory, what opening and reading a
  path gives, and the error of closing the file.
\<close>

record runEnv =
  rv_goList :: "string \<Rightarrow> (goerror \<times> string) + (string list \<times> goerror option)"
  rv_open :: "string \<Rightarrow> goerror + string"
  rv_closeErr :: "goerror option"

definition coverage_run :: "runEnv \<Rightarrow> string \<Rightarrow> string \<Rightarrow> goerror option" where
  "coverage_run env rootDir profile =
     (case discoverPackages (rv_goList env rootDir) of
        Inl err \<Rightarrow> Some err
      | Inr packages \<Rightarrow>
          (let profilePath = profilePathOf rootDir profile
           in case rv_open env profilePath of
             Inl err \<Rightarrow>
               Some (Errorf [Txt ''open coverage profile '', Txt (quote profilePath), Txt '': '', Wrapped err])
           | Inr input \<Rightarrow>
               (case parseProfile input of
                  Inl parseErr \<Rightarrow> Some parseErr
                | Inr coverage \<Rightarrow>
                    (case rv_closeErr env of
                       Some closeErr \<Rightarrow>
                         Some (Errorf [Txt ''close coverage profile '', Txt (quote profilePath), Txt '': '', Wrapped closeErr])
                     | None \<Rightarrow>
                         if evaluation_failed (evaluateCoverage packages coverage repositoryPolicy)
                         then Some (OtherError ''coverage policy failed'') else None))))"

text \<open>\<open>main\<close> after \<open>flag.Parse\<close>: the exit status and what is written to the error output.\<close>

definition coverage_main :: "runEnv \<Rightarrow> string \<Rightarrow> string \<Rightarrow> string list \<Rightarrow> nat \<times> string" where
  "coverage_main env rootDir profile args =
     (if args \<noteq> [] then (2, ''coveragecheck: positional arguments are not supported'' @ [CHR 0x0A])
      else case coverage_run env rootDir profile of
        Some err \<Rightarrow> (1, ''coveragecheck: '' @ errorText err @ [CHR 0x0A])
      | None \<Rightarrow> (0, ''''))"

section \<open>The comparison is exact\<close>

lemma uint_small: "0 \<le> x \<Longrightarrow> x < 2 ^ 64 \<Longrightarrow> uint (word_of_int x :: uint64) = x"
  by (simp add: uint_word_of_int)

lemma Mul64_halves:
  assumes "Mul64 x y = (hi, lo)"
  shows "uint hi = uint x * uint y div 2 ^ 64" and "uint lo = uint x * uint y mod 2 ^ 64"
proof -
  have "uint x * uint y < 2 ^ 64 * 2 ^ 64"
    using uint_lt2p [of x] uint_lt2p [of y] by (intro mult_strict_mono) simp_all
  then have "uint x * uint y div 2 ^ 64 < 2 ^ 64" by (simp add: div_less_iff_less_mult)
  then have "uint (word_of_int (uint x * uint y div 2 ^ 64) :: uint64) = uint x * uint y div 2 ^ 64"
    by (intro uint_small) (simp_all add: pos_imp_zdiv_nonneg_iff)
  then show "uint hi = uint x * uint y div 2 ^ 64" using assms by (auto simp: Mul64_def)
  show "uint lo = uint x * uint y mod 2 ^ 64"
    using assms by (auto simp: Mul64_def uint_word_arith_bintrs take_bit_eq_mod)
qed

lemma halves_order:
  fixes a b :: int
  assumes "0 < m"
  shows "b div m < a div m \<or> a div m = b div m \<and> b mod m \<le> a mod m \<longleftrightarrow> b \<le> a"
proof -
  have eq: "a = a div m * m + a mod m" "b = b div m * m + b mod m" by simp_all
  have mods: "0 \<le> a mod m" "b mod m < m" using assms by simp_all
  consider "b div m < a div m" | "b div m = a div m" | "a div m < b div m" by linarith
  then show ?thesis
  proof cases
    case 1
    then have "(b div m + 1) * m \<le> a div m * m" using assms by (intro mult_right_mono) simp_all
    then have "b div m * m + m \<le> a div m * m" by (simp add: distrib_right)
    then have "b \<le> a" using eq mods by linarith
    with 1 show ?thesis by simp
  next
    case 2
    then have "b div m * m = a div m * m" by simp
    then show ?thesis using eq 2 by linarith
  next
    case 3
    then have "\<not> b \<le> a" using zdiv_mono1 [OF _ assms, of b a] by linarith
    with 3 show ?thesis by simp
  qed
qed

lemma meetsMinimum_iff:
  assumes "0 \<le> covered cov" "covered cov \<le> maxInt64" "0 \<le> total cov" "total cov \<le> maxInt64"
    and "0 \<le> minimum" "minimum \<le> maxInt64"
  shows "meetsMinimum cov minimum \<longleftrightarrow> total cov * minimum \<le> covered cov * 100"
proof -
  obtain h1 l1 where 1: "Mul64 (word_of_int (covered cov)) 100 = (h1, l1)" by fastforce
  obtain h2 l2 where 2: "Mul64 (word_of_int (total cov)) (word_of_int minimum) = (h2, l2)" by fastforce
  have "uint (word_of_int (covered cov) :: uint64) = covered cov" "uint (word_of_int (total cov) :: uint64) = total cov"
    "uint (word_of_int minimum :: uint64) = minimum" "uint (100 :: uint64) = 100"
    using assms by (simp_all add: uint_small maxInt64_def)
  then have "uint h1 = covered cov * 100 div 2 ^ 64" "uint l1 = covered cov * 100 mod 2 ^ 64"
    "uint h2 = total cov * minimum div 2 ^ 64" "uint l2 = total cov * minimum mod 2 ^ 64"
    using Mul64_halves [OF 1] Mul64_halves [OF 2] by simp_all
  then show ?thesis
    using halves_order [of "2 ^ 64" "total cov * minimum" "covered cov * 100"]
    by (simp add: meetsMinimum_def 1 2 word_less_def word_le_def word_uint_eq_iff)
qed

section \<open>When the gate passes\<close>

definition libraryPackages :: "coveragePolicy \<Rightarrow> string list \<Rightarrow> string list" where
  "libraryPackages policy ps = filter (\<lambda>p. \<not> excludedPackage p (cp_modulePath policy)) ps"

definition covSum :: "(packageCoverage \<Rightarrow> int) \<Rightarrow> (string \<times> packageCoverage) list \<Rightarrow> string list \<Rightarrow> int" where
  "covSum f coverage ps = (\<Sum>p\<leftarrow>ps. f (getCoverage p coverage))"

definition validCounts :: "packageCoverage \<Rightarrow> bool" where
  "validCounts c \<longleftrightarrow> 0 \<le> covered c \<and> covered c \<le> total c \<and> total c \<le> maxInt64"

lemma discoverLoop_spec:
  "discoverLoop modPath ps d = (d', probs) \<Longrightarrow>
   set d' = set d \<union> set ps \<and> (distinct d \<longrightarrow> distinct d') \<and>
   (probs = [] \<longleftrightarrow> distinct ps \<and> set ps \<inter> set d = {} \<and> (\<forall>p \<in> set ps. withinModule p modPath)) \<and>
   (probs = [] \<longrightarrow> d' = d @ ps)"
proof (induction modPath ps d arbitrary: d' probs rule: discoverLoop.induct)
  case (2 modPath p ps d)
  show ?case
  proof (cases "p \<in> set d")
    case True
    with "2.prems" obtain q where "discoverLoop modPath ps d = (d', q)" "probs \<noteq> []"
      by (auto split: prod.splits)
    with "2.IH"(1) [OF True] True show ?thesis by auto
  next
    case False
    with "2.prems" obtain q where q: "discoverLoop modPath ps (d @ [p]) = (d', q)"
        "probs = [] \<longleftrightarrow> q = [] \<and> withinModule p modPath"
      by (auto split: prod.splits if_splits)
    from "2.IH"(2) [OF False q(1)] q(2) False show ?thesis by auto
  qed
qed auto

text \<open>One package of the loop: missing or invalid, too much for the aggregate, or counted.\<close>

lemma packagesLoop_bad:
  assumes "packagesLoop policy coverage (p # ps) agg = (ev, agg')" and "\<not> excludedPackage p (cp_modulePath policy)"
    and "\<forall>c \<in> snd ` set coverage. total c \<le> maxInt64" and "\<nexists>c. map_of coverage p = Some c \<and> validCounts c"
  shows "problems ev \<noteq> []"
proof (cases "map_of coverage p")
  case None
  then show ?thesis using assms(1,2) by (auto split: prod.splits)
next
  case (Some c)
  then have "total c \<le> maxInt64" using assms(3) by (force dest: map_of_SomeD)
  with assms(4) Some have "covered c < 0 \<or> total c < 0 \<or> covered c > total c"
    by (auto simp: validCounts_def)
  with Some show ?thesis using assms(1,2) by (auto split: prod.splits if_splits)
qed

lemma packagesLoop_overflow:
  assumes "packagesLoop policy coverage (p # ps) agg = (ev, agg')" and "\<not> excludedPackage p (cp_modulePath policy)"
    and "map_of coverage p = Some c" and "validCounts c" and "total c > maxInt64 - total agg"
  shows "problems ev \<noteq> []"
  using assms by (auto simp: validCounts_def split: if_splits prod.splits)

lemma packagesLoop_counted:
  assumes "packagesLoop policy coverage (p # ps) agg = (ev, agg')" and "\<not> excludedPackage p (cp_modulePath policy)"
    and "map_of coverage p = Some c" and "validCounts c" and "validCounts agg" and "\<not> total c > maxInt64 - total agg"
  obtains ev' where
    "packagesLoop policy coverage ps \<lparr>covered = covered agg + covered c, total = total agg + total c\<rparr> = (ev', agg')"
    and "ev = ev'\<lparr>results := packageResult policy p c # results ev'\<rparr>"
    and "validCounts \<lparr>covered = covered agg + covered c, total = total agg + total c\<rparr>"
proof -
  have "\<not> (covered c > maxInt64 - covered agg \<or> total c > maxInt64 - total agg)"
    "validCounts \<lparr>covered = covered agg + covered c, total = total agg + total c\<rparr>"
    using assms(4,5,6) by (auto simp: validCounts_def)
  then show thesis
    using assms(1,2,3,4) that by (auto simp: validCounts_def split: if_splits prod.splits)
qed

lemma covSum_Cons [simp]: "covSum f coverage (p # ps) = f (getCoverage p coverage) + covSum f coverage ps"
  by (simp add: covSum_def)

lemma covSum_nonneg:
  "\<forall>p \<in> set ps. \<exists>c. map_of coverage p = Some c \<and> validCounts c \<Longrightarrow> 0 \<le> covSum total coverage ps"
  unfolding covSum_def by (intro sum_list_nonneg) (force simp: getCoverage_def validCounts_def)

lemma packagesLoop_spec:
  assumes "packagesLoop policy coverage ps agg = (ev, agg')"
    and "\<forall>c \<in> snd ` set coverage. total c \<le> maxInt64" and "validCounts agg"
  defines "lib \<equiv> libraryPackages policy ps"
  shows "(problems ev = [] \<longleftrightarrow>
            (\<forall>p \<in> set lib. \<exists>c. map_of coverage p = Some c \<and> validCounts c) \<and>
            total agg + covSum total coverage lib \<le> maxInt64) \<and>
         (problems ev = [] \<longrightarrow>
            covered agg' = covered agg + covSum covered coverage lib \<and>
            total agg' = total agg + covSum total coverage lib \<and> validCounts agg' \<and>
            results ev = map (\<lambda>p. packageResult policy p (getCoverage p coverage)) lib)"
  unfolding lib_def using assms(1,3)
proof (induction ps arbitrary: agg ev)
  case Nil
  then show ?case by (auto simp: libraryPackages_def covSum_def validCounts_def)
next
  case (Cons p ps)
  let ?lib = "libraryPackages policy"
  note prems = Cons.prems
  consider (excluded) "excludedPackage p (cp_modulePath policy)"
    | (bad) "\<not> excludedPackage p (cp_modulePath policy)" "\<nexists>c. map_of coverage p = Some c \<and> validCounts c"
    | (over) c where "\<not> excludedPackage p (cp_modulePath policy)" "map_of coverage p = Some c" "validCounts c"
        "total c > maxInt64 - total agg"
    | (fits) c where "\<not> excludedPackage p (cp_modulePath policy)" "map_of coverage p = Some c" "validCounts c"
        "\<not> total c > maxInt64 - total agg" by blast
  then show ?case
  proof cases
    case excluded
    with Cons show ?thesis by (simp add: libraryPackages_def)
  next
    case bad
    with packagesLoop_bad [OF prems(1) bad(1) assms(2) bad(2)] show ?thesis by (auto simp: libraryPackages_def)
  next
    case over
    have "getCoverage p coverage = c" using over by (simp add: getCoverage_def)
    then have "\<not> (total agg + covSum total coverage (p # ?lib ps) \<le> maxInt64)"
      if "\<forall>p \<in> set (?lib ps). \<exists>c. map_of coverage p = Some c \<and> validCounts c"
      using covSum_nonneg [OF that] over(4) by simp
    with packagesLoop_overflow [OF prems(1) over] over(1) show ?thesis by (auto simp: libraryPackages_def)
  next
    case fits
    from packagesLoop_counted [OF prems(1) fits(1,2,3) prems(2) fits(4)] obtain ev' where
      ev': "packagesLoop policy coverage ps \<lparr>covered = covered agg + covered c, total = total agg + total c\<rparr> = (ev', agg')"
        "ev = ev'\<lparr>results := packageResult policy p c # results ev'\<rparr>"
      and valid: "validCounts \<lparr>covered = covered agg + covered c, total = total agg + total c\<rparr>" by blast
    have "?lib (p # ps) = p # ?lib ps" "getCoverage p coverage = c"
      using fits by (simp_all add: libraryPackages_def getCoverage_def)
    with Cons.IH [OF ev'(1) valid] ev'(2) fits(2,3) show ?thesis by (auto simp: algebra_simps)
  qed
qed

text \<open>The counts of a profile: no package covers more than it has, and nothing overflows.\<close>

definition coverageInv :: "(string \<times> packageCoverage) list \<Rightarrow> bool" where
  "coverageInv m \<longleftrightarrow> distinct (map fst m) \<and> (\<forall>c \<in> snd ` set m. validCounts c)"

lemma getCoverage_valid: "coverageInv m \<Longrightarrow> validCounts (getCoverage p m)"
  by (auto simp: coverageInv_def getCoverage_def validCounts_def maxInt64_def dest: map_of_SomeD split: option.splits)

lemma putCoverage_inv: "coverageInv m \<Longrightarrow> validCounts c \<Longrightarrow> coverageInv (putCoverage p c m)"
proof -
  assume "coverageInv m" "validCounts c"
  moreover have "p \<notin> fst ` set (filter (\<lambda>kv. fst kv \<noteq> p) m)" by auto
  ultimately show ?thesis
    by (auto simp: coverageInv_def putCoverage_def distinct_map_filter)
qed

lemma addBlock_inv: "coverageInv m \<Longrightarrow> addBlock f stmts cnt m = Inr m' \<Longrightarrow> coverageInv m'"
  using getCoverage_valid [of m "path_Dir f"]
  by (auto simp: addBlock_def Let_def validCounts_def intro!: putCoverage_inv split: option.splits if_splits)

lemma parseLine_inv: "coverageInv (ps_coverage st) \<Longrightarrow> parseLine l st = Inr st' \<Longrightarrow> coverageInv (ps_coverage st')"
  by (auto simp: parseLine_def Let_def split: if_splits option.splits list.splits sum.splits intro: addBlock_inv)

lemma parseLines_inv:
  "coverageInv (ps_coverage st) \<Longrightarrow> parseLines ls st = Inr st' \<Longrightarrow> coverageInv (ps_coverage st')"
  by (induction ls arbitrary: st) (auto split: sum.splits intro: parseLine_inv)

lemma parseProfile_inv: "parseProfile input = Inr m \<Longrightarrow> coverageInv m"
  using parseLines_inv [of startProfile "fst (scanInput input)"]
  by (auto simp: parseProfile_def startProfile_def coverageInv_def split: sum.splits option.splits if_splits)

text \<open>The policy, stated over exact rational comparisons and unbounded sums.\<close>

definition policyMet :: "string list \<Rightarrow> (string \<times> packageCoverage) list \<Rightarrow> coveragePolicy \<Rightarrow> bool" where
  "policyMet packages coverage policy \<longleftrightarrow>
     distinct packages \<and> (\<forall>p \<in> set packages. withinModule p (cp_modulePath policy)) \<and>
     fst ` set (cp_packageMinimums policy) \<subseteq> set packages \<and> fst ` set coverage \<subseteq> set packages \<and>
     (let lib = libraryPackages policy packages
      in (\<forall>p \<in> set lib. \<exists>c. map_of coverage p = Some c \<and> total c * packageMinimum policy p \<le> covered c * 100) \<and>
         covSum total coverage lib \<le> maxInt64 \<and> 0 < covSum total coverage lib \<and>
         covSum total coverage lib * cp_aggregateMinimum policy \<le> covSum covered coverage lib * 100)"

definition validPolicy :: "coveragePolicy \<Rightarrow> bool" where
  "validPolicy policy \<longleftrightarrow>
     cp_modulePath policy \<noteq> '''' \<and> \<not> outsideRange (cp_defaultMinimum policy) \<and>
     \<not> outsideRange (cp_aggregateMinimum policy) \<and> (\<forall>m \<in> snd ` set (cp_packageMinimums policy). \<not> outsideRange m)"

lemma validatePolicy_Nil_iff: "validatePolicy policy = [] \<longleftrightarrow> validPolicy policy"
  by (auto simp: validatePolicy_def validPolicy_def filter_empty_conv)

lemma packageMinimum_range: "validPolicy policy \<Longrightarrow> 0 \<le> packageMinimum policy p \<and> packageMinimum policy p \<le> 100"
  by (auto simp: validPolicy_def packageMinimum_def outsideRange_def dest!: map_of_SomeD split: option.split)

lemma packageResult_FAIL_iff:
  assumes "validPolicy policy" and "validCounts c"
  shows "cr_status (packageResult policy p c) = ''FAIL'' \<longleftrightarrow> \<not> total c * packageMinimum policy p \<le> covered c * 100"
proof -
  note range = packageMinimum_range [OF assms(1), of p]
  have "meetsMinimum c (packageMinimum policy p) \<longleftrightarrow> total c * packageMinimum policy p \<le> covered c * 100"
    using assms(2) range by (intro meetsMinimum_iff) (auto simp: validCounts_def maxInt64_def)
  moreover have "total c = 0 \<Longrightarrow> covered c = 0" using assms(2) by (auto simp: validCounts_def)
  ultimately show ?thesis by (auto simp: packageResult_def)
qed

lemma covSum_sort: "covSum f coverage (libraryPackages policy (sort ps)) = covSum f coverage (libraryPackages policy ps)"
proof -
  have "mset (libraryPackages policy (sort ps)) = mset (libraryPackages policy ps)"
    by (simp add: libraryPackages_def)
  then have "mset (map (\<lambda>p. f (getCoverage p coverage)) (libraryPackages policy (sort ps))) =
      mset (map (\<lambda>p. f (getCoverage p coverage)) (libraryPackages policy ps))" by simp
  then show ?thesis unfolding covSum_def by (metis sum_mset_sum_list)
qed


lemma sort_Nil_iff [simp]: "sort xs = [] \<longleftrightarrow> xs = []"
  by (metis length_0_conv length_sort)

lemma libraryPackages_sort [simp]: "set (libraryPackages policy (sort ps)) = set (libraryPackages policy ps)"
  by (simp add: libraryPackages_def)

lemma evaluateCoverage_problems:
  assumes "validPolicy policy" and "coverageInv coverage"
    and "evaluateCoverage packages coverage policy = ev"
  shows "problems ev = [] \<longleftrightarrow>
     distinct packages \<and> (\<forall>p \<in> set packages. withinModule p (cp_modulePath policy)) \<and>
     fst ` set (cp_packageMinimums policy) \<subseteq> set packages \<and> fst ` set coverage \<subseteq> set packages \<and>
     (\<forall>p \<in> set (libraryPackages policy packages). p \<in> dom (map_of coverage)) \<and>
     covSum total coverage (libraryPackages policy packages) \<le> maxInt64"
proof -
  obtain d probs where d: "discoverLoop (cp_modulePath policy) packages [] = (d, probs)" by fastforce
  obtain lev agg where l: "packagesLoop policy coverage (sort d) \<lparr>covered = 0, total = 0\<rparr> = (lev, agg)" by fastforce
  note D = discoverLoop_spec [OF d, simplified]
  have valid: "map_of coverage p = Some c \<Longrightarrow> validCounts c" for p c
    using assms(2) by (force simp: coverageInv_def dest: map_of_SomeD)
  have bound: "\<forall>c \<in> snd ` set coverage. total c \<le> maxInt64"
    using assms(2) by (auto simp: coverageInv_def validCounts_def)
  have zero: "validCounts \<lparr>covered = 0, total = 0\<rparr>" by (simp add: validCounts_def maxInt64_def)
  have L: "problems lev = [] \<longleftrightarrow> (\<forall>p \<in> set (libraryPackages policy d). p \<in> dom (map_of coverage)) \<and>
      covSum total coverage (libraryPackages policy d) \<le> maxInt64"
    using packagesLoop_spec [OF l bound zero] valid by (auto simp: covSum_sort dom_def)
  have "problems ev = [] \<longleftrightarrow> probs = [] \<and> fst ` set (cp_packageMinimums policy) \<subseteq> set d \<and>
      fst ` set coverage \<subseteq> set d \<and> problems lev = []"
    using assms(1) validatePolicy_Nil_iff [of policy]
    unfolding assms(3) [symmetric] image_subset_iff
    by (simp add: evaluateCoverage_def d l Let_def filter_empty_conv)
  with D L show ?thesis by auto
qed

lemma evaluateCoverage_results:
  assumes "coverageInv coverage"
    and "evaluateCoverage packages coverage policy = ev" and "problems ev = []" and "validPolicy policy"
  defines "lib \<equiv> libraryPackages policy packages"
  obtains agg where "covered agg = covSum covered coverage lib" and "total agg = covSum total coverage lib"
    and "validCounts agg"
    and "evaluation_failed ev \<longleftrightarrow>
      (\<exists>p \<in> set lib. cr_status (packageResult policy p (getCoverage p coverage)) = ''FAIL'') \<or>
      total agg = 0 \<or> \<not> meetsMinimum agg (cp_aggregateMinimum policy)"
proof -
  obtain d probs where d: "discoverLoop (cp_modulePath policy) packages [] = (d, probs)" by fastforce
  obtain lev agg where l: "packagesLoop policy coverage (sort d) \<lparr>covered = 0, total = 0\<rparr> = (lev, agg)" by fastforce
  have probs: "probs = []" "problems lev = []"
    using assms(2,3) by (auto simp: evaluateCoverage_def d l Let_def)
  then have "d = packages" using discoverLoop_spec [OF d] by simp
  note l = l [unfolded this]
  have bound: "\<forall>c \<in> snd ` set coverage. total c \<le> maxInt64"
    using assms(1) by (auto simp: coverageInv_def validCounts_def)
  have zero: "validCounts \<lparr>covered = 0, total = 0\<rparr>" by (simp add: validCounts_def maxInt64_def)
  note L = packagesLoop_spec [OF l bound zero, THEN conjunct2, rule_format, OF probs(2)]
  have "results ev = results lev @ [\<lparr>cr_name = ''library aggregate'', cr_covered = covered agg, cr_total = total agg,
      cr_minimum = cp_aggregateMinimum policy,
      cr_status = (if total agg = 0 \<or> \<not> meetsMinimum agg (cp_aggregateMinimum policy) then ''FAIL'' else ''PASS'')\<rparr>]"
    using assms(2) l \<open>d = packages\<close> by (auto simp: evaluateCoverage_def d Let_def)
  then have "evaluation_failed ev \<longleftrightarrow>
      (\<exists>p \<in> set lib. cr_status (packageResult policy p (getCoverage p coverage)) = ''FAIL'') \<or>
      total agg = 0 \<or> \<not> meetsMinimum agg (cp_aggregateMinimum policy)"
    using L assms(3) by (auto simp: evaluation_failed_def list_ex_iff lib_def)
  with L that [of agg] show thesis by (simp add: covSum_sort lib_def)
qed

lemma evaluateCoverage_passes_iff:
  assumes "validPolicy policy" and "coverageInv coverage"
  shows "\<not> evaluation_failed (evaluateCoverage packages coverage policy) \<longleftrightarrow> policyMet packages coverage policy"
proof (cases "problems (evaluateCoverage packages coverage policy) = []")
  case False
  then have "\<not> policyMet packages coverage policy"
    using evaluateCoverage_problems [OF assms refl, of packages] by (auto simp: policyMet_def Let_def)
  with False show ?thesis by (simp add: evaluation_failed_def)
next
  case True
  let ?lib = "libraryPackages policy packages"
  note P = evaluateCoverage_problems [OF assms refl, of packages, THEN iffD1, OF True]
  from evaluateCoverage_results [OF assms(2) refl True assms(1)] obtain agg where
    agg: "covered agg = covSum covered coverage ?lib" "total agg = covSum total coverage ?lib" "validCounts agg"
    and failed: "evaluation_failed (evaluateCoverage packages coverage policy) \<longleftrightarrow>
      (\<exists>p \<in> set ?lib. cr_status (packageResult policy p (getCoverage p coverage)) = ''FAIL'') \<or>
      total agg = 0 \<or> \<not> meetsMinimum agg (cp_aggregateMinimum policy)" by blast
  have "0 \<le> cp_aggregateMinimum policy" "cp_aggregateMinimum policy \<le> maxInt64"
    using assms(1) by (auto simp: validPolicy_def outsideRange_def maxInt64_def)
  then have meets: "meetsMinimum agg (cp_aggregateMinimum policy) \<longleftrightarrow>
      total agg * cp_aggregateMinimum policy \<le> covered agg * 100"
    using agg(3) by (intro meetsMinimum_iff) (auto simp: validCounts_def)
  have packages: "cr_status (packageResult policy p (getCoverage p coverage)) \<noteq> ''FAIL'' \<longleftrightarrow>
      (\<exists>c. map_of coverage p = Some c \<and> total c * packageMinimum policy p \<le> covered c * 100)"
    if "p \<in> set ?lib" for p
    using P that packageResult_FAIL_iff [OF assms(1) getCoverage_valid [OF assms(2), of p], of p]
    by (auto simp: getCoverage_def)
  have "0 \<le> total agg" using agg(3) by (simp add: validCounts_def)
  then have "\<not> evaluation_failed (evaluateCoverage packages coverage policy) \<longleftrightarrow>
      (\<forall>p \<in> set ?lib. \<exists>c. map_of coverage p = Some c \<and> total c * packageMinimum policy p \<le> covered c * 100) \<and>
      0 < covSum total coverage ?lib \<and>
      covSum total coverage ?lib * cp_aggregateMinimum policy \<le> covSum covered coverage ?lib * 100"
    using failed meets packages agg(1,2) by auto
  with P show ?thesis unfolding policyMet_def Let_def by blast
qed

lemma repositoryPolicy_valid: "validPolicy repositoryPolicy"
  by (simp add: validPolicy_def repositoryPolicy_def outsideRange_def modulePath_def)

text \<open>
  The counts of an accepted profile are the sums over its block lines: \<open>blockLine\<close> reads the
  package, the statements and whether they were executed.
\<close>

definition blockLine :: "string \<Rightarrow> (string \<times> int \<times> bool) option" where
  "blockLine l =
     (case splitFields (trimSpace l) of
        [location, stmts, cnt] \<Rightarrow>
          (case (parseBlockLocation location, ParseInt stmts, ParseUint cnt) of
             (Inr filePath, Some statements, Some execs) \<Rightarrow> Some (path_Dir filePath, statements, execs > 0)
           | _ \<Rightarrow> None)
      | _ \<Rightarrow> None)"

definition blockTotal :: "string \<Rightarrow> string \<Rightarrow> int" where
  "blockTotal p l = (case blockLine l of Some (q, n, hit) \<Rightarrow> if q = p then n else 0 | None \<Rightarrow> 0)"

definition blockCovered :: "string \<Rightarrow> string \<Rightarrow> int" where
  "blockCovered p l = (case blockLine l of Some (q, n, hit) \<Rightarrow> if q = p \<and> hit then n else 0 | None \<Rightarrow> 0)"

lemmas block_defs = blockTotal_def blockCovered_def blockLine_def

lemma getCoverage_put [simp]: "getCoverage p (putCoverage q c m) = (if p = q then c else getCoverage p m)"
proof -
  have "map_of (filter (\<lambda>kv. fst kv \<noteq> q) m) p = (if p = q then None else map_of m p)"
    by (induction m) auto
  then show ?thesis by (auto simp: getCoverage_def putCoverage_def map_add_def split: option.split)
qed

lemma addBlock_counts:
  assumes "addBlock f stmts cnt m = Inr m'"
  obtains n execs where "ParseInt stmts = Some n" and "ParseUint cnt = Some execs"
    and "total (getCoverage p m') = total (getCoverage p m) + (if path_Dir f = p then n else 0)"
    and "covered (getCoverage p m') = covered (getCoverage p m) + (if path_Dir f = p \<and> execs > 0 then n else 0)"
proof -
  from assms obtain n execs where n: "ParseInt stmts = Some n" "ParseUint cnt = Some execs"
    by (auto simp: addBlock_def split: option.splits if_splits)
  with assms have
    "total (getCoverage p m') = total (getCoverage p m) + (if path_Dir f = p then n else 0)"
    "covered (getCoverage p m') = covered (getCoverage p m) + (if path_Dir f = p \<and> execs > 0 then n else 0)"
    by (auto simp: addBlock_def Let_def split: if_splits)
  with n show thesis by (rule that)
qed

lemma mode_line_no_block:
  assumes "parseMode (trimSpace l) = None"
  shows "blockLine l = None"
proof -
  have pre: "take 6 (trimSpace l) = ''mode: ''" and mode: "drop 6 (trimSpace l) \<in> {''set'', ''count'', ''atomic''}"
    using assms by (auto simp: parseMode_def hasPrefix_def numeral_eq_Suc split: if_splits)
  obtain mode where "trimSpace l = ''mode: '' @ mode" "mode \<in> {''set'', ''count'', ''atomic''}"
    using append_take_drop_id [of 6 "trimSpace l"] pre mode by metis
  moreover have "splitFields (''mode: '' @ m) = [''mode:'', m]" if "m \<in> {''set'', ''count'', ''atomic''}" for m
    using that by (auto simp: splitFields_def isSpace_def)
  ultimately show ?thesis by (simp add: blockLine_def)
qed

lemma block_line_counts:
  assumes "splitFields (trimSpace l) = [location, stmts, cnt]" and "parseBlockLocation location = Inr f"
    and "ParseInt stmts = Some n" and "ParseUint cnt = Some execs"
  shows "blockTotal p l = (if path_Dir f = p then n else 0)"
    and "blockCovered p l = (if path_Dir f = p \<and> execs > 0 then n else 0)"
  using assms by (simp_all add: block_defs)

lemma parseLine_cases:
  assumes "parseLine l st = Inr st'"
  obtains (skip) "blockLine l = None" and "ps_coverage st' = ps_coverage st"
  | (block) location stmts cnt filePath where "splitFields (trimSpace l) = [location, stmts, cnt]"
      and "parseBlockLocation location = Inr filePath"
      and "addBlock filePath stmts cnt (ps_coverage st) = Inr (ps_coverage st')"
proof (cases "trimSpace l = '''' \<or> \<not> ps_modeSeen st")
  case True
  then have "blockLine l = None" "ps_coverage st' = ps_coverage st"
    using assms mode_line_no_block [of l]
    by (auto simp: parseLine_def Let_def blockLine_def splitFields_def split: option.splits if_splits)
  then show thesis by (rule skip)
next
  case False
  with assms show thesis
    by (auto simp: parseLine_def Let_def split: list.splits sum.splits if_splits intro: block)
qed

lemma parseLine_counts:
  assumes "parseLine l st = Inr st'"
  shows "total (getCoverage p (ps_coverage st')) = total (getCoverage p (ps_coverage st)) + blockTotal p l \<and>
    covered (getCoverage p (ps_coverage st')) = covered (getCoverage p (ps_coverage st)) + blockCovered p l"
  using assms
proof (cases rule: parseLine_cases)
  case skip
  then show ?thesis by (simp add: blockTotal_def blockCovered_def)
next
  case (block location stmts cnt filePath)
  obtain n execs where n: "ParseInt stmts = Some n" "ParseUint cnt = Some execs"
    and counts: "total (getCoverage p (ps_coverage st')) = total (getCoverage p (ps_coverage st)) + (if path_Dir filePath = p then n else 0)"
      "covered (getCoverage p (ps_coverage st')) = covered (getCoverage p (ps_coverage st)) + (if path_Dir filePath = p \<and> execs > 0 then n else 0)"
    using addBlock_counts [OF block(3), of p] .
  show ?thesis using counts block_line_counts [OF block(1,2) n, of p] by simp
qed

lemma parseLines_counts:
  "parseLines ls st = Inr st' \<Longrightarrow>
   total (getCoverage p (ps_coverage st')) = total (getCoverage p (ps_coverage st)) + (\<Sum>l\<leftarrow>ls. blockTotal p l) \<and>
   covered (getCoverage p (ps_coverage st')) = covered (getCoverage p (ps_coverage st)) + (\<Sum>l\<leftarrow>ls. blockCovered p l)"
proof (induction ls arbitrary: st)
  case (Cons l ls)
  then obtain st1 where "parseLine l st = Inr st1" "parseLines ls st1 = Inr st'" by (auto split: sum.splits)
  with Cons.IH [of st1] parseLine_counts [of l st st1 p] show ?case by simp
qed simp

lemma parseProfile_counts:
  assumes "parseProfile input = Inr m"
  shows "total (getCoverage p m) = (\<Sum>l\<leftarrow>fst (scanInput input). blockTotal p l)"
    and "covered (getCoverage p m) = (\<Sum>l\<leftarrow>fst (scanInput input). blockCovered p l)"
proof -
  obtain st where "parseLines (fst (scanInput input)) startProfile = Inr st" "m = ps_coverage st"
    using assms by (auto simp: parseProfile_def split: sum.splits option.splits if_splits)
  moreover have "getCoverage p (ps_coverage startProfile) = \<lparr>covered = 0, total = 0\<rparr>"
    by (simp add: startProfile_def getCoverage_def)
  ultimately show "total (getCoverage p m) = (\<Sum>l\<leftarrow>fst (scanInput input). blockTotal p l)"
    "covered (getCoverage p m) = (\<Sum>l\<leftarrow>fst (scanInput input). blockCovered p l)"
    using parseLines_counts [of "fst (scanInput input)" startProfile st p] by simp_all
qed

text \<open>
  C39: the gate exits with status 0 exactly when it has no positional argument, every input can
  be read and the repository's policy is met by the sums over the blocks of the profile: the
  packages listed are distinct and inside the module, every configured and every profiled
  package is listed, every package outside the examples is in the profile and reaches its
  minimum, and so does their nonempty sum, compared exactly and without overflow.
\<close>

theorem coverage_gate_iff:
  "fst (coverage_main env rootDir profile args) = 0 \<longleftrightarrow>
   args = [] \<and> rv_closeErr env = None \<and>
   (\<exists>packages input coverage.
      discoverPackages (rv_goList env rootDir) = Inr packages \<and>
      rv_open env (profilePathOf rootDir profile) = Inr input \<and> parseProfile input = Inr coverage \<and>
      (\<forall>p. total (getCoverage p coverage) = (\<Sum>l\<leftarrow>fst (scanInput input). blockTotal p l) \<and>
           covered (getCoverage p coverage) = (\<Sum>l\<leftarrow>fst (scanInput input). blockCovered p l)) \<and>
      policyMet packages coverage repositoryPolicy)"
  using evaluateCoverage_passes_iff [OF repositoryPolicy_valid parseProfile_inv]
  by (auto simp: coverage_main_def coverage_run_def Let_def parseProfile_counts split: sum.splits option.splits)

end
