(* ===== verification/Browser.thy ===== *)
theory Browser
  imports Go_Errors
begin

text \<open>
  Opening the system browser (\<open>desktopflow/browser.go\<close>): the command each platform runs and
  what starting it reports. The URL is an argument of its own, so no shell ever reads it.
\<close>

text \<open>The command of a platform by its \<open>GOOS\<close> name: a program and its arguments.\<close>

definition browserCommand :: "string \<Rightarrow> string \<Rightarrow> (string \<times> string list) result" where
  "browserCommand goos url =
     (if goos = ''linux'' then Inr (''xdg-open'', [url])
      else if goos = ''darwin'' then Inr (''open'', [url])
      else if goos = ''windows'' then Inr (''rundll32'', [''url.dll,FileProtocolHandler'', url])
      else Inl (OtherError (''desktopflow: unsupported platform '' @ [CHR 0x22] @ goos @ [CHR 0x22] @
                            '' for browser opening'')))"

text \<open>\<open>start\<close> is what the operating system reports of a started command.\<close>

definition DefaultBrowserOpener ::
  "string \<Rightarrow> (string \<Rightarrow> string list \<Rightarrow> goerror option) \<Rightarrow> string \<Rightarrow> goerror option \<times> (string \<times> string list) list" where
  "DefaultBrowserOpener goos start url =
     (case browserCommand goos url of
        Inl err \<Rightarrow> (Some err, [])
      | Inr (program, args) \<Rightarrow> (start program args, [(program, args)]))"

text \<open>
  At most one command is started, a fixed program of the platform, whose last argument is the
  whole URL whatever characters it has; an unknown platform starts nothing and says so.
\<close>

lemma browser_gets_whole_url:
  assumes "DefaultBrowserOpener goos start url = (err, started)"
  shows "(program, args) \<in> set started \<Longrightarrow>
           program \<in> {''xdg-open'', ''open'', ''rundll32''} \<and> last args = url \<and>
           set (butlast args) \<subseteq> {''url.dll,FileProtocolHandler''} \<and> err = start program args"
    and "started = [] \<longleftrightarrow> goos \<notin> {''linux'', ''darwin'', ''windows''}"
    and "started = [] \<Longrightarrow> err \<noteq> None" and "length started \<le> 1"
  using assms by (auto simp: DefaultBrowserOpener_def browserCommand_def split: if_splits)

end
