(* ===== verification/Config.thy ===== *)
theory Config
  imports Sample_Client Go_Url
begin

text \<open>
  Configuration checking (\<open>config.go\<close>) and the construction of a client (\<open>New\<close> of
  \<open>client.go\<close>). A Go map of strings is the list of its entries in the order the range
  loop visits them.
\<close>

section \<open>Operations\<close>

definition defaultScopes :: "string list" where
  "defaultScopes = [''openid'', ''profile'', ''email'', ''offline_access'']"

definition DefaultScopes :: "string list" where
  "DefaultScopes = [] @ defaultScopes"

definition reservedExtraAuthParams :: "string list" where
  "reservedExtraAuthParams =
     [''client_id'', ''client_secret'', ''code_challenge'', ''code_challenge_method'', ''nonce'',
      ''redirect_uri'', ''response_type'', ''scope'', ''state'']"

definition reservedExtraTokenParams :: "string list" where
  "reservedExtraTokenParams =
     [''client_assertion'', ''client_assertion_type'', ''client_id'', ''client_secret'', ''code'',
      ''code_verifier'', ''grant_type'', ''redirect_uri'']"

text \<open>The verb \<open>%q\<close> on printable text.\<close>

definition quoted :: "string \<Rightarrow> string" where
  "quoted s = [CHR 0x22] @ s @ [CHR 0x22]"

fun validateExtraParams :: "string \<Rightarrow> (string \<times> string) list \<Rightarrow> string list \<Rightarrow> goerror option" where
  "validateExtraParams name [] reserved = None"
| "validateExtraParams name ((key, _) # params) reserved =
     (let normalized = toLower (trimSpace key)
      in if normalized \<in> set reserved
         then Some (OtherError (''pkceflow: Config.'' @ name @
                '' must not set reserved OAuth/OIDC parameter '' @ quoted key))
         else validateExtraParams name params reserved)"

definition cloneStringMap :: "(string \<times> string) list \<Rightarrow> (string \<times> string) list" where
  "cloneStringMap kvs = (if length kvs = 0 then [] else map (\<lambda>(k, v). (k, v)) kvs)"

text \<open>The defaults \<open>Validate\<close> fills in once every check has passed.\<close>

definition applyDefaults :: "config \<Rightarrow> config" where
  "applyDefaults c =
     c\<lparr>Scopes := (if length (Scopes c) = 0 then [] @ defaultScopes else [] @ Scopes c),
       ExtraAuthParams := cloneStringMap (ExtraAuthParams c),
       ExtraTokenParams := cloneStringMap (ExtraTokenParams c),
       LoginTimeout := (if LoginTimeout c = 0 then 2 * minute else LoginTimeout c),
       LogoutTimeout := (if LogoutTimeout c = 0 then 30 * second else LogoutTimeout c)\<rparr>"

definition Validate :: "config \<Rightarrow> goerror option \<times> config" where
  "Validate c =
     (if trimSpace (IssuerURL c) = ''''
      then (Some (OtherError ''pkceflow: Config.IssuerURL is required''), c)
      else case Parse (IssuerURL c) of
        Inl err \<Rightarrow> (Some (Errorf [Txt ''pkceflow: Config.IssuerURL is not a valid URL: '', Wrapped err]), c)
      | Inr u \<Rightarrow>
          if (u_Scheme u \<noteq> ''http'' \<and> u_Scheme u \<noteq> ''https'') \<or> u_Host u = ''''
          then (Some (OtherError (''pkceflow: Config.IssuerURL must be an absolute http(s) URL, got '' @
                        quoted (IssuerURL c))), c)
          else if trimSpace (ClientID c) = ''''
          then (Some (OtherError ''pkceflow: Config.ClientID is required''), c)
          else (case validateExtraParams ''ExtraAuthParams'' (ExtraAuthParams c) reservedExtraAuthParams of
                  Some err \<Rightarrow> (Some err, c)
                | None \<Rightarrow>
                    (case validateExtraParams ''ExtraTokenParams'' (ExtraTokenParams c)
                            reservedExtraTokenParams of
                       Some err \<Rightarrow> (Some err, c)
                     | None \<Rightarrow> (None, applyDefaults c))))"

text \<open>
  \<open>New\<close>: the configuration is passed by value, the backend is the one the options chose or
  the in-memory store. The emitter, logger and HTTP client are not part of the model's state.
\<close>

definition New :: "config \<Rightarrow> bool \<Rightarrow> 's \<Rightarrow> 's client result" where
  "New cfg flowPresent backend =
     (if \<not> flowPresent then Inl (OtherError ''pkceflow: AuthFlowHandler is required'')
      else case Validate cfg of
             (Some err, _) \<Rightarrow> Inl err
           | (None, cfg) \<Rightarrow> Inr (newClient cfg backend))"

text \<open>
  \<open>RedactedString\<close>, over the printer of durations: only the fields that hold no extra parameter,
  so two configurations that differ in those are printed alike.
\<close>

definition RedactedString :: "(duration \<Rightarrow> string) \<Rightarrow> config \<Rightarrow> string" where
  "RedactedString durText c =
     ''Config{IssuerURL: '' @ quoted (IssuerURL c) @ '', ClientID: '' @ quoted (ClientID c) @
     '', Scopes: ['' @ joinWith '' '' (Scopes c) @ ''], GracePeriod: '' @ durText (GracePeriod c) @
     '', LoginTimeout: '' @ durText (LoginTimeout c) @ '', LogoutTimeout: '' @ durText (LogoutTimeout c) @ ''}''"

lemma RedactedString_hides_params:
  "RedactedString durText (c\<lparr>ExtraAuthParams := a, ExtraTokenParams := t\<rparr>) = RedactedString durText c"
  by (simp add: RedactedString_def)

section \<open>Lemmas\<close>

definition reservedFree :: "string list \<Rightarrow> (string \<times> string) list \<Rightarrow> bool" where
  "reservedFree reserved params \<longleftrightarrow> (\<forall>kv \<in> set params. toLower (trimSpace (fst kv)) \<notin> set reserved)"

lemma validateExtraParams_None_iff:
  "validateExtraParams name params reserved = None \<longleftrightarrow> reservedFree reserved params"
  by (induction name params reserved rule: validateExtraParams.induct) (auto simp: reservedFree_def Let_def)

lemma cloneStringMap_id [simp]: "cloneStringMap kvs = kvs"
  by (simp add: cloneStringMap_def)

lemma Validate_None_iff:
  "Validate c = (None, c') \<longleftrightarrow>
     trimSpace (IssuerURL c) \<noteq> '''' \<and>
     (\<exists>u. Parse (IssuerURL c) = Inr u \<and> u_Scheme u \<in> {''http'', ''https''} \<and> u_Host u \<noteq> '''') \<and>
     trimSpace (ClientID c) \<noteq> '''' \<and>
     reservedFree reservedExtraAuthParams (ExtraAuthParams c) \<and>
     reservedFree reservedExtraTokenParams (ExtraTokenParams c) \<and> c' = applyDefaults c"
  using validateExtraParams_None_iff [of "''ExtraAuthParams''" "ExtraAuthParams c" reservedExtraAuthParams]
    validateExtraParams_None_iff [of "''ExtraTokenParams''" "ExtraTokenParams c" reservedExtraTokenParams]
  by (auto simp: Validate_def split: sum.splits option.splits if_splits)

lemma Validate_Some_unchanged: "Validate c = (Some e, c') \<Longrightarrow> c' = c"
  by (auto simp: Validate_def split: sum.splits option.splits if_splits)

lemma applyDefaults_idem: "applyDefaults (applyDefaults c) = applyDefaults c"
  by (auto simp: applyDefaults_def defaultScopes_def minute_def second_def)

lemma applyDefaults_simps [simp]:
  "IssuerURL (applyDefaults c) = IssuerURL c" "ClientID (applyDefaults c) = ClientID c"
  "GracePeriod (applyDefaults c) = GracePeriod c"
  "ExtraAuthParams (applyDefaults c) = ExtraAuthParams c"
  "ExtraTokenParams (applyDefaults c) = ExtraTokenParams c"
  by (simp_all add: applyDefaults_def)


end
