(* ===== verification/Options.thy ===== *)
theory Options
  imports Config
begin

text \<open>
  The functional options of \<open>New\<close> (\<open>options.go\<close>) and the dependencies it installs
  (\<open>client.go\<close>): the store, the emitter, the logger and the HTTP client. The last three are
  objects of other packages, known by identity; \<open>None\<close> is a nil argument.
\<close>

section \<open>Options\<close>

record 's clientOptions =
  co_store :: "('s token_persistence \<times> 's) option"
  co_emitter :: "nat option"
  co_logger :: "nat option"
  co_httpClient :: "nat option"

definition zeroOptions :: "'s clientOptions" where
  "zeroOptions = \<lparr>co_store = None, co_emitter = None, co_logger = None, co_httpClient = None\<rparr>"

type_synonym 's client_option = "'s clientOptions \<Rightarrow> 's clientOptions"

definition WithTokenPersistence :: "('s token_persistence \<times> 's) option \<Rightarrow> 's client_option" where
  "WithTokenPersistence st os = os\<lparr>co_store := st\<rparr>"

definition WithEventEmitter :: "nat option \<Rightarrow> 's client_option" where
  "WithEventEmitter emitter os = os\<lparr>co_emitter := emitter\<rparr>"

definition WithLogger :: "nat option \<Rightarrow> 's client_option" where
  "WithLogger logger os = os\<lparr>co_logger := logger\<rparr>"

definition WithHTTPClient :: "nat option \<Rightarrow> 's client_option" where
  "WithHTTPClient hc os = os\<lparr>co_httpClient := hc\<rparr>"

definition applyOptions :: "'s client_option list \<Rightarrow> 's clientOptions" where
  "applyOptions opts = foldl (\<lambda>os opt. opt os) zeroOptions opts"

section \<open>The store behind the client\<close>

text \<open>The caller's store or the in-memory one, over a backend that is one or the other.\<close>

definition eitherStore :: "'s token_persistence option \<Rightarrow> ('s + token_state) token_persistence" where
  "eitherStore given =
     \<lparr>Save = (\<lambda>ts s. case s of
                 Inl b \<Rightarrow> (case given of None \<Rightarrow> (None, s) | Some ops \<Rightarrow> map_prod id Inl (Save ops ts b))
               | Inr m \<Rightarrow> map_prod id Inr (Save memoryStore ts m)),
      Load = (\<lambda>s. case s of
                 Inl b \<Rightarrow> (case given of None \<Rightarrow> Inr zeroTokenState | Some ops \<Rightarrow> Load ops b)
               | Inr m \<Rightarrow> Load memoryStore m),
      Delete = (\<lambda>s. case s of
                 Inl b \<Rightarrow> (case given of None \<Rightarrow> (None, s) | Some ops \<Rightarrow> map_prod id Inl (Delete ops b))
               | Inr m \<Rightarrow> map_prod id Inr (Delete memoryStore m))\<rparr>"

definition eitherWf :: "('s \<Rightarrow> bool) \<Rightarrow> ('s + token_state) \<Rightarrow> bool" where
  "eitherWf wfs s \<longleftrightarrow> (case s of Inl b \<Rightarrow> wfs b | Inr _ \<Rightarrow> True)"

text \<open>Whichever of the two it is, the contract of the caller's store is the client's.\<close>

context persistence_contract
begin

lemma either_contract: "persistence_contract (eitherStore (Some ops)) (eitherWf wfs) storable"
proof unfold_locales
  fix s :: "'s + token_state" and ts s' ts'
  show "sameTokenState ts ts'"
    if "eitherWf wfs s" "storable ts" "Save (eitherStore (Some ops)) ts s = (None, s')"
      "Load (eitherStore (Some ops)) s' = Inr ts'"
  proof (cases s)
    case (Inl b)
    obtain e b' where sv: "Save ops ts b = (e, b')" by fastforce
    with Inl that save_load [of b ts b' ts'] show ?thesis by (auto simp: eitherStore_def eitherWf_def)
  qed (use that in \<open>auto simp: eitherStore_def\<close>)
  show "TokenState_IsZero ts'"
    if "eitherWf wfs s" "Delete (eitherStore (Some ops)) s = (None, s')"
      "Load (eitherStore (Some ops)) s' = Inr ts'"
  proof (cases s)
    case (Inl b)
    obtain e b' where dl: "Delete ops b = (e, b')" by fastforce
    with Inl that delete_load [of b b' ts'] show ?thesis by (auto simp: eitherStore_def eitherWf_def)
  qed (use that in \<open>auto simp: eitherStore_def\<close>)
  show "eitherWf wfs (snd (Save (eitherStore (Some ops)) ts s))" if "eitherWf wfs s"
    using that save_wf by (cases s) (simp_all add: eitherStore_def eitherWf_def)
  show "eitherWf wfs (snd (Delete (eitherStore (Some ops)) s))" if "eitherWf wfs s"
    using that delete_wf by (cases s) (simp_all add: eitherStore_def eitherWf_def)
qed

end

section \<open>Construction\<close>

text \<open>What \<open>New\<close> falls back to: an emitter that drops everything, and the default logger.\<close>

datatype chosenEmitter = GivenEmitter nat | noopEmitter
datatype chosenLogger = GivenLogger nat | defaultLogger

text \<open>The call of the emitter, on the trace of what the caller's emitter has received.\<close>

definition emitTo :: "chosenEmitter \<Rightarrow> clientEvent \<Rightarrow> (nat \<Rightarrow> clientEvent list) \<Rightarrow> nat \<Rightarrow> clientEvent list" where
  "emitTo em ev trace =
     (case em of noopEmitter \<Rightarrow> trace | GivenEmitter e \<Rightarrow> trace(e := trace e @ [ev]))"

record 's newClientResult =
  nc_client :: "('s + token_state) client"
  nc_ops :: "('s + token_state) token_persistence"
  nc_emitter :: chosenEmitter
  nc_logger :: chosenLogger
  nc_httpClient :: "nat option"

definition NewWithOptions :: "config \<Rightarrow> bool \<Rightarrow> 's client_option list \<Rightarrow> 's newClientResult result" where
  "NewWithOptions cfg flowPresent opts =
     (let options = applyOptions opts;
          backend = (case co_store options of None \<Rightarrow> Inr zeroTokenState | Some (_, s) \<Rightarrow> Inl s)
      in case New cfg flowPresent backend of
           Inl err \<Rightarrow> Inl err
         | Inr c \<Rightarrow>
             Inr \<lparr>nc_client = c, nc_ops = eitherStore (map_option fst (co_store options)),
                  nc_emitter = (case co_emitter options of None \<Rightarrow> noopEmitter | Some e \<Rightarrow> GivenEmitter e),
                  nc_logger = (case co_logger options of None \<Rightarrow> defaultLogger | Some l \<Rightarrow> GivenLogger l),
                  nc_httpClient = co_httpClient options\<rparr>)"

text \<open>The context the client's requests run in: with the configured HTTP client, if there is one.\<close>

definition httpContext :: "nat option \<Rightarrow> nat option \<Rightarrow> nat option" where
  "httpContext httpClient ctxClient = (case httpClient of None \<Rightarrow> ctxClient | Some hc \<Rightarrow> Some hc)"

section \<open>What the options choose\<close>

lemma applyOptions_snoc [simp]: "applyOptions (opts @ [opt]) = opt (applyOptions opts)"
  by (simp add: applyOptions_def)

text \<open>The last option of a kind decides, and options of other kinds do not touch its field.\<close>

lemma last_option_decides:
  "co_store (applyOptions (opts @ [WithTokenPersistence st])) = st"
  "co_emitter (applyOptions (opts @ [WithEventEmitter em])) = em"
  "co_logger (applyOptions (opts @ [WithLogger lg])) = lg"
  "co_httpClient (applyOptions (opts @ [WithHTTPClient hc])) = hc"
  by (simp_all add: WithTokenPersistence_def WithEventEmitter_def WithLogger_def WithHTTPClient_def)

lemma options_independent:
  "co_store (applyOptions (opts @ [WithEventEmitter em])) = co_store (applyOptions opts)"
  "co_store (applyOptions (opts @ [WithLogger lg])) = co_store (applyOptions opts)"
  "co_store (applyOptions (opts @ [WithHTTPClient hc])) = co_store (applyOptions opts)"
  "co_emitter (applyOptions (opts @ [WithTokenPersistence st])) = co_emitter (applyOptions opts)"
  "co_httpClient (applyOptions (opts @ [WithTokenPersistence st])) = co_httpClient (applyOptions opts)"
  by (simp_all add: WithTokenPersistence_def WithEventEmitter_def WithLogger_def WithHTTPClient_def)

text \<open>
  A client \<open>New\<close> returns starts logged out, over a backend and operations that keep the
  contract: the caller's store if one was given, the in-memory store, empty, if none was.
\<close>

lemma new_client_contract:
  assumes "NewWithOptions cfg flowPresent opts = Inr r"
    and "\<And>ops s. co_store (applyOptions opts) = Some (ops, s) \<Longrightarrow> persistence_contract ops wfs storable \<and> wfs s"
  shows "flowPresent \<and> TokenState_IsZero (state (nc_client r)) \<and>
    (co_store (applyOptions opts) = None \<longrightarrow> Load (nc_ops r) (store (nc_client r)) = Inr zeroTokenState) \<and>
    (\<exists>wf. wf (store (nc_client r)) \<and> persistence_contract (nc_ops r) wf storable)"
proof -
  have new: "flowPresent" "\<exists>cfg' b. nc_client r = newClient cfg' b \<and>
      b = (case co_store (applyOptions opts) of None \<Rightarrow> Inr zeroTokenState | Some (_, s) \<Rightarrow> Inl s)"
    "nc_ops r = eitherStore (map_option fst (co_store (applyOptions opts)))"
    using assms(1)
    by (auto simp: NewWithOptions_def New_def Let_def split: sum.splits prod.splits option.splits if_splits)
  then have c: "TokenState_IsZero (state (nc_client r))"
    "store (nc_client r) = (case co_store (applyOptions opts) of None \<Rightarrow> Inr zeroTokenState | Some (_, s) \<Rightarrow> Inl s)"
    by (auto simp: newClient_def)
  show ?thesis
  proof (cases "co_store (applyOptions opts)")
    case None
    then have ops: "nc_ops r = eitherStore None" "store (nc_client r) = Inr zeroTokenState"
      using new(3) c(2) by simp_all
    have "persistence_contract (nc_ops r) (eitherWf (\<lambda>_. False)) storable"
      unfolding ops by unfold_locales (auto simp: eitherStore_def eitherWf_def split: sum.splits)
    moreover have "eitherWf (\<lambda>_. False) (store (nc_client r))" by (simp add: ops eitherWf_def)
    ultimately have "\<exists>wf. wf (store (nc_client r)) \<and> persistence_contract (nc_ops r) wf storable" by blast
    moreover have "Load (nc_ops r) (store (nc_client r)) = Inr zeroTokenState"
      by (simp add: ops eitherStore_def)
    ultimately show ?thesis using new(1) c(1) by simp
  next
    case (Some p)
    obtain ops s where p: "p = (ops, s)" by fastforce
    have "persistence_contract ops wfs storable" "wfs s" using assms(2) Some p by simp_all
    moreover have r: "nc_ops r = eitherStore (Some ops)" "store (nc_client r) = Inl s"
      using new(3) c(2) Some p by simp_all
    ultimately have "persistence_contract (nc_ops r) (eitherWf wfs) storable" "eitherWf wfs (store (nc_client r))"
      using persistence_contract.either_contract by (simp_all add: eitherWf_def)
    then have "\<exists>wf. wf (store (nc_client r)) \<and> persistence_contract (nc_ops r) wf storable" by blast
    with new(1) c(1) Some show ?thesis by simp
  qed
qed

end
