(* ===== verification/Cli_Example.thy ===== *)
theory Cli_Example
  imports Options Logout Desktopflow Filestore
begin

text \<open>
  The interactive example (\<open>examples/cli/main.go\<close>): the checks of the command line, the parts
  it puts together (the encrypted store, the desktop handler, the client), the command loop
  and what it prints. Times are formatted by parameters, for they depend on the local zone.
\<close>

section \<open>Command line\<close>

text \<open>\<open>fl_set\<close> are the names of the flags that were given.\<close>

record cliFlags =
  fl_issuer :: string
  fl_clientID :: string
  fl_port :: int
  fl_callbackPath :: string
  fl_redirectURI :: string
  fl_logoutURI :: string
  fl_logoutPath :: string
  fl_scopes :: string
  fl_graceDays :: int
  fl_dataDir :: string
  fl_set :: "string list"

definition defaultFlags :: cliFlags where
  "defaultFlags =
     \<lparr>fl_issuer = '''', fl_clientID = '''', fl_port = 15051, fl_callbackPath = ''/callback'',
      fl_redirectURI = '''', fl_logoutURI = '''', fl_logoutPath = ''/logout-callback'', fl_scopes = '''',
      fl_graceDays = 0, fl_dataDir = '''', fl_set = []\<rparr>"

definition isFlagSet :: "cliFlags \<Rightarrow> string \<Rightarrow> bool" where
  "isFlagSet fl name \<longleftrightarrow> name \<in> set (fl_set fl)"

definition cliUsageError :: "cliFlags \<Rightarrow> string option" where
  "cliUsageError fl =
     (if fl_issuer fl = '''' \<or> fl_clientID fl = ''''
      then Some ''Error: --issuer and --client-id are required''
      else if fl_redirectURI fl \<noteq> '''' \<and> (fl_callbackPath fl \<noteq> ''/callback'' \<or> isFlagSet fl ''port'')
      then Some ''Error: --redirect-uri cannot be combined with --port or --callback-path''
      else if fl_logoutURI fl \<noteq> '''' \<and> isFlagSet fl ''logout-path''
      then Some ''Error: --logout-uri and --logout-path are mutually exclusive; use one or the other''
      else None)"

definition intText :: "int \<Rightarrow> string" where
  "intText n = (if n < 0 then ''-'' @ digitsOf (nat (- n)) else digitsOf (nat n))"

definition cliHandler :: "cliFlags \<Rightarrow> string + desktopHandler" where
  "cliHandler fl =
     (case (if fl_redirectURI fl \<noteq> ''''
            then (case NewWithURI (fl_redirectURI fl) of
                    Inl err \<Rightarrow> Inl (''Error: invalid redirect URI: '' @ errorText err)
                  | Inr h \<Rightarrow> Inr h)
            else (case NewWithURI (''http://127.0.0.1:'' @ intText (fl_port fl) @ fl_callbackPath fl) of
                    Inl err \<Rightarrow> Inl (''Error: invalid callback configuration: '' @ errorText err)
                  | Inr h \<Rightarrow> Inr h)) of
        Inl msg \<Rightarrow> Inl msg
      | Inr h \<Rightarrow>
          (case (if fl_logoutURI fl \<noteq> '''' then desktopSetLogoutURI (fl_logoutURI fl) h
                 else desktopSetLogoutPath (fl_logoutPath fl) h) of
             (Some err, _) \<Rightarrow> Inl (''Error: '' @ errorText err)
           | (None, h) \<Rightarrow> Inr h))"

text \<open>The product of durations is computed in 64 bits.\<close>

definition wrapDuration :: "int \<Rightarrow> duration" where
  "wrapDuration n = sint (word_of_int n :: 64 word)"

definition cliConfig :: "cliFlags \<Rightarrow> config" where
  "cliConfig fl =
     \<lparr>IssuerURL = fl_issuer fl, ClientID = fl_clientID fl,
      Scopes = (if fl_scopes fl \<noteq> '''' then splitOn CHR '','' (fl_scopes fl) else []),
      GracePeriod = (if fl_graceDays fl > 0 then wrapDuration (wrapDuration (fl_graceDays fl * 24) * 60 * 60 * second) else 0),
      LoginTimeout = 0, LogoutTimeout = 0, ExtraAuthParams = [], ExtraTokenParams = []\<rparr>"

section \<open>Putting the parts together\<close>

text \<open>
  The data directory as an absolute path; \<open>home\<close> is what \<open>os.UserHomeDir\<close> returns. Each
  message is the reason of an exit with status 1; the client's backend is the file system.
\<close>

definition cliDir :: "cliFlags \<Rightarrow> string \<Rightarrow> path" where
  "cliDir fl home =
     joinPath [] (if fl_dataDir fl = '''' then home @ ''/.config/pkceflow-example'' else fl_dataDir fl)"

definition cliSetup ::
  "codec \<Rightarrow> keyRace \<Rightarrow> string \<Rightarrow> cliFlags \<Rightarrow> osenv \<Rightarrow>
   (string + desktopHandler \<times> fileStore \<times> bool \<times> osenv client) \<times> osenv" where
  "cliSetup cd race home fl env =
     (case cliUsageError fl of
        Some msg \<Rightarrow> (Inl msg, env)
      | None \<Rightarrow>
          (case newStore cd race ''pkceflow-example'' (cliDir fl home) env of
             (Inl err, env) \<Rightarrow> (Inl (''Error creating token store: '' @ errorText err), env)
           | (Inr s, env) \<Rightarrow>
               (case cliHandler fl of
                  Inl msg \<Rightarrow> (Inl msg, env)
                | Inr h \<Rightarrow>
                    (case New (cliConfig fl) True env of
                       Inl err \<Rightarrow> (Inl (''Error creating client: '' @ errorText err), env)
                     | Inr c \<Rightarrow>
                         (case RestoreSession (fileStoreOps cd s) c of
                            ((_, Some err), c) \<Rightarrow> (Inl (''Error restoring session: '' @ errorText err), store c)
                          | ((restored, None), c) \<Rightarrow> (Inr (h, s, restored, c), store c))))))"

text \<open>
  The rest of the start: what is printed before the loop, discovery, which may fail without
  ending the program, and the supervisor.
\<close>

datatype outLine = Out string | Err string

definition cliStart ::
  "'s initEnv \<Rightarrow> desktopHandler \<Rightarrow> bool \<Rightarrow> 's client \<Rightarrow> outLine list \<times> 's client" where
  "cliStart env h restored c =
     (let restoredLines = (if restored then [Out ''Restored previous session.''] else []);
          uriLines = [Out (''Redirect URI: '' @ dh_redirectURI h @ '' (register this with your IdP)'')] @
            (if dh_logoutRedirectURI h \<noteq> dh_redirectURI h
             then [Out (''Post-logout redirect URI: '' @ dh_logoutRedirectURI h @ '' (register this too)'')]
             else []);
          issuer = IssuerURL (config c);
          (err, c) = Init env c;
          initLines = (case err of
              Some e \<Rightarrow> [Err (''Warning: OIDC discovery failed: '' @ errorText e),
                         Out ''Continuing in offline mode (cached tokens may still work).'']
            | None \<Rightarrow> [Out ''OIDC discovery successful.'']);
          (_, c) = startRefreshLoop None c
      in (restoredLines @ uriLines @
            [Out (''Discovering OIDC configuration from '' @ issuer @ ''...'')] @ initLines, c))"

section \<open>What is printed\<close>

record cliFormat =
  cf_clock :: "gotime \<Rightarrow> string"
  cf_date :: "gotime \<Rightarrow> string"
  cf_duration :: "duration \<Rightarrow> string"

definition boolText :: "bool \<Rightarrow> string" where
  "boolText b = (if b then ''true'' else ''false'')"

definition identify :: "claims \<Rightarrow> string" where
  "identify cl =
     (case filter (\<lambda>s. s \<noteq> '''') [PreferredUsername cl, Email cl, Name cl, Subject cl] of
        [] \<Rightarrow> ''unknown user''
      | candidate # _ \<Rightarrow> candidate)"

text \<open>\<open>Truncate(time.Second)\<close> rounds toward zero.\<close>

definition truncateSecond :: "duration \<Rightarrow> duration" where
  "truncateSecond d = (if d < 0 then - (- d - (- d) mod second) else d - d mod second)"

definition statusLine :: "(string \<Rightarrow> claim_set result) \<Rightarrow> gotime \<Rightarrow> 's client \<Rightarrow> string" where
  "statusLine unmarshal now c =
     (let status = AuthStatus now c
      in if Valid status then ''  State:  Authenticated''
         else if GraceMode status
         then ''  State:  Grace mode ('' @ intText (GraceDaysLeft status) @ '' days remaining)''
         else case Client_Claims unmarshal c of
                Inr cl \<Rightarrow> ''  State:  Session refused - log in again (was '' @ identify cl @ '')''
              | Inl _ \<Rightarrow> ''  State:  Not authenticated'')"

definition printStatus ::
  "(string \<Rightarrow> claim_set result) \<Rightarrow> cliFormat \<Rightarrow> 's token_persistence \<Rightarrow> gotime \<Rightarrow> gotime \<Rightarrow> 's client \<Rightarrow>
   outLine list" where
  "printStatus unmarshal fm ops now later c =
     (let st = (case Load ops (store c) of Inr st \<Rightarrow> st | Inl _ \<Rightarrow> zeroTokenState);
          remaining = time_sub (ExpiresAt st) later;
          expiry = (if time_isZero (ExpiresAt st) then []
                    else [Out (''  Expires:    '' @ cf_clock fm (ExpiresAt st)),
                          Out (if remaining > 0
                               then ''  TTL:        '' @ cf_duration fm (truncateSecond remaining)
                               else ''  TTL:        expired '' @
                                    cf_duration fm (truncateSecond (wrapDuration (- remaining))) @ '' ago'')]);
          lastAuth = (if time_isZero (LastAuthAt st) then []
                      else [Out (''  Last auth:  '' @ cf_date fm (LastAuthAt st))])
      in [Out ''--- Auth Status ---'', Out (statusLine unmarshal now c),
          Out (''  CanUseApp: '' @ boolText (CanUseApp (AuthStatus now c)))] @
         expiry @ lastAuth @ [Out ''-------------------''])"

definition tokenSummary :: "string \<Rightarrow> string" where
  "tokenSummary token =
     (if length token > 20
      then ''Access token: '' @ take 8 token @ ''...'' @ drop (length token - 8) token @
           '' ('' @ digitsOf (length token) @ '' chars)''
      else ''Access token: '' @ token @ '' ('' @ digitsOf (length token) @ '' chars)'')"

definition claimLines :: "cliFormat \<Rightarrow> claims \<Rightarrow> outLine list" where
  "claimLines fm cl =
     [Out '''', Out ''--- ID Token Claims ---'', Out (''  subject:   '' @ Subject cl)] @
     (if Name cl \<noteq> '''' then [Out (''  name:      '' @ Name cl)] else []) @
     (if PreferredUsername cl \<noteq> '''' then [Out (''  username:  '' @ PreferredUsername cl)] else []) @
     (if Email cl \<noteq> ''''
      then [Out (''  email:     '' @ Email cl @ '' (verified: '' @ boolText (EmailVerified cl) @ '')'')] else []) @
     [Out (''  issuer:    '' @ Issuer cl)] @
     (if Audience cl \<noteq> [] then [Out (''  audience:  '' @ joinWith '', '' (Audience cl))] else []) @
     (if \<not> time_isZero (cl_ExpiresAt cl) then [Out (''  expires:   '' @ cf_date fm (cl_ExpiresAt cl))] else []) @
     (if \<not> time_isZero (cl_IssuedAt cl) then [Out (''  issued:    '' @ cf_date fm (cl_IssuedAt cl))] else []) @
     [Out ''-----------------------'']"

definition printTokenInfo ::
  "(string \<Rightarrow> claim_set result) \<Rightarrow> cliFormat \<Rightarrow> string \<Rightarrow> 's client \<Rightarrow> outLine list" where
  "printTokenInfo unmarshal fm token c =
     (if token = '''' then [Out ''No valid access token available.'']
      else Out (tokenSummary token) #
           (case Client_Claims unmarshal c of
              Inl err \<Rightarrow> [Out '''', Out (''No ID token claims: '' @ errorText err)]
            | Inr cl \<Rightarrow> claimLines fm cl))"

section \<open>The command loop\<close>

datatype cliCommand = CliLogin | CliStatus | CliToken | CliRefresh | CliLogout | CliQuit | CliUnknown

definition cliCommand :: "string \<Rightarrow> cliCommand" where
  "cliCommand text =
     (let input = toLower (trimSpace text)
      in if input = ''l'' then CliLogin
         else if input = ''s'' then CliStatus
         else if input = ''t'' then CliToken
         else if input = ''r'' then CliRefresh
         else if input = ''o'' then CliLogout
         else if input = ''q'' then CliQuit
         else CliUnknown)"

definition cliMenu :: "outLine list" where
  "cliMenu = map Out [''  [l] Login'', ''  [s] Show status'', ''  [t] Show access token'',
     ''  [r] Refresh token (manual)'', ''  [o] Logout'', ''  [q] Quit'', '''', ''> '']"

text \<open>
  The environment of one command: that of the call it makes, the clock of the status display,
  and what the supervisor and others do before it.
\<close>

record 's cliEnv =
  ce_between :: "'s client \<Rightarrow> 's client"
  ce_login :: "'s loginEnv"
  ce_logout :: "'s logoutEnv"
  ce_access :: "'s accessEnv"
  ce_now :: gotime
  ce_later :: gotime

text \<open>One command that is not \<open>q\<close>: what it prints and leaves, or \<open>None\<close> while its call still waits.\<close>

definition cliTurn ::
  "(string \<Rightarrow> claim_set result) \<Rightarrow> cliFormat \<Rightarrow> 's token_persistence \<Rightarrow> 's cliEnv \<Rightarrow> cliCommand \<Rightarrow>
   's client \<Rightarrow> outLine list option \<times> 's client" where
  "cliTurn unmarshal fm ops env cmd c =
     (case cmd of
        CliLogin \<Rightarrow>
          (case login ops (ce_login env) c of
             (None, c) \<Rightarrow> (None, c)
           | (Some err, c) \<Rightarrow>
               (Some [Out ''Opening browser for login...'',
                      (case err of Some e \<Rightarrow> Err (''Login failed: '' @ errorText e)
                                 | None \<Rightarrow> Out ''Login successful!'')], c))
      | CliStatus \<Rightarrow> (Some (printStatus unmarshal fm ops (ce_now env) (ce_later env) c), c)
      | CliToken \<Rightarrow>
          (case accessToken ops (ce_access env) c of
             (None, c) \<Rightarrow> (None, c)
           | (Some token, c) \<Rightarrow> (Some (printTokenInfo unmarshal fm token c), c))
      | CliRefresh \<Rightarrow>
          (case accessToken ops (ce_access env) c of
             (None, c) \<Rightarrow> (None, c)
           | (Some token, c) \<Rightarrow>
               (Some [Out ''Attempting manual token refresh...'',
                      Out (if token \<noteq> '''' then ''Token refreshed successfully.''
                           else ''Refresh failed or no session.'')], c))
      | CliLogout \<Rightarrow>
          (case Logout ops (ce_logout env) c of
             (None, c) \<Rightarrow> (None, c)
           | (Some _, c) \<Rightarrow> (Some [Out ''Logging out...'', Out ''Logged out.''], c))
      | CliQuit \<Rightarrow> (Some [Out ''Bye!''], c)
      | CliUnknown \<Rightarrow> (Some [Out ''Unknown command.''], c))"

text \<open>
  The loop over the lines of the input. Leaving it, by \<open>q\<close> or at the end of the input, runs
  the deferred \<open>StopRefreshLoop\<close>; a call that never returns holds the loop.
\<close>

datatype cliEnd = CliBye | CliEndOfInput | CliHangs

fun cliLoop ::
  "(string \<Rightarrow> claim_set result) \<Rightarrow> cliFormat \<Rightarrow> 's token_persistence \<Rightarrow> (string \<times> 's cliEnv) list \<Rightarrow>
   's client \<Rightarrow> outLine list \<times> cliEnd \<times> 's client" where
  "cliLoop unmarshal fm ops [] c = (cliMenu, CliEndOfInput, StopRefreshLoop c)"
| "cliLoop unmarshal fm ops ((text, env) # input) c =
     (let cmd = cliCommand text
      in case cliTurn unmarshal fm ops env cmd (ce_between env c) of
           (None, c) \<Rightarrow> (cliMenu @ [Out ''''], CliHangs, c)
         | (Some ls, c) \<Rightarrow>
             if cmd = CliQuit then (cliMenu @ [Out ''''] @ ls, CliBye, StopRefreshLoop c)
             else (let (out, e, c) = cliLoop unmarshal fm ops input c
                   in (cliMenu @ [Out ''''] @ ls @ [Out ''''] @ out, e, c)))"

section \<open>What the example shows its user\<close>

text \<open>A setup that succeeds rests on a store that keeps the contract, with a loopback redirect URI.\<close>

lemma cliSetup_sound:
  assumes "codecLaws cd" and "cliSetup cd race home fl env = (Inr (h, s, restored, c), env')"
  shows "persistence_contract (fileStoreOps cd s) wfFS (representable cd)"
    and "isLoopback (dh_host h)" and "restored \<longleftrightarrow> \<not> TokenState_IsZero (state c)"
    and "fl_issuer fl \<noteq> '''' \<and> fl_clientID fl \<noteq> ''''"
proof -
  obtain e1 c0 cfg where st: "newStore cd race ''pkceflow-example'' (cliDir fl home) env = (Inr s, e1)"
    and h: "cliHandler fl = Inr h" and n: "c0 = newClient cfg e1"
    and r: "RestoreSession (fileStoreOps cd s) c0 = ((restored, None), c)"
    and u: "cliUsageError fl = None"
    using assms(2)
    by (auto simp: cliSetup_def New_def split: option.splits prod.splits sum.splits if_splits)
  show "persistence_contract (fileStoreOps cd s) wfFS (representable cd)"
    using assms(1) newStore_Inr [OF assms(1) st] by (intro Store_contract) simp_all
  show "isLoopback (dh_host h)"
    using h by (auto simp: cliHandler_def NewWithURI_def desktopHandlerFor_def desktopSetLogoutURI_def
        desktopSetLogoutPath_def Let_def split: if_splits sum.splits option.splits prod.splits)
  show "restored \<longleftrightarrow> \<not> TokenState_IsZero (state c)"
    using r by (auto simp: n RestoreSession_def newClient_def setStateLocked_def split: sum.splits if_splits)
  show "fl_issuer fl \<noteq> '''' \<and> fl_clientID fl \<noteq> ''''"
    using u by (auto simp: cliUsageError_def split: if_splits)
qed

text \<open>
  A refused session, which keeps only its ID token, is told apart from one that never was: the
  status names the user to log in again.
\<close>

lemma cli_names_refused_user:
  assumes "state c = refusedState st" and "DecodeIDToken unmarshal (IDToken st) = Inr cl"
    and "IDToken st \<noteq> ''''" and "0 \<le> t_ns now"
  shows "statusLine unmarshal now c = ''  State:  Session refused - log in again (was '' @ identify cl @ '')''"
proof -
  have "\<not> CanUseApp (AuthStatus now c)" 
    using refused_unusable(1) [of c now] assms(1,4) refusedState_times by auto
  then have "\<not> Valid (AuthStatus now c)" "\<not> GraceMode (AuthStatus now c)"
    by (auto simp: AuthStatus_def zeroAuthStatus_def Let_def split: if_splits)
  then show ?thesis
    using assms(1-3) by (simp add: statusLine_def Client_Claims_def refusedState_def)
qed

text \<open>
  The command \<open>r\<close> reports a refresh whenever a token comes back: for a token that is still
  valid it asks the provider nothing and changes nothing.
\<close>

lemma cli_refresh_reports_cached_token:
  assumes "tokenValid (ae_now (ce_access env)) (state c)" and "AccessToken (state c) \<noteq> ''''"
    and "\<not> refreshIntegrityBlockedLocked c"
  shows "cliTurn unmarshal fm ops env CliRefresh c =
    (Some [Out ''Attempting manual token refresh...'', Out ''Token refreshed successfully.''], c)"
proof -
  have "\<not> TokenState_IsZero (state c)" using assms(2) by (auto simp: TokenState_IsZero_def)
  with assms show ?thesis by (simp add: cliTurn_def accessToken_def)
qed

text \<open>Above 106751 days the grace period leaves the 64 bits of a duration and becomes negative.\<close>

lemma cli_grace_overflow:
  "GracePeriod (cliConfig (defaultFlags\<lparr>fl_graceDays := 106751\<rparr>)) = 106751 * 86400 * second \<and>
   GracePeriod (cliConfig (defaultFlags\<lparr>fl_graceDays := 106752\<rparr>)) < 0"
  by code_simp

text \<open>An explicit callback path is only noticed when it differs from the default.\<close>

lemma cli_default_callback_path_unnoticed:
  "cliUsageError (defaultFlags\<lparr>fl_issuer := ''https://idp.example'', fl_clientID := ''app'',
     fl_redirectURI := ''http://127.0.0.1:8080/cb'', fl_set := [''callback-path'']\<rparr>) = None"
  by code_simp

text \<open>However the loop is left, the supervisor has been told to stop.\<close>

lemma cli_leaves_stopped:
  assumes "cliLoop unmarshal fm ops input c = (out, e, c')" and "e \<noteq> CliHangs"
    and "refreshRun c' = Some h"
  shows "\<forall>x. handles c' h = Some x \<longrightarrow> h_cancelled x"
  using assms
proof (induction unmarshal fm ops input c arbitrary: out e c' rule: cliLoop.induct)
  case (1 unmarshal fm ops c)
  then show ?case by (auto simp: StopRefreshLoop_def cancelHandle_def split: option.splits)
next
  case (2 unmarshal fm ops typed env input c)
  let ?r = "cliTurn unmarshal fm ops env (cliCommand typed) (ce_between env c)"
  obtain ls c1 where r: "?r = (Some ls, c1)"
    using 2(2,3) by (cases ?r) (auto split: option.splits)
  show ?case
  proof (cases "cliCommand typed = CliQuit")
    case True
    with 2(2,4) r show ?thesis by (auto simp: StopRefreshLoop_def cancelHandle_def split: option.splits)
  next
    case False
    obtain out1 e1 c2 where l: "cliLoop unmarshal fm ops input c1 = (out1, e1, c2)" by (metis prod_cases3)
    with 2(2) r False have "e1 = e" "c2 = c'" by (auto simp: Let_def)
    with 2(1) [OF refl r [symmetric] refl False l] 2(3,4) show ?thesis by simp
  qed
qed

end
