(* ===== verification/Spec2Isabelle.thy ===== *)
theory Spec2Isabelle
  imports Client_Heap Supervisor Mobileflow Desktopflow Transport Filestore Eventbus Handler_Logout Coverage_Check
    Browser Cli_Example
begin

text \<open>
  Verification of \<open>go-pkceflow\<close>, a Go client library for the OpenID Connect
  authorization-code flow with PKCE in desktop and mobile applications.

  \<^bold>\<open>The program.\<close> A \<open>Client\<close> (\<open>client.go\<close>) holds the tokens of one session. \<open>Init\<close> discovers the
  provider; \<open>Login\<close> (\<open>login.go\<close>) runs a browser flow through a flow handler, exchanges the code
  and commits the tokens; a background supervisor (\<open>pkceflow.go\<close>) refreshes them
  (\<open>refresh.go\<close>) before they expire and retries failed saves (\<open>persistence.go\<close>); \<open>AccessToken\<close>
  and \<open>AuthStatus\<close> answer consumers, with a grace period while the provider cannot be reached;
  \<open>Logout\<close> (\<open>logout.go\<close>) clears the session, revokes the refresh token and ends the provider's
  session. \<open>lifecycle.go\<close> lets only one login or logout own the client at a time. Around the
  client stand two flow handlers (\<open>desktopflow\<close>, \<open>mobileflow\<close>), an encrypted file store
  (\<open>filestore\<close>), a deferred event bus (\<open>eventbus\<close>) and a bearer-token transport
  (\<open>transport.go\<close>).

  \<^bold>\<open>The theories.\<close>

  \<^item> \<open>Go_Prelude\<close>: durations, times, 64-bit counters and string helpers, and the collections of
    simplification rules. \<open>Go_Errors\<close>: \<open>errors.go\<close> with wrapping, \<open>errors.Is\<close>/\<open>errors.As\<close> and the
    classification of refresh failures. \<open>Go_Url\<close>: the parts of \<open>net/url\<close> the program uses
    (parsing, escaping, query values), with their round trips; \<open>Go_Url_Roundtrip\<close> shows that
    \<open>Parse\<close> reads back what \<open>String\<close> prints. \<open>Go_Http\<close>: the parts of \<open>net/http\<close>. \<open>OS_Files\<close>: the parts of \<open>os\<close>
    and \<open>io\<close> the file store uses, over a file system with faults and crashes.

  \<^item> \<open>Token_State\<close>: \<open>state.go\<close>, the configuration record, and the \<open>TokenPersistence\<close> interface
    as a record of operations with its contract as the locale \<open>persistence_contract\<close>. The
    default memory store interprets it here, the file store is shown to keep it in
    \<open>Filestore\<close>; the clients' lemmas (a retried save is durable, a refused session survives a
    restart) are proved once in the locale, in \<open>Persistence\<close> and \<open>Access_Token\<close>.

  \<^item> \<open>Client_State\<close>: the \<open>Client\<close> struct as a record, state transitions with their revision
    numbers, the wake broadcast and the event queue (\<open>client.go\<close>, \<open>events.go\<close>).
    \<open>Sample_Client\<close>: the concrete client of the witnesses.

  \<^item> \<open>Refresh_Loop\<close>: the supervisor of \<open>pkceflow.go\<close>: when an attempt is due (thresholds at
    half, a quarter, an eighth of the lifetime before expiry), claims, outcomes, blocks and the
    session-expired event. Shown: attempts start exactly when due, at most 63 per generation
    and ten seconds apart, one claim at a time, one event. \<open>Supervisor\<close>: its turns between two
    waits as a loop that may run for ever (\<open>partial_function\<close>), and the proof that it does not.

  \<^item> \<open>Persistence\<close>: \<open>persistence.go\<close>: recording a failed save, exponential back-off, recovery.

  \<^item> \<open>Base64\<close>, \<open>Claims\<close>: \<open>claims.go\<close> and \<open>verify.go\<close>. \<open>Refresh\<close>: \<open>refresh.go\<close>, from the token request
    to the commit, the refusal of a credential and the sharing of one attempt by concurrent
    callers. Shown: what is committed was validated for the same subject, answers for a
    replaced generation change nothing, callers share one attempt.

  \<^item> \<open>Access_Token\<close>: \<open>AuthStatus\<close>, \<open>RestoreSession\<close>, \<open>AccessToken\<close>, \<open>TokenFn\<close>. Shown: status and
    token agree; a refused credential ends the session for good, across restarts; an integrity
    failure fails closed; a refused registration keeps grace; restoring is safe and faithful.

  \<^item> \<open>Config\<close>: \<open>config.go\<close>. \<open>Options\<close>: \<open>options.go\<close> and the defaults \<open>New\<close> installs; whichever
    store the options choose, the client's keeps the contract. \<open>Lifecycle\<close>: \<open>lifecycle.go\<close> and \<open>Init\<close>. \<open>Login\<close>: \<open>login.go\<close>. \<open>Logout\<close>:
    \<open>logout.go\<close>. Shown: what a login commits and that a failed or replaced one commits
    nothing, that the state parameter is checked before anything else in a callback, that a
    logout takes effect whatever the provider does, and where the refresh token may be sent.

  \<^item> \<open>Client_System\<close>: every locked section of the client as a step of one relation
    (\<open>clientReach\<close>), in any order. Shown for every reachable client over a store that keeps the
    contract: a session in memory is stored or its save is pending, retries and schedules are
    for the current generation, and a waiting event has a dispatcher. \<open>Client_Heap\<close>: in the
    same relation every pointer of the client names a live object of its kind, and of each
    kind at most one object is live.

  \<^item> \<open>Auth_Flow\<close>: the \<open>AuthFlowHandler\<close> interface as the locale \<open>auth_flow\<close>, extended by \<open>logout_flow\<close> for
    \<open>LogoutFlowHandler\<close>; the handlers below interpret both, the fake one the first.

  \<^item> \<open>Mobileflow\<close>, \<open>Desktopflow\<close>: the flow handlers. The desktop broker is a step relation
    (\<open>brokerReach\<close>) over flows, requests, sends and shutdown timers; its invariants show that
    the port is open exactly while needed, on loopback addresses, and that a flow only receives
    callbacks for its own state.

  \<^item> \<open>Filestore\<close>: private files staged and published atomically, the fallback key, the sealed
    format and the store. Shown for every script of faults: saving is atomic even against
    crashes, all openers agree on the key, and the persistence contract. \<open>Machine_Id\<close>: the
    identifier the key is bound to on Linux, macOS (a regular expression, shown to find the
    leftmost match) and Windows (a UTF-16 registry value). \<open>Browser\<close>: \<open>browser.go\<close>, the command
    of each platform, which gets the URL as one argument.

  \<^item> \<open>Eventbus\<close>: interleaved steps of \<open>Emit\<close> and \<open>SetTarget\<close>; nothing lost, repeated or
    overtaken, and everything deliverable. \<open>Transport\<close>: the bearer transport.

  \<^item> \<open>Fake_IDP\<close>, \<open>Fake_IDP_Handlers\<close>, \<open>Fake_IDP_Props\<close>: the fake identity provider of \<open>oidctest\<close>
    (\<open>fakeserver.go\<close>, \<open>hooks.go\<close>). Shown: the authorization endpoint redirects only to registered
    URIs, tokens are issued for a code exactly when PKCE and the other checks pass, and in
    every interleaving of the locked sections (\<open>idpRun\<close>) codes and refresh tokens work once.

  \<^item> \<open>Test_Doubles\<close>: the doubles of \<open>oidctest\<close> (stores, emitter, flow handler); the stores interpret
    the persistence contract. \<open>Provider_Login\<close>: client and provider together; \<open>Handler_Login\<close>,
    \<open>Handler_Logout\<close>: a login and a logout through any handler that keeps its interface. Shown: an
    initialized client logs in against the provider's endpoints through the desktop, mobile
    and fake handlers, and logs out through the first two: its refresh token is refused from
    then on and the browser comes back with the logout's state.

  \<^item> \<open>Coverage_Check\<close>: the coverage gate of the build (\<open>.github/scripts/coveragecheck\<close>): package
    list, cover profile, policy and exit status. Shown: it passes exactly when the policy holds
    for the sums over the profile's blocks; the 128-bit comparison is exact; the report names
    a reason exactly when it fails. \<open>Cli_Example\<close>: the example (\<open>examples/cli/main.go\<close>) that puts
    store, desktop handler and client together, its command loop and what it prints.

  This theory joins them: a session in a client over the file store survives a machine crash.

  \<^bold>\<open>How the code is modelled.\<close> Operations are functions on the client record that return the
  next one; an error is a value; a call that does not return (a browser flow that never ends, a
  wait on an attempt) is \<open>None\<close>. Sections under \<open>stateCommitMu\<close>, \<open>mu\<close> or \<open>lifecycleMu\<close> are atomic
  steps. Where the code lets go of its locks, the operation's environment has a function on
  the client for what other goroutines did meanwhile; statements that need an undisturbed call
  say so (\<open>quietRefresh\<close>, \<open>quietAccess\<close>, \<open>quietLogin\<close>), the others hold for all of them. Pointers
  whose identity the code compares (attempts, operations, channels) are addresses in maps of
  the record. Counters are 64-bit words; durations are integers with Go's wrap-around and
  saturation written out. The retry and threshold loops terminate by measures, so no fuel
  is used; symbolic links are followed at most 40 times, as the kernel does.

  Foreign code is a parameter with its documented laws as hypotheses: \<open>golang.org/x/oauth2\<close>,
  \<open>coreos/go-oidc\<close>, the JSON decoder, AES-GCM and SHA-256 (\<open>codecLaws\<close>), flow handlers, sockets
  and the clock. Case folding and trimming are ASCII. \<open>graceDaysLeft\<close> is the exact quotient
  the program computes in floating point and truncates.

  \<^bold>\<open>Not modelled.\<close> Log output; \<open>flag\<close> parsing and reading lines in the example, whose formatted
  times are parameters, as is the percentage the coverage gate shows (it is computed in
  floating point). Setting a nil target on the event bus is outside its documented use.
\<close>

section \<open>A client over the encrypted file store\<close>

lemma Store_Save_survives_crash:
  assumes "codecLaws cd" and "length (fst_key s) = 32" and "fst_path s \<noteq> []" and "wfFS env"
    and "representable cd ts" and "Store_Save cd s ts env = (None, env')" and "\<not> fs_windows env"
    and "crashImage env' env''"
  obtains ts' where "Store_Load cd s env'' = Inr ts'" and "sameTokenState ts ts'"
proof -
  from Store_Save_cases [OF assms(3,4,6)] assms(7) obtain plain nonce i
    where m: "marshalState cd ts = Inr plain" and n: "length nonce = nonceSize"
      and i: "fs_names env' (fst_path s) = Some i" "fs_durable env' (fst_path s) = Some i"
        "privateFile False (nonce @ gcmSeal cd (fst_key s) nonce plain) (fs_inodes env' i)"
    by (auto simp: replaceOutcome_def)
  from assms(1,5) m obtain ts' where u: "unmarshalState cd plain = Inr ts'" "sameTokenState ts ts'"
    unfolding codecLaws_def by blast
  have "fs_names env'' (fst_path s) \<in> {fs_names env' (fst_path s), fs_durable env' (fst_path s)}"
    using assms(8) by (simp add: crashImage_def)
  then have e: "fs_names env'' (fst_path s) = Some i" "fs_inodes env'' i = fs_inodes env' i" "fs_readFault env'' = None"
    using assms(8) i by (simp_all add: crashImage_def privateFile_def)
  from Store_Load_sealed [OF assms(1,2) n assms(5) m u(1) e(1) _ e(3)] i(3) e(2)
  have "Store_Load cd s env'' = Inr ts'" by simp
  then show thesis using u(2) that by blast
qed



end
